(* ===== verification/Prelude.thy ===== *)
theory Prelude
  imports Main "HOL-Library.Word" "HOL-Library.Multiset"
begin

section \<open>Shared vocabulary: results of Go calls, computations, slices\<close>

text \<open>
  What every component of the model uses: the error values, the four ways a Go call can end, the
  combinators that compose calls, loops over slices, preservation of a state predicate by a
  computation, and the lemmas on lists the components share.
\<close>

named_theorems comp_defs \<open>the combinators on computations\<close>
named_theorems keeps_intros \<open>a computation keeps a predicate of its state\<close>
named_theorems maintains_intros \<open>a computation that returns maintains an invariant\<close>

subsection \<open>Errors and results\<close>

text \<open>
  The sentinel errors of \<^verbatim>\<open>server/pkg/util/errors.go\<close>, the sentinels of the libraries the code
  compares with (\<^verbatim>\<open>git.NoErrAlreadyUpToDate\<close>, \<^verbatim>\<open>git.ErrRepositoryAlreadyExists\<close>, an error for
  which \<^verbatim>\<open>k8sErrors.IsNotFound\<close> holds), errors made by \<^verbatim>\<open>errors.New\<close>, and any other error.
\<close>

datatype error =
    NoErrAlreadyUpTodate
  | ErrFailedToPrepareKnownHosts
  | ErrRepositoryAlreadyExist
  | ErrFailedToCreateRepository
  | ErrRepositoryConfigNotFound
  | ErrApplicationAlreadyExist
  | ErrApplicationNotFound
  | GitNoErrAlreadyUpToDate
  | GitErrRepositoryAlreadyExists
  | K8sNotFound
  | NewError string
  | OtherError string

datatype panic =
    NilDereference
  | NegativeWaitGroup
  | UnlockOfUnlockedMutex
  | OtherPanic string

text \<open>
  A call returns a value, returns an error, panics, or spins: \<open>Spin\<close> is a
  \<^verbatim>\<open>for !m.TryLock() {}\<close> that found its mutex locked, so that the call does not return unless
  another goroutine unlocks it.
\<close>

datatype 'a res = Ret 'a | Fail error | Panic panic | Spin

type_synonym ('s, 'a) comp = "'s \<Rightarrow> 'a res \<times> 's"

subsection \<open>Computations\<close>

definition ret :: "'a \<Rightarrow> ('s, 'a) comp" where
  [comp_defs]: "ret a s = (Ret a, s)"

definition failc :: "error \<Rightarrow> ('s, 'a) comp" where
  [comp_defs]: "failc e s = (Fail e, s)"

definition panicc :: "panic \<Rightarrow> ('s, 'a) comp" where
  [comp_defs]: "panicc p s = (Panic p, s)"

definition spinc :: "('s, 'a) comp" where
  [comp_defs]: "spinc s = (Spin, s)"

text \<open>\<open>andthen\<close> is \<^verbatim>\<open>x, err := m(); if err != nil { return err }; f(x)\<close>.\<close>

definition andthen :: "('s, 'a) comp \<Rightarrow> ('a \<Rightarrow> ('s, 'b) comp) \<Rightarrow> ('s, 'b) comp" where
  "andthen m f s =
     (case m s of
        (Ret a, s') \<Rightarrow> f a s'
      | (Fail e, s') \<Rightarrow> (Fail e, s')
      | (Panic p, s') \<Rightarrow> (Panic p, s')
      | (Spin, s') \<Rightarrow> (Spin, s'))"

text \<open>\<open>attempt\<close> is \<^verbatim>\<open>x, err := m()\<close>: the error is a value, a panic is not caught.\<close>

definition attempt :: "('s, 'a) comp \<Rightarrow> ('s, error + 'a) comp" where
  "attempt m s =
     (case m s of
        (Ret a, s') \<Rightarrow> (Ret (Inr a), s')
      | (Fail e, s') \<Rightarrow> (Ret (Inl e), s')
      | (Panic p, s') \<Rightarrow> (Panic p, s')
      | (Spin, s') \<Rightarrow> (Spin, s'))"

definition gets :: "('s \<Rightarrow> 'a) \<Rightarrow> ('s, 'a) comp" where
  [comp_defs]: "gets f s = (Ret (f s), s)"

definition modify :: "('s \<Rightarrow> 's) \<Rightarrow> ('s, unit) comp" where
  [comp_defs]: "modify f s = (Ret (), f s)"

text \<open>
  A call on one part of a pair of states: the object whose method runs, and the world.
\<close>

definition on_obj :: "('o, 'a) comp \<Rightarrow> ('o \<times> 'w, 'a) comp" where
  [comp_defs]: "on_obj m = (\<lambda>(ob, w). case m ob of (r, ob') \<Rightarrow> (r, (ob', w)))"

definition on_world :: "('w, 'a) comp \<Rightarrow> ('o \<times> 'w, 'a) comp" where
  [comp_defs]: "on_world m = (\<lambda>(ob, w). case m w of (r, w') \<Rightarrow> (r, (ob, w')))"

text \<open>\<^verbatim>\<open>for _, x := range xs { body }\<close>, without and with collected results.\<close>

fun for_each :: "('x \<Rightarrow> ('s, unit) comp) \<Rightarrow> 'x list \<Rightarrow> ('s, unit) comp" where
  "for_each body [] = ret ()"
| "for_each body (x # xs) = andthen (body x) (\<lambda>_. for_each body xs)"

fun map_each :: "('x \<Rightarrow> ('s, 'y) comp) \<Rightarrow> 'x list \<Rightarrow> ('s, 'y list) comp" where
  "map_each body [] = ret []"
| "map_each body (x # xs) =
     andthen (body x) (\<lambda>y. andthen (map_each body xs) (\<lambda>ys. ret (y # ys)))"

subsection \<open>Rewriting and inversion\<close>

lemma andthen_simps [simp]:
  "andthen (ret a) f = f a"
  "andthen (failc e) f = failc e"
  "andthen (panicc p) f = panicc p"
  "andthen spinc f = spinc"
  by (auto simp: andthen_def comp_defs fun_eq_iff)

lemma andthen_ret_right [simp]: "andthen m ret = m"
  by (auto simp: andthen_def ret_def fun_eq_iff split: prod.split res.split)

lemma andthen_assoc [simp]: "andthen (andthen m f) g = andthen m (\<lambda>a. andthen (f a) g)"
  by (auto simp: andthen_def fun_eq_iff split: prod.split res.split)

lemma andthen_Ret [simp]: "m s = (Ret a, s') \<Longrightarrow> andthen m f s = f a s'"
  by (simp add: andthen_def)

lemma andthen_Fail [simp]: "m s = (Fail e, s') \<Longrightarrow> andthen m f s = (Fail e, s')"
  by (simp add: andthen_def)

lemma andthen_Panic [simp]: "m s = (Panic p, s') \<Longrightarrow> andthen m f s = (Panic p, s')"
  by (simp add: andthen_def)

lemma andthen_Spin [simp]: "m s = (Spin, s') \<Longrightarrow> andthen m f s = (Spin, s')"
  by (simp add: andthen_def)

lemma andthen_eq_Ret:
  "andthen m f s = (Ret b, t) \<longleftrightarrow> (\<exists>a u. m s = (Ret a, u) \<and> f a u = (Ret b, t))"
  by (auto simp: andthen_def split: prod.split res.split)

lemma andthen_eq_Fail:
  "andthen m f s = (Fail e, t) \<longleftrightarrow>
     m s = (Fail e, t) \<or> (\<exists>a u. m s = (Ret a, u) \<and> f a u = (Fail e, t))"
  by (auto simp: andthen_def split: prod.split res.split)

lemma attempt_simps [simp]:
  "m s = (Ret a, s') \<Longrightarrow> attempt m s = (Ret (Inr a), s')"
  "m s = (Fail e, s') \<Longrightarrow> attempt m s = (Ret (Inl e), s')"
  "m s = (Panic p, s') \<Longrightarrow> attempt m s = (Panic p, s')"
  "m s = (Spin, s') \<Longrightarrow> attempt m s = (Spin, s')"
  by (simp_all add: attempt_def)

lemma attempt_eq_Ret:
  "attempt m s = (Ret x, t) \<longleftrightarrow>
     (\<exists>e. x = Inl e \<and> m s = (Fail e, t)) \<or> (\<exists>a. x = Inr a \<and> m s = (Ret a, t))"
  by (auto simp: attempt_def split: prod.split res.split)

lemma attempt_never_fails: "fst (attempt m s) \<noteq> Fail e"
  by (auto simp: attempt_def split: prod.split res.split)

lemma gets_app [simp]: "gets f s = (Ret (f s), s)"
  and modify_app [simp]: "modify h s = (Ret (), h s)"
  and ret_app [simp]: "ret a s = (Ret a, s)"
  and failc_app [simp]: "failc e s = (Fail e, s)"
  and panicc_app [simp]: "panicc p s = (Panic p, s)"
  and spinc_app [simp]: "spinc s = (Spin, s)"
  by (simp_all add: comp_defs)

lemma andthen_gets [simp]: "andthen (gets g) f s = f (g s) s"
  and andthen_modify [simp]: "andthen (modify h) k s = k () (h s)"
  by (simp_all add: andthen_def)

lemma on_obj_app [simp]: "on_obj m (ob, w) = (case m ob of (r, ob') \<Rightarrow> (r, (ob', w)))"
  by (simp add: on_obj_def)

lemma on_world_app [simp]: "on_world m (ob, w) = (case m w of (r, w') \<Rightarrow> (r, (ob, w')))"
  by (simp add: on_world_def)

lemmas comp_inv = andthen_eq_Ret andthen_eq_Fail attempt_eq_Ret

subsection \<open>Predicates a computation keeps\<close>

text \<open>
  \<open>keeps P m\<close>: however \<open>m\<close> ends, \<open>P\<close> holds of the state afterwards if it held before. The rules
  follow the combinators, so that a frame property or an invariant of an operation is proved
  along its definition.
\<close>

definition keeps :: "('s \<Rightarrow> bool) \<Rightarrow> ('s, 'a) comp \<Rightarrow> bool" where
  "keeps P m \<longleftrightarrow> (\<forall>s. P s \<longrightarrow> P (snd (m s)))"

lemma keepsI: "(\<And>s. P s \<Longrightarrow> P (snd (m s))) \<Longrightarrow> keeps P m"
  by (simp add: keeps_def)

lemma keepsD: "keeps P m \<Longrightarrow> P s \<Longrightarrow> P (snd (m s))"
  by (simp add: keeps_def)

lemma keepsD_eq: "keeps P m \<Longrightarrow> m s = (r, t) \<Longrightarrow> P s \<Longrightarrow> P t"
  by (metis keepsD snd_conv)

lemma keeps_basic [keeps_intros, simp]:
  "keeps P (ret a)" "keeps P (failc e)" "keeps P (panicc p)" "keeps P spinc" "keeps P (gets f)"
  by (simp_all add: keeps_def comp_defs)

lemma keeps_modify [keeps_intros]: "(\<And>s. P s \<Longrightarrow> P (h s)) \<Longrightarrow> keeps P (modify h)"
  by (simp add: keeps_def)

lemma keeps_andthen [keeps_intros]:
  "keeps P m \<Longrightarrow> (\<And>a. keeps P (f a)) \<Longrightarrow> keeps P (andthen m f)"
  unfolding keeps_def andthen_def
  by (fastforce split: prod.splits res.splits)

lemma keeps_attempt [keeps_intros]: "keeps P m \<Longrightarrow> keeps P (attempt m)"
  unfolding keeps_def attempt_def
  by (fastforce split: prod.splits res.splits)

lemma keeps_if [keeps_intros]:
  "(b \<Longrightarrow> keeps P m) \<Longrightarrow> (\<not> b \<Longrightarrow> keeps P m') \<Longrightarrow> keeps P (if b then m else m')"
  by simp

lemma keeps_case_sum [keeps_intros]:
  "(\<And>e. keeps P (f e)) \<Longrightarrow> (\<And>a. keeps P (g a)) \<Longrightarrow> keeps P (case x of Inl e \<Rightarrow> f e | Inr a \<Rightarrow> g a)"
  by (cases x) simp_all

lemma keeps_case_option [keeps_intros]:
  "keeps P m \<Longrightarrow> (\<And>a. keeps P (g a)) \<Longrightarrow> keeps P (case x of None \<Rightarrow> m | Some a \<Rightarrow> g a)"
  by (cases x) simp_all

lemma keeps_on_obj [keeps_intros]:
  "keeps P m \<Longrightarrow> keeps (\<lambda>(ob, w). P ob) (on_obj m)"
  unfolding keeps_def by (fastforce split: prod.splits dest: spec)

lemma keeps_on_world [keeps_intros]: "keeps (\<lambda>(ob, w). P ob) (on_world m)"
  by (auto simp: keeps_def split: prod.splits)

lemma keeps_for_each [keeps_intros]: "(\<And>x. keeps P (body x)) \<Longrightarrow> keeps P (for_each body xs)"
  by (induction xs) (auto intro!: keeps_intros)

lemma keeps_map_each [keeps_intros]: "(\<And>x. keeps P (body x)) \<Longrightarrow> keeps P (map_each body xs)"
  by (induction xs) (auto intro!: keeps_intros)

subsection \<open>Invariants of calls that return\<close>

text \<open>
  A panic ends the process and a spinning call does not come back, so an invariant of the program's
  state is claimed of the calls that return, with a value or an error: \<open>maintains I m\<close>.
\<close>

definition returns :: "'a res \<Rightarrow> bool" where
  "returns r \<longleftrightarrow> (\<exists>a. r = Ret a) \<or> (\<exists>e. r = Fail e)"

lemma returns_simps [simp]:
  "returns (Ret a)" "returns (Fail e)" "\<not> returns (Panic q)" "\<not> returns Spin"
  by (simp_all add: returns_def)

definition maintains :: "('s \<Rightarrow> bool) \<Rightarrow> ('s, 'a) comp \<Rightarrow> bool" where
  "maintains I m \<longleftrightarrow> (\<forall>s. I s \<longrightarrow> returns (fst (m s)) \<longrightarrow> I (snd (m s)))"

lemma maintainsI: "(\<And>s r s'. I s \<Longrightarrow> m s = (r, s') \<Longrightarrow> returns r \<Longrightarrow> I s') \<Longrightarrow> maintains I m"
  unfolding maintains_def by (metis prod.collapse)

lemma maintainsD: "maintains I m \<Longrightarrow> m s = (r, s') \<Longrightarrow> returns r \<Longrightarrow> I s \<Longrightarrow> I s'"
  unfolding maintains_def by (metis fst_conv snd_conv)

lemma keeps_maintains: "keeps I m \<Longrightarrow> maintains I m"
  by (simp add: keeps_def maintains_def)

lemma maintains_basic [maintains_intros, simp]:
  "maintains I (ret a)" "maintains I (failc e)" "maintains I (panicc p)" "maintains I spinc" "maintains I (gets f)"
  by (simp_all add: keeps_maintains)

lemma maintains_modify [maintains_intros]: "(\<And>s. I s \<Longrightarrow> I (h s)) \<Longrightarrow> maintains I (modify h)"
  by (simp add: maintains_def)

lemma maintains_andthen [maintains_intros]:
  assumes "maintains I m" and "\<And>a. maintains I (f a)"
  shows "maintains I (andthen m f)"
proof (rule maintainsI)
  fix s r s' assume I: "I s" and m: "andthen m f s = (r, s')" "returns r"
  obtain r1 s1 where m1: "m s = (r1, s1)" by (metis prod.exhaust)
  show "I s'"
  proof (cases r1)
    case (Ret a)
    then have "I s1" and "f a s1 = (r, s')"
      using maintainsD[OF assms(1) m1] I m(1) m1 by simp_all
    then show ?thesis using maintainsD[OF assms(2)] m(2) by blast
  next
    case (Fail e)
    then show ?thesis using maintainsD[OF assms(1) m1] I m(1) m1 by simp
  qed (use m m1 in auto)
qed

lemma maintains_attempt [maintains_intros]: "maintains I m \<Longrightarrow> maintains I (attempt m)"
  by (rule maintainsI) (auto simp: attempt_def split: prod.splits res.splits dest: maintainsD)

lemma maintains_if [maintains_intros]:
  "(b \<Longrightarrow> maintains I m) \<Longrightarrow> (\<not> b \<Longrightarrow> maintains I m') \<Longrightarrow> maintains I (if b then m else m')"
  by simp

lemma maintains_case_sum [maintains_intros]:
  "(\<And>e. maintains I (f e)) \<Longrightarrow> (\<And>a. maintains I (g a)) \<Longrightarrow>
     maintains I (case x of Inl e \<Rightarrow> f e | Inr a \<Rightarrow> g a)"
  by (cases x) simp_all

lemma maintains_case_option [maintains_intros]:
  "maintains I m \<Longrightarrow> (\<And>a. x = Some a \<Longrightarrow> maintains I (g a)) \<Longrightarrow>
     maintains I (case x of None \<Rightarrow> m | Some a \<Rightarrow> g a)"
  by (cases x) simp_all

lemma maintains_on_obj [maintains_intros]:
  "maintains I m \<Longrightarrow> maintains (\<lambda>(ob, w). I ob) (on_obj m)"
  by (rule maintainsI) (auto simp: on_obj_def split: prod.splits dest: maintainsD)

lemma maintains_on_world [maintains_intros]: "maintains (\<lambda>(ob, w). I ob) (on_world m)"
  by (intro keeps_maintains keeps_on_world)

lemma maintains_for_each [maintains_intros]:
  "(\<And>x. maintains I (body x)) \<Longrightarrow> maintains I (for_each body xs)"
  by (induction xs) (auto intro!: maintains_intros)

lemma maintains_map_each [maintains_intros]:
  "(\<And>x. maintains I (body x)) \<Longrightarrow> maintains I (map_each body xs)"
  by (induction xs) (auto intro!: maintains_intros)

subsection \<open>Slices\<close>

text \<open>
  The index of the first, and of the last, element that satisfies a condition: the search loops
  with and without \<^verbatim>\<open>break\<close>.
\<close>

fun first_index :: "('a \<Rightarrow> bool) \<Rightarrow> 'a list \<Rightarrow> nat option" where
  "first_index p [] = None"
| "first_index p (x # xs) = (if p x then Some 0 else map_option Suc (first_index p xs))"

fun last_index :: "('a \<Rightarrow> bool) \<Rightarrow> 'a list \<Rightarrow> nat option" where
  "last_index p [] = None"
| "last_index p (x # xs) =
     (case last_index p xs of
        Some i \<Rightarrow> Some (Suc i)
      | None \<Rightarrow> (if p x then Some 0 else None))"

lemma first_index_Some:
  "first_index p xs = Some i \<longleftrightarrow> i < length xs \<and> p (xs ! i) \<and> (\<forall>j<i. \<not> p (xs ! j))"
proof (induction xs arbitrary: i)
  case (Cons x xs)
  then show ?case
    by (cases i) (auto simp: less_Suc_eq_0_disj)
qed simp

lemma first_index_None: "first_index p xs = None \<longleftrightarrow> (\<forall>x\<in>set xs. \<not> p x)"
  by (induction xs) auto

lemma last_index_None: "last_index p xs = None \<longleftrightarrow> (\<forall>x\<in>set xs. \<not> p x)"
  by (induction xs) (auto split: option.splits)

lemma last_index_Some:
  "last_index p xs = Some i \<longleftrightarrow>
     i < length xs \<and> p (xs ! i) \<and> (\<forall>j. i < j \<and> j < length xs \<longrightarrow> \<not> p (xs ! j))"
proof (induction xs arbitrary: i)
  case (Cons x xs)
  show ?case
  proof (cases "last_index p xs")
    case None
    then have "\<And>j. j < length xs \<Longrightarrow> \<not> p (xs ! j)"
      by (auto simp: last_index_None)
    with None show ?thesis
      by (cases i) (auto simp: less_Suc_eq_0_disj gr0_conv_Suc)
  next
    case (Some k)
    then have k: "k < length xs" "p (xs ! k)" using Cons by auto
    show ?thesis
    proof (cases i)
      case 0
      with Some k show ?thesis by (auto intro!: exI[of _ "Suc k"])
    next
      case (Suc n)
      with Some Cons[of n] show ?thesis
        by (auto simp: less_Suc_eq_0_disj gr0_conv_Suc)
    qed
  qed
qed simp

text \<open>\<^verbatim>\<open>xs[i] = xs[len(xs)-1]; xs = xs[:len(xs)-1]\<close>.\<close>

definition swap_remove :: "'a list \<Rightarrow> nat \<Rightarrow> 'a list" where
  "swap_remove xs i = take (length xs - 1) (xs[i := xs ! (length xs - 1)])"

lemma swap_remove_split:
  assumes "i < length xs"
  shows "swap_remove xs i =
    (if i = length xs - 1 then take i xs else (take i xs @ last xs # drop (Suc i) (butlast xs)))"
proof -
  obtain ys z where xs: "xs = ys @ [z]" using assms by (cases xs rule: rev_cases) auto
  show ?thesis
  proof (cases "i = length ys")
    case True
    then show ?thesis by (simp add: swap_remove_def xs)
  next
    case False
    then have i: "i < length ys" using assms xs by simp
    then have "swap_remove xs i = ys[i := z]"
      by (simp add: swap_remove_def xs list_update_append)
    with i False show ?thesis
      by (simp add: xs upd_conv_take_nth_drop)
  qed
qed

lemma length_swap_remove [simp]: "length (swap_remove xs i) = length xs - 1"
  by (simp add: swap_remove_def)

lemma mset_swap_remove:
  assumes "i < length xs"
  shows "add_mset (xs ! i) (mset (swap_remove xs i)) = mset xs"
proof -
  obtain ys z where xs: "xs = ys @ [z]" using assms by (cases xs rule: rev_cases) auto
  show ?thesis
  proof (cases "i = length ys")
    case True
    then show ?thesis by (simp add: swap_remove_def xs)
  next
    case False
    then have i: "i < length ys" using assms xs by simp
    then have "swap_remove xs i = ys[i := z]"
      by (simp add: swap_remove_def xs list_update_append)
    with i show ?thesis
      by (simp add: xs mset_update nth_append)
  qed
qed

lemma set_swap_remove_subset: "i < length xs \<Longrightarrow> set (swap_remove xs i) \<subseteq> set xs"
  by (metis mset_swap_remove insert_iff set_mset_add_mset_insert set_mset_mset subsetI)

lemma set_swap_remove:
  "i < length xs \<Longrightarrow> set xs = insert (xs ! i) (set (swap_remove xs i))"
  by (metis mset_swap_remove set_mset_add_mset_insert set_mset_mset)

lemma distinct_map_swap_remove:
  assumes "i < length xs" and "distinct (map f xs)"
  shows "distinct (map f (swap_remove xs i))" and "f (xs ! i) \<notin> f ` set (swap_remove xs i)"
proof -
  have "mset (map f xs) = add_mset (f (xs ! i)) (mset (map f (swap_remove xs i)))"
    using mset_swap_remove[OF assms(1)] by (metis image_mset_add_mset mset_map)
  then have "mset (map f xs) = mset (f (xs ! i) # map f (swap_remove xs i))" by simp
  then have "distinct (f (xs ! i) # map f (swap_remove xs i))"
    using assms(2) mset_eq_imp_distinct_iff by blast
  then show "distinct (map f (swap_remove xs i))" "f (xs ! i) \<notin> f ` set (swap_remove xs i)"
    by auto
qed

end
