(* ===== verification/GoStd.thy ===== *)
theory GoStd
  imports Prelude "HOL-Library.Sublist" "HOL-Library.Char_ord" "HOL-Library.List_Lexorder"
begin

section \<open>The standard library as far as the program uses it\<close>

text \<open>
  Mutexes with \<^verbatim>\<open>TryLock\<close>, the functions of \<^verbatim>\<open>strings\<close>, \<^verbatim>\<open>path\<close>/\<^verbatim>\<open>path/filepath\<close> and
  \<^verbatim>\<open>regexp\<close> that the program calls. Strings are lists of bytes, as in Go.
\<close>

subsection \<open>sync.Mutex\<close>

text \<open>
  A mutex is locked (\<open>True\<close>) or not. \<open>TryLock\<close> gives its result and the new value; the spin
  loop \<^verbatim>\<open>for !m.TryLock() {}\<close> ends at once on a free mutex and spins on a locked one;
  unlocking a free mutex is a fatal error.
\<close>

type_synonym mutex = bool

definition TryLock :: "mutex \<Rightarrow> bool \<times> mutex" where
  "TryLock m = (\<not> m, True)"

definition spin_lock :: "(mutex, unit) comp" where
  "spin_lock m = (case TryLock m of (True, m') \<Rightarrow> (Ret (), m') | (False, m') \<Rightarrow> (Spin, m'))"

definition Unlock :: "(mutex, unit) comp" where
  "Unlock m = (if m then (Ret (), False) else (Panic UnlockOfUnlockedMutex, m))"

lemma spin_lock_simps [simp]:
  "spin_lock False = (Ret (), True)" "spin_lock True = (Spin, True)"
  by (simp_all add: spin_lock_def TryLock_def)

lemma Unlock_simps [simp]:
  "Unlock True = (Ret (), False)" "Unlock False = (Panic UnlockOfUnlockedMutex, False)"
  by (simp_all add: Unlock_def)

subsection \<open>strings\<close>

definition HasPrefix :: "string \<Rightarrow> string \<Rightarrow> bool" where
  "HasPrefix s p = prefix p s"

text \<open>\<^verbatim>\<open>strings.Split\<close> with a one-byte separator: never the empty slice.\<close>

fun split_on :: "char \<Rightarrow> string \<Rightarrow> string list" where
  "split_on c [] = [[]]"
| "split_on c (x # xs) =
     (if x = c then [] # split_on c xs
      else (case split_on c xs of [] \<Rightarrow> [[x]] | t # ts \<Rightarrow> (x # t) # ts))"

text \<open>\<^verbatim>\<open>strings.Join\<close> with a one-byte separator.\<close>

fun join_with :: "char \<Rightarrow> string list \<Rightarrow> string" where
  "join_with c [] = []"
| "join_with c [x] = x"
| "join_with c (x # y # zs) = x @ c # join_with c (y # zs)"

text \<open>
  \<^verbatim>\<open>strings.ToLower\<close> on ASCII; bytes from 128 on are left alone, where Go would lower-case
  letters outside ASCII too.
\<close>

definition lower_char :: "char \<Rightarrow> char" where
  "lower_char c = (if CHR ''A'' \<le> c \<and> c \<le> CHR ''Z'' then char_of (of_char c + 32 :: nat) else c)"

definition ToLower :: "string \<Rightarrow> string" where
  "ToLower s = map lower_char s"

lemma split_on_not_Nil [simp]: "split_on c s \<noteq> []"
  by (cases s) (auto split: list.splits)

lemma split_on_no_sep [simp]: "c \<notin> set s \<Longrightarrow> split_on c s = [s]"
  by (induction s) auto

lemma split_on_append: "c \<notin> set s \<Longrightarrow> split_on c (s @ c # t) = s # split_on c t"
  by (induction s) auto

lemma split_on_join:
  "xs \<noteq> [] \<Longrightarrow> (\<forall>x\<in>set xs. c \<notin> set x) \<Longrightarrow> split_on c (join_with c xs) = xs"
  by (induction c xs rule: join_with.induct) (auto simp: split_on_append)

lemma split_on_elems: "x \<in> set (split_on c s) \<Longrightarrow> c \<notin> set x"
  by (induction s arbitrary: x) (auto split: if_splits list.splits)

lemma join_with_Cons_Cons [simp]: "join_with c ((x # a) # xs) = x # join_with c (a # xs)"
  by (cases xs) simp_all

lemma join_with_Nil_Cons [simp]: "xs \<noteq> [] \<Longrightarrow> join_with c ([] # xs) = c # join_with c xs"
  by (cases xs) simp_all

lemma join_split_on: "join_with c (split_on c s) = s"
proof (induction s)
  case (Cons x xs)
  then show ?case
    by (cases "split_on c xs") auto
qed simp

lemma join_with_append:
  "xs \<noteq> [] \<Longrightarrow> join_with c (xs @ [y]) = join_with c xs @ c # y"
  by (induction c xs rule: join_with.induct) auto

subsection \<open>path\<close>

text \<open>
  \<^verbatim>\<open>path.Clean\<close> (on Unix \<^verbatim>\<open>filepath.Clean\<close> is the same): the components are pushed on a
  stack, empty ones and \<^verbatim>\<open>.\<close> are dropped, \<^verbatim>\<open>..\<close> pops; at the root \<^verbatim>\<open>..\<close> is dropped, and
  where there is nothing to pop in a relative path it is kept.
\<close>

abbreviation slash :: char where "slash \<equiv> CHR ''/''"

fun clean_stack :: "bool \<Rightarrow> string list \<Rightarrow> string list \<Rightarrow> string list" where
  "clean_stack rooted st [] = rev st"
| "clean_stack rooted st (x # xs) =
     (if x = [] \<or> x = ''.'' then clean_stack rooted st xs
      else if x = ''..'' then
        (case st of
           [] \<Rightarrow> (if rooted then clean_stack rooted [] xs else clean_stack rooted [''..''] xs)
         | y # ys \<Rightarrow> (if y = ''..'' then clean_stack rooted (''..'' # st) xs
                       else clean_stack rooted ys xs))
      else clean_stack rooted (x # st) xs)"

definition Clean :: "string \<Rightarrow> string" where
  "Clean p =
     (if p = [] then ''.''
      else if HasPrefix p ''/'' then slash # join_with slash (clean_stack True [] (split_on slash p))
      else (case clean_stack False [] (split_on slash p) of
              [] \<Rightarrow> ''.''
            | cs \<Rightarrow> join_with slash cs))"

text \<open>\<^verbatim>\<open>path.Join\<close>, \<^verbatim>\<open>filepath.Join\<close>.\<close>

definition Join :: "string list \<Rightarrow> string" where
  "Join es =
     (case dropWhile (\<lambda>e. e = []) es of
        [] \<Rightarrow> []
      | es' \<Rightarrow> Clean (join_with slash es'))"

text \<open>A plain component: what a file name of a directory listing is.\<close>

definition plain_comp :: "string \<Rightarrow> bool" where
  "plain_comp x \<longleftrightarrow> x \<noteq> [] \<and> x \<noteq> ''.'' \<and> x \<noteq> ''..'' \<and> slash \<notin> set x"

text \<open>An absolute path made of plain components.\<close>

definition abs_path :: "string list \<Rightarrow> string" where
  "abs_path cs = slash # join_with slash cs"

lemma clean_stack_plain:
  "(\<forall>x\<in>set xs. plain_comp x) \<Longrightarrow> clean_stack r st (xs @ ys) = clean_stack r (rev xs @ st) ys"
  by (induction xs arbitrary: st) (auto simp: plain_comp_def)

lemma split_on_abs_path:
  "(\<forall>x\<in>set cs. plain_comp x) \<Longrightarrow> split_on slash (abs_path cs) = [] # (if cs = [] then [[]] else cs)"
  by (auto simp: abs_path_def split_on_join plain_comp_def)

lemma Clean_abs_path: "(\<forall>x\<in>set cs. plain_comp x) \<Longrightarrow> Clean (abs_path cs) = abs_path cs"
  using clean_stack_plain[of cs True "[]" "[]"]
  by (auto simp: Clean_def HasPrefix_def split_on_abs_path) (auto simp: abs_path_def)

lemma Join_abs_path:
  assumes "\<forall>x\<in>set cs. plain_comp x" and "plain_comp y"
  shows "Join [abs_path cs, y] = abs_path (cs @ [y])"
proof (cases "cs = []")
  case True
  have "split_on slash y = [y]" using assms(2) by (simp add: plain_comp_def)
  with True assms(2) show ?thesis
    by (simp add: Join_def abs_path_def Clean_def HasPrefix_def plain_comp_def)
next
  case False
  then have "join_with slash [abs_path cs, y] = abs_path (cs @ [y])"
    by (simp add: abs_path_def join_with_append)
  then show ?thesis
    using Clean_abs_path[of "cs @ [y]"] assms
    by (simp add: Join_def) (simp add: abs_path_def)
qed

lemma abs_path_inj:
  assumes "\<forall>x\<in>set cs. plain_comp x" "\<forall>x\<in>set ds. plain_comp x" "abs_path cs = abs_path ds"
  shows "cs = ds"
proof -
  have "split_on slash (abs_path cs) = split_on slash (abs_path ds)"
    by (rule arg_cong[OF assms(3)])
  then have eq: "[] # (if cs = [] then [[]] else cs) = [] # (if ds = [] then [[]] else ds)"
    unfolding split_on_abs_path[OF assms(1)] split_on_abs_path[OF assms(2)] .
  have "xs \<noteq> [[]]" if "\<forall>x\<in>set xs. plain_comp x" for xs
    using that by (metis plain_comp_def list.set_intros(1))
  then have "cs \<noteq> [[]]" "ds \<noteq> [[]]" using assms(1,2) by blast+
  moreover from eq have "(if cs = [] then [[]] else cs) = (if ds = [] then [[]] else ds)"
    by (rule list.inject[THEN iffD1, THEN conjunct2])
  ultimately show ?thesis
    by (metis (full_types))
qed

text \<open>Cleaning a path that is clean changes nothing.\<close>

lemma clean_stack_rooted_plain:
  "(\<forall>x\<in>set st. plain_comp x) \<Longrightarrow> (\<forall>x\<in>set xs. slash \<notin> set x) \<Longrightarrow>
     \<forall>x\<in>set (clean_stack True st xs). plain_comp x"
proof (induction xs arbitrary: st)
  case (Cons x xs)
  have x: "x = [] \<or> x = ''.'' \<or> x = ''..'' \<or> plain_comp x"
    using Cons.prems(2) unfolding plain_comp_def by auto
  have rest: "\<forall>x\<in>set xs. slash \<notin> set x" using Cons.prems(2) by simp
  have not_up: "\<not> plain_comp ''..''" by (simp add: plain_comp_def)
  show ?case
  proof (cases "plain_comp x")
    case True
    then have "clean_stack True st (x # xs) = clean_stack True (x # st) xs"
      by (auto simp: plain_comp_def)
    then show ?thesis using Cons.IH[of "x # st"] Cons.prems(1) rest True by simp
  next
    case False
    then consider "x = [] \<or> x = ''.''" | "x = ''..''" using x by blast
    then show ?thesis
    proof cases
      case 1
      then have "clean_stack True st (x # xs) = clean_stack True st xs" by auto
      then show ?thesis using Cons.IH[of st] Cons.prems(1) rest by simp
    next
      case 2
      then have "clean_stack True st (x # xs) = clean_stack True (tl st) xs"
        using Cons.prems(1) not_up by (cases st) auto
      then show ?thesis using Cons.IH[of "tl st"] Cons.prems(1) rest by (cases st) simp_all
    qed
  qed
qed simp

lemma Clean_rooted:
  assumes "HasPrefix p ''/''"
  shows "\<exists>cs. (\<forall>x\<in>set cs. plain_comp x) \<and> Clean p = abs_path cs"
  using assms clean_stack_rooted_plain[of "[]" "split_on slash p"]
  by (intro exI[of _ "clean_stack True [] (split_on slash p)"])
    (auto simp: Clean_def abs_path_def HasPrefix_def split_on_elems)

lemma Clean_rooted_idem: "HasPrefix p ''/'' \<Longrightarrow> Clean (Clean p) = Clean p"
  using Clean_rooted[of p] Clean_abs_path by auto

subsection \<open>regexp\<close>

text \<open>
  Regular expressions as the program's one pattern needs them, matched against a whole string
  by derivatives. \<open>RAny\<close> is Go's \<^verbatim>\<open>.\<close>, which does not match a newline.
\<close>

datatype regex = RNone | REps | RChar char | RAny | RSeq regex regex | RAlt regex regex | RStar regex

fun nullable :: "regex \<Rightarrow> bool" where
  "nullable RNone = False"
| "nullable REps = True"
| "nullable (RChar c) = False"
| "nullable RAny = False"
| "nullable (RSeq r s) = (nullable r \<and> nullable s)"
| "nullable (RAlt r s) = (nullable r \<or> nullable s)"
| "nullable (RStar r) = True"

fun deriv :: "char \<Rightarrow> regex \<Rightarrow> regex" where
  "deriv c RNone = RNone"
| "deriv c REps = RNone"
| "deriv c (RChar d) = (if c = d then REps else RNone)"
| "deriv c RAny = (if c = CHR 10 then RNone else REps)"
| "deriv c (RSeq r s) =
     (if nullable r then RAlt (RSeq (deriv c r) s) (deriv c s) else RSeq (deriv c r) s)"
| "deriv c (RAlt r s) = RAlt (deriv c r) (deriv c s)"
| "deriv c (RStar r) = RSeq (deriv c r) (RStar r)"

fun MatchString :: "regex \<Rightarrow> string \<Rightarrow> bool" where
  "MatchString r [] = nullable r"
| "MatchString r (c # s) = MatchString (deriv c r) s"

definition rx_plus :: "regex \<Rightarrow> regex" where
  "rx_plus r = RSeq r (RStar r)"

fun rx_lit :: "string \<Rightarrow> regex" where
  "rx_lit [] = REps"
| "rx_lit (c # cs) = RSeq (RChar c) (rx_lit cs)"

text \<open>The strings an expression denotes.\<close>

inductive rx_in :: "regex \<Rightarrow> string \<Rightarrow> bool" where
  in_eps: "rx_in REps []"
| in_char: "rx_in (RChar c) [c]"
| in_any: "c \<noteq> CHR 10 \<Longrightarrow> rx_in RAny [c]"
| in_seq: "rx_in r u \<Longrightarrow> rx_in s v \<Longrightarrow> rx_in (RSeq r s) (u @ v)"
| in_alt1: "rx_in r u \<Longrightarrow> rx_in (RAlt r s) u"
| in_alt2: "rx_in s u \<Longrightarrow> rx_in (RAlt r s) u"
| in_star0: "rx_in (RStar r) []"
| in_star: "rx_in r (c # u) \<Longrightarrow> rx_in (RStar r) v \<Longrightarrow> rx_in (RStar r) (c # u @ v)"

inductive_simps rx_in_simps [simp]:
  "rx_in RNone u" "rx_in REps u" "rx_in (RChar c) u" "rx_in RAny u"
  "rx_in (RSeq r s) u" "rx_in (RAlt r s) u"

inductive_cases rx_in_starE: "rx_in (RStar r) (c # u)"

lemma nullable_rx_in: "nullable r \<longleftrightarrow> rx_in r []"
  by (induction r) (auto intro: rx_in.intros)

lemma rx_in_seq_Cons:
  "rx_in (RSeq r s) (c # u) \<longleftrightarrow>
     (\<exists>a b. u = a @ b \<and> rx_in r (c # a) \<and> rx_in s b) \<or> (rx_in r [] \<and> rx_in s (c # u))"
  by (auto simp: Cons_eq_append_conv)

lemma rx_in_star_Cons:
  "rx_in (RStar r) (c # u) \<longleftrightarrow> (\<exists>a b. u = a @ b \<and> rx_in r (c # a) \<and> rx_in (RStar r) b)"
  by (rule iffI, erule rx_in_starE) (blast intro: rx_in.intros)+

lemma deriv_rx_in: "rx_in (deriv c r) u \<longleftrightarrow> rx_in r (c # u)"
proof (induction r arbitrary: u)
  case (RSeq r s)
  then show ?case
    unfolding rx_in_seq_Cons by (auto simp: nullable_rx_in)
next
  case (RStar r)
  then show ?case by (auto simp: rx_in_star_Cons)
qed auto

lemma MatchString_rx_in: "MatchString r u \<longleftrightarrow> rx_in r u"
  by (induction u arbitrary: r) (simp_all add: nullable_rx_in deriv_rx_in)

lemma rx_in_lit: "rx_in (rx_lit s) u \<longleftrightarrow> u = s"
  by (induction s arbitrary: u) auto

lemma rx_in_star_any: "rx_in (RStar RAny) u \<longleftrightarrow> CHR 10 \<notin> set u"
proof (induction u)
  case Nil
  show ?case by (simp add: rx_in.in_star0)
next
  case (Cons c u)
  then show ?case by (auto simp: rx_in_star_Cons)
qed

text \<open>The pattern \<^verbatim>\<open>^.+\.(yaml|yml)$\<close> of \<^verbatim>\<open>RawProvider.getResourceFiles\<close>.\<close>

definition yaml_regex :: regex where
  "yaml_regex = RSeq (rx_plus RAny) (RSeq (RChar CHR ''.'') (RAlt (rx_lit ''yaml'') (rx_lit ''yml'')))"

lemma MatchString_yaml:
  "MatchString yaml_regex u \<longleftrightarrow>
     (\<exists>v. v \<noteq> [] \<and> CHR 10 \<notin> set v \<and> (u = v @ ''.yaml'' \<or> u = v @ ''.yml''))"
proof -
  have *: "rx_in (RSeq (RChar CHR ''.'') (RAlt (rx_lit ''yaml'') (rx_lit ''yml''))) w \<longleftrightarrow>
      w = ''.yaml'' \<or> w = ''.yml''" for w
    by (auto simp: rx_in_lit)
  have **: "rx_in (rx_plus RAny) v \<longleftrightarrow> v \<noteq> [] \<and> CHR 10 \<notin> set v" for v
  proof (cases v)
    case (Cons c u)
    then show ?thesis
      unfolding rx_plus_def Cons rx_in_seq_Cons by (auto simp: rx_in_star_any)
  qed (simp add: rx_plus_def)
  show ?thesis
    unfolding MatchString_rx_in yaml_regex_def
    by (subst rx_in_simps(5)) (auto simp: * **)
qed

end
