(* ===== verification/Types.thy ===== *)
theory Types
  imports GoStd
begin

section \<open>Data the components exchange\<close>

text \<open>
  Values of library types as the program builds and reads them: git hashes and options, manifests
  of Kubernetes objects, label requirements, Helm charts, releases and action options. Each record
  lists the fields the program sets or reads.
\<close>

type_synonym bytes = string

subsection \<open>git\<close>

text \<open>\<^verbatim>\<open>plumbing.Hash\<close> is \<^verbatim>\<open>[20]byte\<close>; the zero hash marks "no revision".\<close>

type_synonym hash = "160 word"

definition ZeroHash :: hash where
  "ZeroHash = 0"

definition IsZero :: "hash \<Rightarrow> bool" where
  "IsZero h \<longleftrightarrow> h = ZeroHash"

datatype host_key_callback = InsecureIgnoreHostKey | KnownHosts string

record ssh_auth =
  sa_user :: string
  sa_key :: string
  sa_callback :: host_key_callback

record clone_options =
  co_URL :: string
  co_ReferenceName :: string
  co_SingleBranch :: bool
  co_NoCheckout :: bool
  co_Auth :: "ssh_auth option"

record fetch_options =
  fo_RemoteName :: string
  fo_RemoteURL :: string
  fo_Force :: bool
  fo_Auth :: "ssh_auth option"

record pull_options =
  po_RemoteName :: string
  po_RemoteURL :: string
  po_ReferenceName :: string
  po_SingleBranch :: bool
  po_Force :: bool
  po_Auth :: "ssh_auth option"

record checkout_options =
  ck_SparseCheckoutDirectories :: "string list"
  ck_Keep :: bool
  ck_Branch :: string
  ck_Force :: bool

datatype reset_mode = MixedReset | HardReset | MergeReset | SoftReset

record reset_options =
  ro_Commit :: hash
  ro_Mode :: reset_mode

record commit =
  c_Hash :: hash
  c_Message :: string

type_synonym git_repo = nat
type_synonym worktree = nat

subsection \<open>Kubernetes\<close>

record gvr =
  g_group :: string
  g_version :: string
  g_resource :: string

record manifest =
  m_apiVersion :: string
  m_kind :: string
  m_name :: string
  m_labels :: "string \<rightharpoonup> string"
  m_resourceVersion :: string
  m_body :: string

record api_group =
  ag_Name :: string
  ag_Versions :: "(string \<times> string) list"  \<comment> \<open>\<open>GroupVersion\<close> and \<open>Version\<close> of each version\<close>

datatype selection = Equals | NotEquals

record requirement =
  rq_key :: string
  rq_op :: selection
  rq_values :: "string list"

text \<open>\<^verbatim>\<open>rest.Config\<close>: the fields the program sets or reads.\<close>

record rest_config =
  rcfg_Host :: string
  rcfg_BearerToken :: string
  rcfg_Insecure :: bool
  rcfg_QPS :: int
  rcfg_Burst :: int
  rcfg_CertFile :: string
  rcfg_CertData :: bytes
  rcfg_CAFile :: string
  rcfg_CAData :: bytes
  rcfg_KeyFile :: string
  rcfg_KeyData :: bytes

text \<open>A goroutine of \<^verbatim>\<open>cleanResources\<close>: list the resources of one kind, delete each.\<close>

record clean_task =
  ct_gvr :: gvr
  ct_namespace :: string
  ct_selector :: "requirement list"

text \<open>A read of a \<^verbatim>\<open>map[string]string\<close>: the empty string where the key is missing.\<close>

definition map_get :: "(string \<rightharpoonup> string) \<Rightarrow> string \<Rightarrow> string" where
  "map_get m k = (case m k of None \<Rightarrow> [] | Some v \<Rightarrow> v)"

subsection \<open>Helm\<close>

text \<open>
  Values of a chart. A map is a list of entries sorted by key, so that HOL's equality is
  \<^verbatim>\<open>reflect.DeepEqual\<close>; a nil map is \<open>YNull\<close>.
\<close>

datatype yaml_value =
    YNull | YBool bool | YInt int | YString string | YList "yaml_value list"
  | YMap "(string \<times> yaml_value) list"

record config_flags =
  cf_APIServer :: string
  cf_BearerToken :: string
  cf_CAFile :: string
  cf_CertFile :: string
  cf_KeyFile :: string
  cf_Namespace :: string
  cf_Insecure :: bool

record helm_settings =
  hs_Debug :: bool
  hs_Namespace :: string
  hs_RepositoryCache :: string

text \<open>The getters of a download manager are \<^verbatim>\<open>getter.All\<close> of the settings in \<open>dm_Getters\<close>.\<close>

record download_manager =
  dm_ChartPath :: string
  dm_Debug :: bool
  dm_Getters :: helm_settings
  dm_RepositoryCache :: string

record chart =
  ch_Description :: string
  ch_Values :: yaml_value
  ch_Templates :: string

record release =
  rel_Name :: string
  rel_Chart :: chart

record list_options =
  lo_All :: bool
  lo_ListAll :: bool

record install_options =
  in_ReleaseName :: string
  in_Namespace :: string
  in_Wait :: bool
  in_Timeout :: int
  in_DependencyUpdate :: bool
  in_CreateNamespace :: bool
  in_IncludeCRDs :: bool
  in_Atomic :: bool
  in_Description :: string

record upgrade_options =
  up_Namespace :: string
  up_Install :: bool
  up_CleanupOnFail :: bool
  up_Timeout :: int
  up_SkipCRDs :: bool
  up_Wait :: bool
  up_Atomic :: bool
  up_DependencyUpdate :: bool
  up_Recreate :: bool
  up_Description :: string

record uninstall_options =
  un_Timeout :: int
  un_Wait :: bool
  un_KeepHistory :: bool

lemma map_get_Some [simp]: "m k = Some v \<Longrightarrow> map_get m k = v"
  by (simp add: map_get_def)

end
