(* ===== verification/Util.thy ===== *)
theory Util
  imports Types
begin

section \<open>Package util: files and names\<close>

text \<open>
  \<^verbatim>\<open>server/pkg/util/utils.go\<close> over a file system that is a tree of named entries. Paths are
  resolved from the root after lexical cleaning; there are no symbolic links and no permissions
  (the server's container runs as one user), so that a read fails exactly on a missing file or a
  directory, and a write exactly on a directory or a missing parent. \<open>spawned\<close> holds the deletion
  goroutines the process has started and not yet run; \<open>ext\<close> is everything outside the process
  that is not a file: clusters, releases, remote repositories.
\<close>

datatype node = File bytes | Dir "(string \<times> node) list"

record 'e world =
  home :: "string option"
  disk :: node
  spawned :: "clean_task list"
  ext :: 'e

subsection \<open>The tree\<close>

lemma size_entry [termination_simp]: "e \<in> set es \<Longrightarrow> size (snd e) < Suc (size_list (size_prod (\<lambda>_. 0) size) es)"
  by (induction es) auto

definition path_comps :: "string \<Rightarrow> string list" where
  "path_comps p = clean_stack True [] (split_on slash p)"

fun lookup_node :: "node \<Rightarrow> string list \<Rightarrow> node option" where
  "lookup_node n [] = Some n"
| "lookup_node (Dir es) (x # xs) =
     (case map_of es x of None \<Rightarrow> None | Some n \<Rightarrow> lookup_node n xs)"
| "lookup_node (File b) (x # xs) = None"

fun set_entry :: "string \<Rightarrow> node \<Rightarrow> (string \<times> node) list \<Rightarrow> (string \<times> node) list" where
  "set_entry x n [] = [(x, n)]"
| "set_entry x n ((y, m) # es) = (if x = y then (x, n) # es else (y, m) # set_entry x n es)"

fun put_file :: "string list \<Rightarrow> bytes \<Rightarrow> node \<Rightarrow> node option" where
  "put_file [] d n = None"
| "put_file xs d (File b) = None"
| "put_file [x] d (Dir es) =
     (case map_of es x of
        Some (Dir _) \<Rightarrow> None
      | _ \<Rightarrow> Some (Dir (set_entry x (File d) es)))"
| "put_file (x # y # xs) d (Dir es) =
     (case map_of es x of
        None \<Rightarrow> None
      | Some n \<Rightarrow> map_option (\<lambda>n'. Dir (set_entry x n' es)) (put_file (y # xs) d n))"

fun mk_dirs :: "string list \<Rightarrow> node \<Rightarrow> node option" where
  "mk_dirs xs (File b) = None"
| "mk_dirs [] (Dir es) = Some (Dir es)"
| "mk_dirs (x # xs) (Dir es) =
     map_option (\<lambda>n'. Dir (set_entry x n' es))
       (mk_dirs xs (case map_of es x of None \<Rightarrow> Dir [] | Some n \<Rightarrow> n))"

fun rm_all :: "string list \<Rightarrow> node \<Rightarrow> node option" where
  "rm_all [] n = None"
| "rm_all xs (File b) = None"
| "rm_all [x] (Dir es) = Some (Dir (filter (\<lambda>e. fst e \<noteq> x) es))"
| "rm_all (x # y # xs) (Dir es) =
     (case map_of es x of
        None \<Rightarrow> Some (Dir es)
      | Some n \<Rightarrow> map_option (\<lambda>n'. Dir (set_entry x n' es)) (rm_all (y # xs) n))"

text \<open>\<^verbatim>\<open>filepath.Walk\<close>: the names of the visited entries, a directory before its entries, the entries in lexical order.\<close>

function walk_names :: "string \<Rightarrow> node \<Rightarrow> string list" where
  "walk_names nm (File b) = [nm]"
| "walk_names nm (Dir es) = nm # concat (map (\<lambda>e. walk_names (fst e) (snd e)) (sort_key fst es))"
  by pat_completeness auto
termination
  by (relation "measure (size \<circ> snd)") (auto dest: size_entry)

fun wf_node :: "node \<Rightarrow> bool" where
  "wf_node (File b) = True"
| "wf_node (Dir es) = (distinct (map fst es) \<and> (\<forall>e\<in>set es. plain_comp (fst e) \<and> wf_node (snd e)))"

subsection \<open>The functions of the package\<close>

definition GetUserHome :: "'e world \<Rightarrow> string option" where
  "GetUserHome w = home w"

text \<open>\<^verbatim>\<open>*util.GetUserHome()\<close>: the callers dereference the result without a check.\<close>

definition deref_home :: "('e world, string) comp" where
  "deref_home w = (case GetUserHome w of None \<Rightarrow> (Panic NilDereference, w) | Some h \<Rightarrow> (Ret h, w))"

definition PanicOnError :: "error option \<Rightarrow> ('s, unit) comp" where
  "PanicOnError err = (case err of None \<Rightarrow> ret () | Some e \<Rightarrow> panicc (OtherPanic ''PanicOnError''))"

definition ReadFile :: "string \<Rightarrow> 'e world \<Rightarrow> bytes option" where
  "ReadFile p w =
     (case lookup_node (disk w) (path_comps p) of Some (File b) \<Rightarrow> Some b | _ \<Rightarrow> None)"

definition WriteFile :: "string \<Rightarrow> bytes \<Rightarrow> ('e world, unit) comp" where
  "WriteFile p d w =
     (case put_file (path_comps p) d (disk w) of
        None \<Rightarrow> (Fail (OtherError ''open''), w)
      | Some n \<Rightarrow> (Ret (), w\<lparr>disk := n\<rparr>))"

definition MkdirAll :: "string \<Rightarrow> ('e world, unit) comp" where
  "MkdirAll p w =
     (case mk_dirs (path_comps p) (disk w) of
        None \<Rightarrow> (Fail (OtherError ''mkdir''), w)
      | Some n \<Rightarrow> (Ret (), w\<lparr>disk := n\<rparr>))"

definition RemoveAll :: "string \<Rightarrow> ('e world, unit) comp" where
  "RemoveAll p w =
     (if p = [] then (Ret (), w)
      else (case rm_all (path_comps p) (disk w) of
              None \<Rightarrow> (Fail (OtherError ''unlinkat''), w)
            | Some n \<Rightarrow> (Ret (), w\<lparr>disk := n\<rparr>)))"

definition GetFilesFullPath :: "string \<Rightarrow> string list \<Rightarrow> string list" where
  "GetFilesFullPath p fileNames = map (\<lambda>file. Join [p, file]) fileNames"

text \<open>
  \<open>rx\<close> is the result of \<^verbatim>\<open>regexp.Compile(regExpr)\<close>. The callback appends \<^verbatim>\<open>info.Name()\<close>, the
  entry's own name without its directory, of every visited entry, directories included.
\<close>

definition FindFilesWithRegex :: "string \<Rightarrow> regex option \<Rightarrow> 'e world \<Rightarrow> string list" where
  "FindFilesWithRegex root rx w =
     (case rx of
        None \<Rightarrow> []
      | Some r \<Rightarrow>
          (case lookup_node (disk w) (path_comps root) of
             None \<Rightarrow> []
           | Some n \<Rightarrow>
               filter (MatchString r)
                 (walk_names (case path_comps root of [] \<Rightarrow> ''/'' | cs \<Rightarrow> last cs) n)))"

subsection \<open>Facts about the tree\<close>

lemma path_comps_abs_path: "\<forall>x\<in>set cs. plain_comp x \<Longrightarrow> path_comps (abs_path cs) = cs"
  using clean_stack_plain[of cs True "[]" "[]"]
  by (simp add: path_comps_def split_on_abs_path)

lemma path_comps_plain: "\<forall>x\<in>set (path_comps p). plain_comp x"
  unfolding path_comps_def by (rule clean_stack_rooted_plain) (auto dest: split_on_elems)

lemma lookup_node_File [simp]: "lookup_node (File b) p = (if p = [] then Some (File b) else None)"
  by (cases p) auto

lemma ReadFile_eq_Some:
  "ReadFile q w = Some b \<longleftrightarrow> lookup_node (disk w) (path_comps q) = Some (File b)"
  by (auto simp: ReadFile_def split: option.splits node.splits)

lemma map_of_set_entry [simp]: "map_of (set_entry x n es) = (map_of es)(x \<mapsto> n)"
  by (induction x n es rule: set_entry.induct) auto

lemma lookup_put_file_same: "put_file p d n = Some n' \<Longrightarrow> lookup_node n' p = Some (File d)"
  by (induction p d n arbitrary: n' rule: put_file.induct)
    (auto split: option.splits node.splits)

lemma lookup_put_file_other:
  "put_file p d n = Some n' \<Longrightarrow> lookup_node n q = Some (File b) \<Longrightarrow> q \<noteq> p \<Longrightarrow>
     lookup_node n' q = Some (File b)"
proof (induction p d n arbitrary: n' q rule: put_file.induct)
  case (3 x d es)
  then show ?case by (cases q) (auto split: option.splits node.splits list.splits if_splits)
next
  case (4 x y xs d es)
  then show ?case by (cases q) (auto split: option.splits if_splits)
qed auto

lemma lookup_put_file_back:
  "put_file p d n = Some n' \<Longrightarrow> lookup_node n' q = Some (File b) \<Longrightarrow> q \<noteq> p \<Longrightarrow>
     lookup_node n q = Some (File b)"
proof (induction p d n arbitrary: n' q rule: put_file.induct)
  case (3 x d es)
  then show ?case by (cases q; cases "tl q") (auto split: option.splits node.splits if_splits)
next
  case (4 x y xs d es)
  then show ?case by (cases q) (auto split: option.splits if_splits)
qed auto

lemma lookup_rm_all: "rm_all p n = Some n' \<Longrightarrow> lookup_node n' p = None"
proof (induction p n arbitrary: n' rule: rm_all.induct)
  case (3 x es)
  have "map_of (filter (\<lambda>e. fst e \<noteq> x) es) x = None" by (auto simp: map_of_eq_None_iff)
  with 3 show ?case by auto
qed (auto split: option.splits)

text \<open>The names the walk visits below a directory are the last components of the paths in it.\<close>

lemma walk_names_set:
  "wf_node n \<Longrightarrow>
     set (walk_names nm n) = {nm} \<union> {last p | p m. p \<noteq> [] \<and> lookup_node n p = Some m}"
proof (induction nm n rule: walk_names.induct)
  case (1 nm b)
  show ?case by auto
next
  case (2 nm es)
  have sub: "set (walk_names (fst e) (snd e)) =
      {last (fst e # p) | p m. lookup_node (snd e) p = Some m}" if "e \<in> set es" for e
  proof -
    have "set (walk_names (fst e) (snd e)) =
        {fst e} \<union> {last p | p m. p \<noteq> [] \<and> lookup_node (snd e) p = Some m}"
      using 2 that by simp
    also have "\<dots> = {last (fst e # p) | p m. lookup_node (snd e) p = Some m}"
      by (auto intro: exI[of _ "[]"] split: if_splits)
    finally show ?thesis .
  qed
  have entry: "lookup_node (Dir es) (x # p) = Some m \<longleftrightarrow> (\<exists>n. (x, n) \<in> set es \<and> lookup_node n p = Some m)" for x p m
  proof -
    have "distinct (map fst es)" using 2(2) by simp
    then have "map_of es x = Some n \<longleftrightarrow> (x, n) \<in> set es" for n by (rule map_of_eq_Some_iff)
    moreover have "lookup_node (Dir es) (x # p) = Some m \<longleftrightarrow>
        (\<exists>n. map_of es x = Some n \<and> lookup_node n p = Some m)"
      by (simp split: option.split)
    ultimately show ?thesis by simp
  qed
  have "set (walk_names nm (Dir es)) =
      {nm} \<union> (\<Union>e\<in>set es. {last (fst e # p) | p m. lookup_node (snd e) p = Some m})"
    using sub by simp
  also have "(\<Union>e\<in>set es. {last (fst e # p) | p m. lookup_node (snd e) p = Some m}) =
      {last (x # p) | x p m. lookup_node (Dir es) (x # p) = Some m}"
    unfolding entry by (rule set_eqI, simp only: UN_iff mem_Collect_eq Bex_def split_paired_Ex fst_conv snd_conv, blast)
  also have "{last (x # p) | x p m. lookup_node (Dir es) (x # p) = Some m} =
      {last p | p m. p \<noteq> [] \<and> lookup_node (Dir es) p = Some m}"
    by (intro Collect_cong) (metis list.exhaust list.distinct(1))
  finally show ?case .
qed

subsection \<open>What the functions promise\<close>

text \<open>
  A file that was written is read back with the data written, and every other file is what it
  was before: a successful \<open>WriteFile\<close> changes one path only.
\<close>

lemma WriteFile_ReadFile:
  assumes "WriteFile p d w = (Ret (), w')"
  shows "ReadFile q w' = (if path_comps q = path_comps p then Some d else ReadFile q w)"
proof -
  from assms obtain n where n: "put_file (path_comps p) d (disk w) = Some n" "w' = w\<lparr>disk := n\<rparr>"
    by (auto simp: WriteFile_def split: option.splits)
  show ?thesis
  proof (cases "path_comps q = path_comps p")
    case True
    with n show ?thesis by (simp add: ReadFile_def lookup_put_file_same)
  next
    case False
    then have "lookup_node n (path_comps q) = Some (File b) \<longleftrightarrow>
        lookup_node (disk w) (path_comps q) = Some (File b)" for b
      using lookup_put_file_other[OF n(1)] lookup_put_file_back[OF n(1)] by blast
    with n(2) have "ReadFile q w' = Some b \<longleftrightarrow> ReadFile q w = Some b" for b
      by (simp add: ReadFile_eq_Some)
    with False show ?thesis
      by (metis not_None_eq)
  qed
qed

end
