(* ===== verification/Externals.thy ===== *)
theory Externals
  imports Util
begin

section \<open>The libraries and services the program calls\<close>

text \<open>
  go-git, client-go, Helm and yaml.v3 are not part of the repository: each call is a field of
  \<open>externals\<close>, an argument of every definition that makes the call. A call may change the disk and
  the outside world and ends in any of the four ways. What a property relies on is a hypothesis
  about these fields, named below.
\<close>

record 'e externals =
  \<comment> \<open>go-git\<close>
  x_hash_string :: "hash \<Rightarrow> string"
  x_plain_clone :: "string \<Rightarrow> bool \<Rightarrow> clone_options \<Rightarrow> ('e world, git_repo) comp"
  x_plain_open :: "string \<Rightarrow> ('e world, git_repo) comp"
  x_worktree :: "git_repo \<Rightarrow> ('e world, worktree) comp"
  x_checkout :: "worktree \<Rightarrow> checkout_options \<Rightarrow> ('e world, unit) comp"
  x_fetch :: "git_repo \<Rightarrow> fetch_options \<Rightarrow> ('e world, unit) comp"
  x_reference :: "git_repo \<Rightarrow> string \<Rightarrow> bool \<Rightarrow> ('e world, hash) comp"
  x_reset_sparsely :: "worktree \<Rightarrow> reset_options \<Rightarrow> string list \<Rightarrow> ('e world, unit) comp"
  x_pull :: "worktree \<Rightarrow> pull_options \<Rightarrow> ('e world, unit) comp"
  x_log :: "git_repo \<Rightarrow> (string \<Rightarrow> bool) \<Rightarrow> ('e world, commit list) comp"
  x_new_public_keys :: "string \<Rightarrow> string \<Rightarrow> string \<Rightarrow> ('e world, string \<times> string) comp"
  x_known_hosts :: "string \<Rightarrow> ('e world, host_key_callback) comp"
  \<comment> \<open>client-go\<close>
  x_kube_client :: "rest_config \<Rightarrow> ('e world, unit) comp"
  x_dynamic_client :: "rest_config \<Rightarrow> ('e world, unit) comp"
  x_secret_get :: "string \<Rightarrow> string \<Rightarrow> ('e world, string \<rightharpoonup> string) comp"
  x_ns_get :: "string \<Rightarrow> ('e world, unit) comp"
  x_ns_create :: "string \<Rightarrow> ('e world, unit) comp"
  x_server_groups :: "('e world, api_group list) comp"
  x_server_resources :: "string \<Rightarrow> ('e world, string list) comp"
  x_new_requirement :: "string \<Rightarrow> selection \<Rightarrow> string list \<Rightarrow> error + requirement"
  x_get :: "gvr \<Rightarrow> string \<Rightarrow> string \<Rightarrow> ('e world, manifest) comp"
  x_create :: "gvr \<Rightarrow> string \<Rightarrow> manifest \<Rightarrow> ('e world, unit) comp"
  x_update :: "gvr \<Rightarrow> string \<Rightarrow> manifest \<Rightarrow> ('e world, unit) comp"
  x_list :: "gvr \<Rightarrow> string \<Rightarrow> requirement list \<Rightarrow> ('e world, manifest list) comp"
  x_delete :: "gvr \<Rightarrow> string \<Rightarrow> string \<Rightarrow> ('e world, unit) comp"
  \<comment> \<open>yaml.v3: the error, or the decoded map (\<open>None\<close> for the empty map)\<close>
  x_yaml_unmarshal :: "bytes \<Rightarrow> error + manifest option"
  \<comment> \<open>Helm, and the flag \<^verbatim>\<open>-helm-debug\<close>\<close>
  x_helmDebug :: bool
  x_is_chart_dir :: "string \<Rightarrow> ('e world, unit) comp"
  x_manager_update :: "download_manager \<Rightarrow> ('e world, unit) comp"
  x_chart_load :: "string \<Rightarrow> ('e world, chart) comp"
  x_merge_values :: "helm_settings \<Rightarrow> string list \<Rightarrow> ('e world, yaml_value) comp"
  x_cfg_init :: "config_flags \<Rightarrow> string \<Rightarrow> ('e world, unit) comp"
  x_release_list :: "list_options \<Rightarrow> ('e world, release list) comp"
  x_install :: "install_options \<Rightarrow> chart option \<Rightarrow> yaml_value \<Rightarrow> ('e world, unit) comp"
  x_upgrade :: "upgrade_options \<Rightarrow> string \<Rightarrow> chart option \<Rightarrow> yaml_value \<Rightarrow> ('e world, unit) comp"
  x_uninstall :: "uninstall_options \<Rightarrow> string \<Rightarrow> ('e world, unit) comp"


definition IsNotFound :: "error \<Rightarrow> bool" where
  "IsNotFound e \<longleftrightarrow> e = K8sNotFound"

subsection \<open>Documented behaviour of a cluster\<close>

text \<open>Discovery: the API groups, and for each group version its resources or a failed call.\<close>

definition discovery :: "'e externals \<Rightarrow> api_group list \<Rightarrow> (string \<Rightarrow> string list option) \<Rightarrow> bool" where
  "discovery X groups kinds \<longleftrightarrow>
     (\<forall>w. x_server_groups X w = (Ret groups, w)) \<and>
     (\<forall>gv w. x_server_resources X gv w =
        (case kinds gv of None \<Rightarrow> (Fail (OtherError ''discovery''), w) | Some ns \<Rightarrow> (Ret ns, w)))"

definition kind_names :: "(string \<Rightarrow> string list option) \<Rightarrow> string \<Rightarrow> string list" where
  "kind_names kinds gv = (case kinds gv of None \<Rightarrow> [] | Some ns \<Rightarrow> ns)"

definition discovered :: "api_group list \<Rightarrow> (string \<Rightarrow> string list option) \<Rightarrow> gvr set" where
  "discovered groups kinds =
     {\<lparr>g_group = ag_Name ag, g_version = snd gv, g_resource = n\<rparr> | ag gv n.
        ag \<in> set groups \<and> gv \<in> set (ag_Versions ag) \<and>
        n \<in> set (kind_names kinds (fst gv))}"

text \<open>
  \<open>view w\<close> is the set of objects of the cluster, by resource, namespace and name. The API server
  gives a written object a resource version of its own; a list call returns the objects of the
  namespace whose labels satisfy every requirement, and \<open>NotEquals\<close> also selects objects
  without the key; a deleted object is gone. This describes a cluster that can be reached and refuses nothing: a
  create of a missing object and an update with the stored resource version succeed. Deletion is taken
  to be immediate: the code asks for foreground propagation, under which an object that owns others stays, marked as
  being deleted, until those are gone.
\<close>

type_synonym obj_key = "gvr \<times> string \<times> string"

fun req_matches :: "requirement \<Rightarrow> (string \<rightharpoonup> string) \<Rightarrow> bool" where
  "req_matches r ls =
     (case rq_op r of
        Equals \<Rightarrow> (case ls (rq_key r) of None \<Rightarrow> False | Some v \<Rightarrow> v \<in> set (rq_values r))
      | NotEquals \<Rightarrow> (case ls (rq_key r) of None \<Rightarrow> True | Some v \<Rightarrow> v \<notin> set (rq_values r)))"

definition sel_matches :: "requirement list \<Rightarrow> (string \<rightharpoonup> string) \<Rightarrow> bool" where
  "sel_matches sel ls \<longleftrightarrow> (\<forall>r\<in>set sel. req_matches r ls)"

definition cluster_reads :: "'e externals \<Rightarrow> ('e world \<Rightarrow> obj_key \<rightharpoonup> manifest) \<Rightarrow> bool" where
  "cluster_reads X view \<longleftrightarrow>
     (\<forall>w ts. view (w\<lparr>spawned := ts\<rparr>) = view w) \<and>
     (\<forall>w g ns n. x_get X g ns n w =
        (case view w (g, ns, n) of None \<Rightarrow> (Fail K8sNotFound, w) | Some m \<Rightarrow> (Ret m, w))) \<and>
     (\<forall>w g ns sel. \<exists>ms. x_list X g ns sel w = (Ret ms, w) \<and>
        m_name ` set ms = {n. \<exists>m. view w (g, ns, n) = Some m \<and> sel_matches sel (m_labels m)})"

definition cluster_writes :: "'e externals \<Rightarrow> ('e world \<Rightarrow> obj_key \<rightharpoonup> manifest) \<Rightarrow> bool" where
  "cluster_writes X view \<longleftrightarrow>
     (\<forall>w g ns m. view w (g, ns, m_name m) = None \<longrightarrow>
        (\<exists>w' rv. x_create X g ns m w = (Ret (), w') \<and> spawned w' = spawned w \<and> disk w' = disk w \<and>
           view w' = (view w)((g, ns, m_name m) \<mapsto> m\<lparr>m_resourceVersion := rv\<rparr>))) \<and>
     (\<forall>w g ns m m0. view w (g, ns, m_name m) = Some m0 \<longrightarrow>
        m_resourceVersion m = m_resourceVersion m0 \<longrightarrow>
        (\<exists>w' rv. x_update X g ns m w = (Ret (), w') \<and> spawned w' = spawned w \<and> disk w' = disk w \<and>
           view w' = (view w)((g, ns, m_name m) \<mapsto> m\<lparr>m_resourceVersion := rv\<rparr>))) \<and>
     (\<forall>w g ns n. \<exists>r w'. x_delete X g ns n w = (r, w') \<and> (r = Ret () \<or> (\<exists>e. r = Fail e)) \<and>
        spawned w' = spawned w \<and> disk w' = disk w \<and> view w' = (view w)((g, ns, n) := None))"

text \<open>\<^verbatim>\<open>labels.NewRequirement\<close> accepts a value that is a valid label value.\<close>

definition accepts_label :: "'e externals \<Rightarrow> string \<Rightarrow> bool" where
  "accepts_label X v \<longleftrightarrow>
     (\<forall>k sel. x_new_requirement X k sel [v] = Inr \<lparr>rq_key = k, rq_op = sel, rq_values = [v]\<rparr>)"

end
