(* ===== verification/RawProvider.thy ===== *)
theory RawProvider
  imports Externals
begin

section \<open>Delivery of raw Kubernetes resources\<close>

text \<open>
  \<^verbatim>\<open>server/pkg/provider/raw.go\<close>. The revision is a pointer to the application's
  \<^verbatim>\<open>CurrentRevision\<close>: the operations take the value it has when they read it. Goroutines: the
  resource goroutines of \<^verbatim>\<open>Delivery\<close> are awaited and run here in list order;
  \<open>rp_cleanups\<close> counts the cleanup goroutines that \<^verbatim>\<open>Delivery\<close> started and that have not
  finished; the deletion goroutines of \<^verbatim>\<open>cleanResources\<close>, which nobody awaits, go to
  \<open>spawned\<close> of the world.
\<close>

record resource =
  r_group :: string
  r_version :: string
  r_resource :: string
  r_filePath :: string
  r_obj :: manifest

record raw_provider =
  rp_appName :: string
  rp_resourcePath :: string
  rp_namespace :: string
  rp_resources :: "resource list"
  rp_labels :: "string \<rightharpoonup> string"
  rp_mutex :: mutex
  rp_cleanups :: nat

definition app_label :: string where
  "app_label = ''dummy.cd/app''"

definition revision_label :: string where
  "revision_label = ''dummy.cd/revision''"

lemma labels_distinct [simp]: "app_label \<noteq> revision_label" "revision_label \<noteq> app_label"
  by (simp_all add: app_label_def revision_label_def)

subsection \<open>Reading resource files\<close>

definition group_version :: "string \<Rightarrow> string \<times> string" where
  "group_version apiVersion =
     (let apiVersionTokens = split_on slash apiVersion
      in if length apiVersionTokens = 1 then ([], apiVersionTokens ! 0)
         else (apiVersionTokens ! 0, apiVersionTokens ! 1))"

text \<open>A nil result (\<open>None\<close>) is logged and skipped; a file that cannot be read is a nil pointer that the code dereferences.\<close>

definition NewUnstructuredResource ::
    "'e externals \<Rightarrow> string \<Rightarrow> ('e world, resource option) comp" where
  "NewUnstructuredResource X path w =
     (case ReadFile path w of
        None \<Rightarrow> (Panic NilDereference, w)
      | Some file \<Rightarrow>
          (case x_yaml_unmarshal X file of
             Inl err \<Rightarrow> (Ret None, w)
           | Inr None \<Rightarrow> (Ret None, w)
           | Inr (Some obj) \<Rightarrow>
               (case group_version (m_apiVersion obj) of (grp, ver) \<Rightarrow>
                  (Ret (Some \<lparr>r_group = grp, r_version = ver,
                              r_resource = ToLower (m_kind obj @ ''s''),
                              r_filePath = path, r_obj = obj\<rparr>), w))))"

fun NewUnstructuredResources ::
    "'e externals \<Rightarrow> string list \<Rightarrow> ('e world, resource list) comp" where
  "NewUnstructuredResources X [] = ret []"
| "NewUnstructuredResources X (path # files) =
     andthen (NewUnstructuredResource X path) (\<lambda>resource.
     andthen (NewUnstructuredResources X files) (\<lambda>resources.
       ret (case resource of None \<Rightarrow> resources | Some r \<Rightarrow> r # resources)))"

definition getResourceFiles :: "string \<Rightarrow> ('e world, string list) comp" where
  "getResourceFiles resourcePath w =
     (Ret (GetFilesFullPath resourcePath (FindFilesWithRegex resourcePath (Some yaml_regex) w)), w)"

subsection \<open>Construction\<close>

definition NewRawProvider ::
    "'e externals \<Rightarrow> rest_config \<Rightarrow> string \<Rightarrow> string \<Rightarrow> string \<Rightarrow> ('e world, raw_provider) comp" where
  "NewRawProvider X restKubeConfig appName resourcePath namespace =
     (let ns = (if length namespace = 0 then ''default'' else namespace) in
      andthen (x_kube_client X restKubeConfig) (\<lambda>_.
      andthen (attempt (x_ns_get X ns)) (\<lambda>got.
      andthen (case got of
                 Inl err \<Rightarrow> if IsNotFound err then x_ns_create X ns else failc err
               | Inr _ \<Rightarrow> ret ()) (\<lambda>_.
      andthen (x_dynamic_client X restKubeConfig) (\<lambda>_.
      andthen (getResourceFiles resourcePath) (\<lambda>resourceFiles.
      if length resourceFiles = 0 then failc (NewError ''no one resource file found'')
      else
        andthen (NewUnstructuredResources X resourceFiles) (\<lambda>resources.
          ret \<lparr>rp_appName = appName, rp_resourcePath = resourcePath, rp_namespace = ns,
               rp_resources = resources, rp_labels = [app_label \<mapsto> appName],
               rp_mutex = False, rp_cleanups = 0\<rparr>)))))))"

subsection \<open>Cleaning up\<close>

text \<open>\<^verbatim>\<open>defer r.mutex.Unlock()\<close>: runs when the function returns, fails or panics.\<close>

definition defer_unlock :: "(raw_provider \<times> 'w, 'a) comp \<Rightarrow> (raw_provider \<times> 'w, 'a) comp" where
  "defer_unlock m s =
     (case m s of
        (Spin, s') \<Rightarrow> (Spin, s')
      | (r, (p, w)) \<Rightarrow>
          (case Unlock (rp_mutex p) of
             (Ret _, m') \<Rightarrow> (r, (p\<lparr>rp_mutex := m'\<rparr>, w))
           | (_, m') \<Rightarrow> (Panic UnlockOfUnlockedMutex, (p\<lparr>rp_mutex := m'\<rparr>, w))))"

definition cleanup_selector ::
    "'e externals \<Rightarrow> bool \<Rightarrow> string \<Rightarrow> hash \<Rightarrow> error + requirement list" where
  "cleanup_selector X cleanAll appName revision =
     (case x_new_requirement X app_label Equals [appName] of
        Inl err \<Rightarrow> Inl err
      | Inr labelAppNameRequirement \<Rightarrow>
          if cleanAll then Inr [labelAppNameRequirement]
          else
            (case x_new_requirement X revision_label NotEquals [x_hash_string X revision] of
               Inl err \<Rightarrow> Inl err
             | Inr labelAppRevisionRequirement \<Rightarrow>
                 Inr [labelAppNameRequirement, labelAppRevisionRequirement]))"

text \<open>The goroutines for one group version: none where the discovery call fails.\<close>

definition version_tasks ::
    "'e externals \<Rightarrow> string \<Rightarrow> requirement list \<Rightarrow> string \<Rightarrow> string \<times> string \<Rightarrow> ('e world, clean_task list) comp" where
  "version_tasks X ns sel groupName gv =
     andthen (attempt (x_server_resources X (fst gv))) (\<lambda>res.
       ret (case res of
              Inl err \<Rightarrow> []
            | Inr apiResources \<Rightarrow>
                map (\<lambda>name. \<lparr>ct_gvr = \<lparr>g_group = groupName, g_version = snd gv, g_resource = name\<rparr>,
                              ct_namespace = ns, ct_selector = sel\<rparr>) apiResources))"

definition group_tasks ::
    "'e externals \<Rightarrow> string \<Rightarrow> requirement list \<Rightarrow> api_group list \<Rightarrow> ('e world, clean_task list) comp" where
  "group_tasks X ns sel groups =
     andthen (map_each (\<lambda>(g, gv). version_tasks X ns sel g gv)
                (concat (map (\<lambda>ag. map (Pair (ag_Name ag)) (ag_Versions ag)) groups))) (\<lambda>tss.
       ret (concat tss))"

definition spawn_tasks :: "clean_task list \<Rightarrow> ('e world, unit) comp" where
  "spawn_tasks ts = modify (\<lambda>w. w\<lparr>spawned := spawned w @ ts\<rparr>)"

definition clean_body ::
    "'e externals \<Rightarrow> bool \<Rightarrow> hash \<Rightarrow> (raw_provider \<times> 'e world, unit) comp" where
  "clean_body X cleanAll revision =
     (if IsZero revision then ret ()
      else
        andthen (on_world (x_server_groups X)) (\<lambda>groups.
        andthen (gets fst) (\<lambda>p.
          (case cleanup_selector X cleanAll (rp_appName p) revision of
             Inl err \<Rightarrow> failc err
           | Inr sel \<Rightarrow>
               on_world (andthen (group_tasks X (rp_namespace p) sel groups) spawn_tasks)))))"

definition cleanResources ::
    "'e externals \<Rightarrow> bool \<Rightarrow> hash \<Rightarrow> (raw_provider \<times> 'e world, unit) comp" where
  "cleanResources X cleanAll revision = defer_unlock (clean_body X cleanAll revision)"

text \<open>One deletion goroutine: an error of the list call ends it, an error of a delete call is logged.\<close>

definition run_clean_task :: "'e externals \<Rightarrow> clean_task \<Rightarrow> ('e world, unit) comp" where
  "run_clean_task X t =
     andthen (attempt (x_list X (ct_gvr t) (ct_namespace t) (ct_selector t))) (\<lambda>res.
       (case res of
          Inl err \<Rightarrow> ret ()
        | Inr items \<Rightarrow>
            for_each (\<lambda>remoteResource.
                andthen (attempt (x_delete X (ct_gvr t) (ct_namespace t) (m_name remoteResource)))
                  (\<lambda>_. ret ())) items))"

subsection \<open>Delivery and Uninstall\<close>

definition resource_gvr :: "resource \<Rightarrow> gvr" where
  "resource_gvr r = \<lparr>g_group = r_group r, g_version = r_version r, g_resource = r_resource r\<rparr>"

text \<open>
  \<^verbatim>\<open>Resource.Delivery\<close>: the object's labels are replaced before the result of \<^verbatim>\<open>Get\<close> is
  looked at; an object without the revision label is left alone.
\<close>

definition resource_Delivery ::
    "'e externals \<Rightarrow> (string \<rightharpoonup> string) \<Rightarrow> string \<Rightarrow> (resource \<times> 'e world, unit) comp" where
  "resource_Delivery X labels ns =
     andthen (gets fst) (\<lambda>r0. let g = resource_gvr r0 in
     andthen (on_world (attempt (x_get X g ns (m_name (r_obj r0))))) (\<lambda>got.
     andthen (on_obj (modify (\<lambda>r. r\<lparr>r_obj := (r_obj r)\<lparr>m_labels := labels\<rparr>\<rparr>))) (\<lambda>_.
       (case got of
          Inl err \<Rightarrow>
            if IsNotFound err then
              andthen (gets (\<lambda>(r, w). r_obj r)) (\<lambda>ob.
              andthen (on_world (attempt (x_create X g ns ob))) (\<lambda>_. ret ()))
            else ret ()
        | Inr remoteResource \<Rightarrow>
            if m_labels remoteResource revision_label = None then ret ()
            else if map_get labels revision_label \<noteq> map_get (m_labels remoteResource) revision_label then
              andthen (on_obj (modify (\<lambda>r. r\<lparr>r_obj :=
                  (r_obj r)\<lparr>m_resourceVersion := m_resourceVersion remoteResource\<rparr>\<rparr>))) (\<lambda>_.
              andthen (gets (\<lambda>(r, w). r_obj r)) (\<lambda>ob.
              andthen (on_world (attempt (x_update X g ns ob))) (\<lambda>_. ret ())))
            else ret ()))))"

text \<open>Run the method of an object and give the object back.\<close>

definition object_after :: "('o \<times> 'w, unit) comp \<Rightarrow> 'o \<Rightarrow> ('w, 'o) comp" where
  "object_after m ob w =
     (case m (ob, w) of
        (Ret _, (ob', w')) \<Rightarrow> (Ret ob', w')
      | (Fail e, (ob', w')) \<Rightarrow> (Fail e, w')
      | (Panic q, (ob', w')) \<Rightarrow> (Panic q, w')
      | (Spin, (ob', w')) \<Rightarrow> (Spin, w'))"

definition deliver_resources ::
    "'e externals \<Rightarrow> (string \<rightharpoonup> string) \<Rightarrow> string \<Rightarrow> resource list \<Rightarrow> ('e world, resource list) comp" where
  "deliver_resources X labels ns = map_each (object_after (resource_Delivery X labels ns))"

definition raw_Delivery :: "'e externals \<Rightarrow> hash \<Rightarrow> (raw_provider \<times> 'e world, unit) comp" where
  "raw_Delivery X revision =
     andthen (gets fst) (\<lambda>p.
     andthen (if rp_labels p revision_label = None then ret ()
              else
                andthen (on_world (andthen (getResourceFiles (rp_resourcePath p)) (NewUnstructuredResources X)))
                  (\<lambda>rs. on_obj (modify (\<lambda>p. p\<lparr>rp_resources := rs\<rparr>)))) (\<lambda>_.
     andthen (on_obj (modify (\<lambda>p. p\<lparr>rp_labels := (rp_labels p)(revision_label \<mapsto> x_hash_string X revision)\<rparr>))) (\<lambda>_.
     andthen (gets fst) (\<lambda>p.
     andthen (on_world (deliver_resources X (rp_labels p) (rp_namespace p) (rp_resources p))) (\<lambda>rs.
     andthen (on_obj (modify (\<lambda>p. p\<lparr>rp_resources := rs\<rparr>))) (\<lambda>_.
       on_obj (modify (\<lambda>p.
         (case TryLock (rp_mutex p) of
            (True, m') \<Rightarrow> p\<lparr>rp_mutex := m', rp_cleanups := Suc (rp_cleanups p)\<rparr>
          | (False, m') \<Rightarrow> p\<lparr>rp_mutex := m'\<rparr>)))))))))"

text \<open>The goroutine \<^verbatim>\<open>Delivery\<close> starts: \<open>revision\<close> is what the revision pointer holds when it runs; its error is logged.\<close>

definition cleanup_goroutine :: "'e externals \<Rightarrow> hash \<Rightarrow> (raw_provider \<times> 'e world, unit) comp" where
  "cleanup_goroutine X revision =
     andthen (attempt (cleanResources X False revision)) (\<lambda>_.
       on_obj (modify (\<lambda>p. p\<lparr>rp_cleanups := rp_cleanups p - 1\<rparr>)))"

definition raw_lock :: "(raw_provider, unit) comp" where
  "raw_lock p = (case spin_lock (rp_mutex p) of (r, m') \<Rightarrow> (r, p\<lparr>rp_mutex := m'\<rparr>))"

definition raw_Uninstall :: "'e externals \<Rightarrow> hash \<Rightarrow> (raw_provider \<times> 'e world, unit) comp" where
  "raw_Uninstall X revision = andthen (on_obj raw_lock) (\<lambda>_. cleanResources X True revision)"

end
