(* ===== verification/RawProofs.thy ===== *)
theory RawProofs
  imports RawProvider
begin

section \<open>Correctness of the raw provider\<close>

text \<open>
  The invariant of a provider and its mutex, what one delivery does to a cluster, what the cleanup
  deletes, and how the resource files of an application are found.
\<close>

subsection \<open>Group, version and resource files\<close>

lemma group_version_core: "slash \<notin> set v \<Longrightarrow> group_version v = ([], v)"
  by (simp add: group_version_def)

lemma group_version_named:
  "slash \<notin> set g \<Longrightarrow> slash \<notin> set v \<Longrightarrow> group_version (g @ slash # v) = (g, v)"
  by (simp add: group_version_def split_on_append)

lemma NewUnstructuredResource_world: "snd (NewUnstructuredResource X path w) = w"
  by (simp add: NewUnstructuredResource_def split: option.split sum.split prod.split)

lemma NewUnstructuredResource_outcome:
  "fst (NewUnstructuredResource X path w) =
     (case ReadFile path w of
        None \<Rightarrow> Panic NilDereference
      | Some file \<Rightarrow> fst (NewUnstructuredResource X path w))"
  "ReadFile path w = Some file \<Longrightarrow> \<exists>r. NewUnstructuredResource X path w = (Ret r, w)"
  by (auto simp: NewUnstructuredResource_def split: option.split sum.split prod.split)

lemma NewUnstructuredResources_readable:
  "(\<forall>f\<in>set files. ReadFile f w \<noteq> None) \<Longrightarrow> \<exists>rs. NewUnstructuredResources X files w = (Ret rs, w)"
proof (induction files)
  case (Cons f files)
  then obtain rs where rs: "NewUnstructuredResources X files w = (Ret rs, w)" by auto
  from Cons.prems obtain b where "ReadFile f w = Some b" by auto
  then obtain r where "NewUnstructuredResource X f w = (Ret r, w)"
    using NewUnstructuredResource_outcome(2) by blast
  with rs show ?case by simp
qed simp

lemma NewUnstructuredResources_unreadable:
  "(\<exists>f\<in>set files. ReadFile f w = None) \<Longrightarrow>
     NewUnstructuredResources X files w = (Panic NilDereference, w)"
proof (induction files)
  case (Cons f files)
  show ?case
  proof (cases "ReadFile f w")
    case None
    then show ?thesis by (simp add: NewUnstructuredResource_def)
  next
    case (Some b)
    then obtain r where "NewUnstructuredResource X f w = (Ret r, w)"
      using NewUnstructuredResource_outcome(2) by blast
    with Cons Some show ?thesis by simp
  qed
qed simp

subsection \<open>The invariant of a provider\<close>

definition raw_ok :: "raw_provider \<Rightarrow> bool" where
  "raw_ok p \<longleftrightarrow>
     rp_labels p app_label = Some (rp_appName p) \<and>
     (\<forall>k. k \<noteq> app_label \<longrightarrow> k \<noteq> revision_label \<longrightarrow> rp_labels p k = None) \<and>
     rp_namespace p \<noteq> [] \<and>
     rp_cleanups p \<le> 1 \<and> (rp_mutex p \<longleftrightarrow> rp_cleanups p = 1)"

lemma raw_ok_resources [simp]: "raw_ok (p\<lparr>rp_resources := rs\<rparr>) = raw_ok p"
  by (simp add: raw_ok_def)

lemma raw_ok_revision: "raw_ok p \<Longrightarrow> raw_ok (p\<lparr>rp_labels := (rp_labels p)(revision_label \<mapsto> v)\<rparr>)"
  by (auto simp: raw_ok_def)

lemma NewRawProvider_ok:
  assumes "NewRawProvider X K appName resourcePath namespace w = (Ret p, w')"
  shows "raw_ok p" and "rp_appName p = appName" and "\<not> rp_mutex p"
    and "rp_namespace p = (if namespace = [] then ''default'' else namespace)"
    and "rp_labels p revision_label = None"
  using assms
  by (auto simp: NewRawProvider_def Let_def comp_inv raw_ok_def split: if_splits sum.splits)

lemma keeps_obj_modify: "(\<And>p. P p \<Longrightarrow> P (h p)) \<Longrightarrow> keeps (\<lambda>(p, w). P p) (on_obj (modify h))"
  by (intro keeps_on_obj keeps_modify)

lemma raw_Delivery_keeps:
  "keeps (\<lambda>(p, w). raw_ok p \<and> rp_appName p = n \<and> rp_namespace p = ns) (raw_Delivery X revision)"
  unfolding raw_Delivery_def
  by (intro keeps_intros keeps_obj_modify) (auto simp: raw_ok_revision TryLock_def raw_ok_def split: if_splits)

text \<open>The body of \<open>cleanResources\<close> does not write the provider; the deferred call unlocks it.\<close>

lemma cleanResources_obj:
  assumes "cleanResources X cleanAll revision (p, w) = (r, (p', w'))" and "rp_mutex p"
  shows "p' = (if r = Spin then p else p\<lparr>rp_mutex := False\<rparr>)"
proof -
  have "keeps (\<lambda>(q, w). q = p) (clean_body X cleanAll revision)"
    unfolding clean_body_def by (intro keeps_intros)
  moreover obtain r0 q0 w0 where b: "clean_body X cleanAll revision (p, w) = (r0, (q0, w0))"
    by (metis prod.exhaust)
  ultimately have "q0 = p" using keepsD_eq[of _ _ "(p, w)" r0 "(q0, w0)"] by auto
  with assms b show ?thesis
    unfolding cleanResources_def defer_unlock_def by (auto split: res.splits)
qed

lemma cleanup_goroutine_ok:
  assumes "raw_ok p" and "rp_cleanups p = 1" and "cleanup_goroutine X revision (p, w) = (r, (p', w'))"
    and "\<And>q. r \<noteq> Panic q"
  shows "raw_ok p'"
proof -
  obtain r0 p0 w0 where c: "cleanResources X False revision (p, w) = (r0, (p0, w0))"
    by (metis prod.exhaust)
  have "rp_mutex p" using assms(1,2) by (simp add: raw_ok_def)
  with cleanResources_obj[OF c] have p0: "p0 = (if r0 = Spin then p else p\<lparr>rp_mutex := False\<rparr>)" .
  show ?thesis
    using assms c p0
    by (cases r0) (auto simp: cleanup_goroutine_def raw_ok_def)
qed

lemma cleanup_goroutine_names:
  assumes "cleanup_goroutine X h (p, w) = (r, (p', w'))" and "rp_mutex p" and "returns r"
  shows "rp_appName p' = rp_appName p" "rp_namespace p' = rp_namespace p"
proof -
  obtain r0 p0 w0 where c: "cleanResources X False h (p, w) = (r0, (p0, w0))" by (metis prod.exhaust)
  have "rp_appName p0 = rp_appName p \<and> rp_namespace p0 = rp_namespace p"
    using cleanResources_obj[OF c assms(2)] by simp
  moreover have "r0 \<noteq> Spin \<and> p' = p0\<lparr>rp_cleanups := rp_cleanups p0 - 1\<rparr>"
    using assms(1,3) c by (cases r0) (simp_all add: cleanup_goroutine_def, auto)
  ultimately show "rp_appName p' = rp_appName p" "rp_namespace p' = rp_namespace p" by simp_all
qed

lemma raw_Uninstall_ok:
  assumes "raw_ok p" and "raw_Uninstall X revision (p, w) = (r, (p', w'))"
    and "r \<noteq> Spin" and "\<And>q. r \<noteq> Panic q"
  shows "p' = p" and "\<not> rp_mutex p"
proof -
  have free: "\<not> rp_mutex p"
    using assms(2,3) by (cases "rp_mutex p") (auto simp: raw_Uninstall_def raw_lock_def)
  have "cleanResources X True revision (p\<lparr>rp_mutex := True\<rparr>, w) = (r, (p', w'))"
    using assms(2) free by (simp add: raw_Uninstall_def raw_lock_def)
  from cleanResources_obj[OF this] have "p' = p\<lparr>rp_mutex := False\<rparr>"
    using assms(3) by simp
  then show "p' = p" using free by simp
  show "\<not> rp_mutex p" by (rule free)
qed

subsection \<open>What one delivery does to a cluster\<close>

text \<open>
  The specification of one object: it is created where it is missing, replaced where it carries
  another revision, and left alone where it carries this revision or no revision label at all.
\<close>

definition delivered ::
    "(string \<rightharpoonup> string) \<Rightarrow> manifest \<Rightarrow> manifest option \<Rightarrow> manifest option \<Rightarrow> bool" where
  "delivered ls ob before after \<longleftrightarrow>
     (case before of
        None \<Rightarrow> (\<exists>rv. after = Some (ob\<lparr>m_labels := ls, m_resourceVersion := rv\<rparr>))
      | Some m \<Rightarrow>
          if m_labels m revision_label = None \<or> m_labels m revision_label = ls revision_label
          then after = before
          else (\<exists>rv. after = Some (ob\<lparr>m_labels := ls, m_resourceVersion := rv\<rparr>)))"

definition resource_key :: "string \<Rightarrow> resource \<Rightarrow> obj_key" where
  "resource_key ns r = (resource_gvr r, ns, m_name (r_obj r))"

lemma cluster_get:
  "cluster_reads X view \<Longrightarrow>
     x_get X g ns n w = (case view w (g, ns, n) of None \<Rightarrow> (Fail K8sNotFound, w) | Some m \<Rightarrow> (Ret m, w))"
  unfolding cluster_reads_def by blast

lemma cluster_create:
  assumes "cluster_writes X view" and "view w (g, ns, m_name m) = None"
  obtains w' rv where "x_create X g ns m w = (Ret (), w')" "spawned w' = spawned w" "disk w' = disk w"
    "view w' = (view w)((g, ns, m_name m) \<mapsto> m\<lparr>m_resourceVersion := rv\<rparr>)"
  using assms unfolding cluster_writes_def by blast

lemma cluster_update:
  assumes "cluster_writes X view" and "view w (g, ns, m_name m) = Some m0"
    and "m_resourceVersion m = m_resourceVersion m0"
  obtains w' rv where "x_update X g ns m w = (Ret (), w')" "spawned w' = spawned w" "disk w' = disk w"
    "view w' = (view w)((g, ns, m_name m) \<mapsto> m\<lparr>m_resourceVersion := rv\<rparr>)"
  using assms unfolding cluster_writes_def by blast

text \<open>The two branches that change the cluster: an object that is not there, and one of another revision.\<close>

lemma resource_Delivery_creates:
  assumes X: "cluster_reads X view" "cluster_writes X view" and none: "view w (resource_key ns r) = None"
  obtains w' rv where
    "resource_Delivery X ls ns (r, w) = (Ret (), (r\<lparr>r_obj := (r_obj r)\<lparr>m_labels := ls\<rparr>\<rparr>, w'))"
    "spawned w' = spawned w" "disk w' = disk w"
    "view w' = (view w)(resource_key ns r \<mapsto> (r_obj r)\<lparr>m_labels := ls, m_resourceVersion := rv\<rparr>)"
proof -
  define ob where "ob = (r_obj r)\<lparr>m_labels := ls\<rparr>"
  have name: "m_name ob = m_name (r_obj r)" by (simp add: ob_def)
  have "view w (resource_gvr r, ns, m_name ob) = None" using none by (simp add: resource_key_def name)
  from cluster_create[OF X(2) this] obtain w' rv where c:
    "x_create X (resource_gvr r) ns ob w = (Ret (), w')" "spawned w' = spawned w" "disk w' = disk w"
    "view w' = (view w)((resource_gvr r, ns, m_name ob) \<mapsto> ob\<lparr>m_resourceVersion := rv\<rparr>)" .
  have "resource_Delivery X ls ns (r, w) = (Ret (), (r\<lparr>r_obj := ob\<rparr>, w'))"
    using c(1) none
    by (simp add: resource_Delivery_def cluster_get[OF X(1)] resource_key_def IsNotFound_def Let_def ob_def)
  then show thesis using that c(2-4) name by (simp add: resource_key_def ob_def)
qed

lemma resource_Delivery_updates:
  assumes X: "cluster_reads X view" "cluster_writes X view" and ls: "ls revision_label = Some v"
    and found: "view w (resource_key ns r) = Some m"
    and stale: "m_labels m revision_label \<noteq> None" "m_labels m revision_label \<noteq> Some v"
  obtains w' rv where "resource_Delivery X ls ns (r, w) =
      (Ret (), (r\<lparr>r_obj := (r_obj r)\<lparr>m_labels := ls, m_resourceVersion := m_resourceVersion m\<rparr>\<rparr>, w'))"
    "spawned w' = spawned w" "disk w' = disk w"
    "view w' = (view w)(resource_key ns r \<mapsto> (r_obj r)\<lparr>m_labels := ls, m_resourceVersion := rv\<rparr>)"
proof -
  define ob where "ob = (r_obj r)\<lparr>m_labels := ls, m_resourceVersion := m_resourceVersion m\<rparr>"
  have name: "m_name ob = m_name (r_obj r)" by (simp add: ob_def)
  have "view w (resource_gvr r, ns, m_name ob) = Some m" using found by (simp add: resource_key_def name)
  moreover have "m_resourceVersion ob = m_resourceVersion m" by (simp add: ob_def)
  ultimately obtain w' rv where u: "x_update X (resource_gvr r) ns ob w = (Ret (), w')"
    "spawned w' = spawned w" "disk w' = disk w"
    "view w' = (view w)((resource_gvr r, ns, m_name ob) \<mapsto> ob\<lparr>m_resourceVersion := rv\<rparr>)"
    by (rule cluster_update[OF X(2)])
  have "x_get X (resource_gvr r) ns (m_name (r_obj r)) w = (Ret m, w)"
    using found by (simp add: cluster_get[OF X(1)] resource_key_def)
  then have "resource_Delivery X ls ns (r, w) = (Ret (), (r\<lparr>r_obj := ob\<rparr>, w'))"
    using u(1) stale ls by (auto simp: resource_Delivery_def ob_def Let_def)
  then show thesis using that u(2-4) name by (simp add: resource_key_def ob_def)
qed

lemma resource_Delivery_spec:
  assumes X: "cluster_reads X view" "cluster_writes X view" and ls: "ls revision_label = Some v"
  shows "\<exists>r' w'. resource_Delivery X ls ns (r, w) = (Ret (), (r', w')) \<and>
    spawned w' = spawned w \<and> disk w' = disk w \<and> resource_key ns r' = resource_key ns r \<and>
    (\<forall>k. k \<noteq> resource_key ns r \<longrightarrow> view w' k = view w k) \<and>
    delivered ls (r_obj r) (view w (resource_key ns r)) (view w' (resource_key ns r))"
proof (cases "view w (resource_key ns r)")
  case None
  obtain w' rv where w: "resource_Delivery X ls ns (r, w) = (Ret (), (r\<lparr>r_obj := (r_obj r)\<lparr>m_labels := ls\<rparr>\<rparr>, w'))"
    "spawned w' = spawned w" "disk w' = disk w"
    "view w' = (view w)(resource_key ns r \<mapsto> (r_obj r)\<lparr>m_labels := ls, m_resourceVersion := rv\<rparr>)"
    by (rule resource_Delivery_creates[OF X None, of ls])
  then show ?thesis using None by (auto simp: resource_key_def resource_gvr_def delivered_def)
next
  case (Some m)
  then have get: "x_get X (resource_gvr r) ns (m_name (r_obj r)) w = (Ret m, w)"
    by (simp add: cluster_get[OF X(1)] resource_key_def)
  show ?thesis
  proof (cases "m_labels m revision_label = None \<or> m_labels m revision_label = Some v")
    case True
    then have "resource_Delivery X ls ns (r, w) = (Ret (), (r\<lparr>r_obj := (r_obj r)\<lparr>m_labels := ls\<rparr>\<rparr>, w))"
      using get ls by (auto simp: resource_Delivery_def Let_def)
    then show ?thesis
      using True Some ls by (auto simp: resource_key_def resource_gvr_def delivered_def)
  next
    case False
    then obtain w' rv where w: "resource_Delivery X ls ns (r, w) =
        (Ret (), (r\<lparr>r_obj := (r_obj r)\<lparr>m_labels := ls, m_resourceVersion := m_resourceVersion m\<rparr>\<rparr>, w'))"
      "spawned w' = spawned w" "disk w' = disk w"
      "view w' = (view w)(resource_key ns r \<mapsto> (r_obj r)\<lparr>m_labels := ls, m_resourceVersion := rv\<rparr>)"
      using resource_Delivery_updates[where view = view and ls = ls, OF X ls Some] by auto
    then show ?thesis using False Some ls by (auto simp: resource_key_def resource_gvr_def delivered_def)
  qed
qed

lemma deliver_resources_spec:
  assumes X: "cluster_reads X view" "cluster_writes X view" and ls: "ls revision_label = Some v"
    and "distinct (map (resource_key ns) rs)"
  shows "\<exists>rs' w'. deliver_resources X ls ns rs w = (Ret rs', w') \<and>
    spawned w' = spawned w \<and> disk w' = disk w \<and>
    (\<forall>k. k \<notin> resource_key ns ` set rs \<longrightarrow> view w' k = view w k) \<and>
    (\<forall>r\<in>set rs. delivered ls (r_obj r) (view w (resource_key ns r)) (view w' (resource_key ns r)))"
  using assms(4)
proof (induction rs arbitrary: w)
  case Nil
  show ?case by (auto simp: deliver_resources_def)
next
  case (Cons r rs)
  from resource_Delivery_spec[where ns = ns and r = r and w = w and ls = ls and v = v, OF X ls] obtain r' w1 where d:
    "resource_Delivery X ls ns (r, w) = (Ret (), (r', w1))" "spawned w1 = spawned w" "disk w1 = disk w"
    "\<forall>k. k \<noteq> resource_key ns r \<longrightarrow> view w1 k = view w k"
    "delivered ls (r_obj r) (view w (resource_key ns r)) (view w1 (resource_key ns r))"
    by blast
  from Cons.IH[of w1] Cons.prems obtain rs' w2 where i:
    "deliver_resources X ls ns rs w1 = (Ret rs', w2)" "spawned w2 = spawned w1" "disk w2 = disk w1"
    "\<forall>k. k \<notin> resource_key ns ` set rs \<longrightarrow> view w2 k = view w1 k"
    "\<forall>r\<in>set rs. delivered ls (r_obj r) (view w1 (resource_key ns r)) (view w2 (resource_key ns r))"
    by auto
  have fresh: "resource_key ns r \<notin> resource_key ns ` set rs" using Cons.prems by simp
  have "deliver_resources X ls ns (r # rs) w = (Ret (r' # rs'), w2)"
    using d(1) i(1) by (simp add: deliver_resources_def object_after_def)
  moreover have "\<forall>k. k \<notin> resource_key ns ` set (r # rs) \<longrightarrow> view w2 k = view w k"
    using d(4) i(4) by simp
  moreover have "delivered ls (r_obj s) (view w (resource_key ns s)) (view w2 (resource_key ns s))"
    if "s \<in> set (r # rs)" for s
  proof (cases "s = r")
    case True
    moreover have "view w2 (resource_key ns r) = view w1 (resource_key ns r)" using i(4) fresh by blast
    ultimately show ?thesis using d(5) by simp
  next
    case False
    then have s: "s \<in> set rs" using that by simp
    then have "resource_key ns s \<noteq> resource_key ns r" using fresh by (metis image_eqI)
    then have "view w1 (resource_key ns s) = view w (resource_key ns s)" using d(4) by blast
    then show ?thesis using i(5) s by metis
  qed
  ultimately show ?case using d(2,3) i(2,3) by auto
qed

text \<open>Objects that carry the revision already: a second delivery of it changes nothing.\<close>

lemma delivered_same: "delivered ls ob b a \<Longrightarrow> a = Some m \<Longrightarrow> m_labels m revision_label = ls revision_label \<or> b = a"
  by (auto simp: delivered_def split: option.splits if_splits)

lemma delivered_again:
  assumes "delivered ls ob before after" and "delivered ls ob after final" and "ls revision_label = Some v"
  shows "final = after"
  using assms by (auto simp: delivered_def split: option.splits if_splits)

text \<open>The resources a delivery works on: those of the construction first, then the files read anew.\<close>

definition delivery_resources :: "'e externals \<Rightarrow> raw_provider \<Rightarrow> 'e world \<Rightarrow> resource list res" where
  "delivery_resources X p w =
     (if rp_labels p revision_label = None then Ret (rp_resources p)
      else fst (NewUnstructuredResources X
             (GetFilesFullPath (rp_resourcePath p)
               (FindFilesWithRegex (rp_resourcePath p) (Some yaml_regex) w)) w))"

lemma NewUnstructuredResources_world: "snd (NewUnstructuredResources X files w) = w"
  using NewUnstructuredResources_readable[of files w X] NewUnstructuredResources_unreadable[of files w X]
  by (cases "\<exists>f\<in>set files. ReadFile f w = None") auto

lemma NewUnstructuredResources_disk:
  "disk w = disk v \<Longrightarrow> fst (NewUnstructuredResources X files w) = fst (NewUnstructuredResources X files v)"
proof (induction files)
  case (Cons f files)
  have w: "snd (NewUnstructuredResource X f u) = u" "snd (NewUnstructuredResources X files u) = u" for u :: "'a world"
    by (simp_all add: NewUnstructuredResource_world NewUnstructuredResources_world)
  have f: "fst (NewUnstructuredResource X f w) = fst (NewUnstructuredResource X f v)"
    using Cons.prems by (simp add: NewUnstructuredResource_def ReadFile_def split: option.split sum.split prod.split)
  obtain r where r: "NewUnstructuredResource X f w = (r, w)" "NewUnstructuredResource X f v = (r, v)"
    using f w(1) by (metis prod.collapse)
  obtain rs where rs: "NewUnstructuredResources X files w = (rs, w)" "NewUnstructuredResources X files v = (rs, v)"
    using Cons.IH[OF Cons.prems] w(2) by (metis prod.collapse)
  show ?case by (cases r; cases rs) (simp_all add: andthen_def r rs)
qed simp

lemma delivery_resources_again:
  assumes "delivery_resources X p w = Ret rs" and "rp_labels p revision_label \<noteq> None"
    and "rp_labels p' revision_label \<noteq> None" "rp_resourcePath p' = rp_resourcePath p" "disk w' = disk w"
  shows "delivery_resources X p' w' = Ret rs"
  using assms NewUnstructuredResources_disk[OF assms(5)]
  by (auto simp: delivery_resources_def FindFilesWithRegex_def split: if_splits)

lemma raw_Delivery_run:
  assumes "delivery_resources X p w = Ret rs"
    and "deliver_resources X ((rp_labels p)(revision_label \<mapsto> x_hash_string X revision)) (rp_namespace p) rs w =
      (Ret rs', w')"
  shows "\<exists>p'. raw_Delivery X revision (p, w) = (Ret (), (p', w')) \<and>
    rp_labels p' = (rp_labels p)(revision_label \<mapsto> x_hash_string X revision) \<and>
    rp_namespace p' = rp_namespace p \<and> rp_resourcePath p' = rp_resourcePath p \<and> rp_appName p' = rp_appName p \<and>
    rp_mutex p' \<and> rp_cleanups p' = (if rp_mutex p then rp_cleanups p else Suc (rp_cleanups p))"
proof (cases "rp_labels p revision_label")
  case None
  with assms show ?thesis
    by (simp add: raw_Delivery_def delivery_resources_def TryLock_def)
next
  case (Some v)
  define files where "files = GetFilesFullPath (rp_resourcePath p)
      (FindFilesWithRegex (rp_resourcePath p) (Some yaml_regex) w)"
  have "NewUnstructuredResources X files w = (Ret rs, w)"
    using assms(1) Some NewUnstructuredResources_world[of X files w]
    by (simp add: delivery_resources_def files_def prod_eq_iff)
  then have "andthen (getResourceFiles (rp_resourcePath p)) (NewUnstructuredResources X) w = (Ret rs, w)"
    by (simp add: andthen_def getResourceFiles_def files_def)
  with Some assms(2) show ?thesis
    by (simp add: raw_Delivery_def TryLock_def)
qed

lemma raw_Delivery_spec:
  assumes X: "cluster_reads X view" "cluster_writes X view"
    and rs: "delivery_resources X p w = Ret rs" "distinct (map (resource_key (rp_namespace p)) rs)"
  shows "\<exists>p' w'. raw_Delivery X revision (p, w) = (Ret (), (p', w')) \<and>
    rp_labels p' = (rp_labels p)(revision_label \<mapsto> x_hash_string X revision) \<and>
    rp_namespace p' = rp_namespace p \<and> rp_resourcePath p' = rp_resourcePath p \<and>
    disk w' = disk w \<and> spawned w' = spawned w \<and>
    (\<forall>k. k \<notin> resource_key (rp_namespace p) ` set rs \<longrightarrow> view w' k = view w k) \<and>
    (\<forall>r\<in>set rs. delivered (rp_labels p') (r_obj r)
       (view w (resource_key (rp_namespace p) r)) (view w' (resource_key (rp_namespace p) r))) \<and>
    rp_appName p' = rp_appName p \<and> rp_mutex p' \<and>
    rp_cleanups p' = (if rp_mutex p then rp_cleanups p else Suc (rp_cleanups p))"
proof -
  define ls where "ls = (rp_labels p)(revision_label \<mapsto> x_hash_string X revision)"
  have ls: "ls revision_label = Some (x_hash_string X revision)" by (simp add: ls_def)
  from deliver_resources_spec[where ls = ls and v = "x_hash_string X revision" and w = w, OF X ls rs(2)]
  obtain rs' w' where d: "deliver_resources X ls (rp_namespace p) rs w = (Ret rs', w')"
    "spawned w' = spawned w" "disk w' = disk w"
    "\<forall>k. k \<notin> resource_key (rp_namespace p) ` set rs \<longrightarrow> view w' k = view w k"
    "\<forall>r\<in>set rs. delivered ls (r_obj r)
       (view w (resource_key (rp_namespace p) r)) (view w' (resource_key (rp_namespace p) r))"
    by blast
  from raw_Delivery_run[OF rs(1) d(1)[unfolded ls_def]] d(2-5) show ?thesis
    unfolding ls_def by metis
qed

subsection \<open>What the cleanup deletes\<close>

lemma cluster_list:
  assumes "cluster_reads X view"
  obtains ms where "x_list X g ns sel w = (Ret ms, w)"
    "m_name ` set ms = {n. \<exists>m. view w (g, ns, n) = Some m \<and> sel_matches sel (m_labels m)}"
  using assms unfolding cluster_reads_def by blast

lemma cluster_delete:
  assumes "cluster_writes X view"
  obtains r w' where "x_delete X g ns n w = (r, w')" "r = Ret () \<or> (\<exists>e. r = Fail e)"
    "spawned w' = spawned w" "disk w' = disk w" "view w' = (view w)((g, ns, n) := None)"
  using assms unfolding cluster_writes_def by metis

lemma delete_each_spec:
  assumes X: "cluster_writes X view"
  shows "\<exists>w'. for_each (\<lambda>m. andthen (attempt (x_delete X g ns (m_name m))) (\<lambda>_. ret ())) ms w = (Ret (), w') \<and>
    spawned w' = spawned w \<and> disk w' = disk w \<and>
    view w' = (\<lambda>k. if \<exists>n\<in>m_name ` set ms. k = (g, ns, n) then None else view w k)"
proof (induction ms arbitrary: w)
  case (Cons m ms)
  from cluster_delete[OF X, of g ns "m_name m" w] obtain r w1 where d:
    "x_delete X g ns (m_name m) w = (r, w1)" "r = Ret () \<or> (\<exists>e. r = Fail e)"
    "spawned w1 = spawned w" "disk w1 = disk w" "view w1 = (view w)((g, ns, m_name m) := None)" .
  from Cons.IH[of w1] d show ?case by fastforce
qed auto

definition matching :: "clean_task \<Rightarrow> (obj_key \<rightharpoonup> manifest) \<Rightarrow> obj_key \<Rightarrow> bool" where
  "matching t objs k \<longleftrightarrow>
     (\<exists>n m. k = (ct_gvr t, ct_namespace t, n) \<and> objs k = Some m \<and> sel_matches (ct_selector t) (m_labels m))"

lemma run_clean_task_spec:
  assumes X: "cluster_reads X view" "cluster_writes X view"
  shows "\<exists>w'. run_clean_task X t w = (Ret (), w') \<and> spawned w' = spawned w \<and> disk w' = disk w \<and>
    view w' = (\<lambda>k. if matching t (view w) k then None else view w k)"
proof -
  from cluster_list[OF X(1), of "ct_gvr t" "ct_namespace t" "ct_selector t" w] obtain ms where l:
    "x_list X (ct_gvr t) (ct_namespace t) (ct_selector t) w = (Ret ms, w)"
    "m_name ` set ms = {n. \<exists>m. view w (ct_gvr t, ct_namespace t, n) = Some m \<and>
       sel_matches (ct_selector t) (m_labels m)}" .
  from delete_each_spec[OF X(2), of "ct_gvr t" "ct_namespace t" ms w] obtain w' where
    "for_each (\<lambda>m. andthen (attempt (x_delete X (ct_gvr t) (ct_namespace t) (m_name m))) (\<lambda>_. ret ())) ms w
       = (Ret (), w')"
    "spawned w' = spawned w" "disk w' = disk w"
    "view w' = (\<lambda>k. if \<exists>n\<in>m_name ` set ms. k = (ct_gvr t, ct_namespace t, n) then None else view w k)"
    by blast
  then show ?thesis
    by (intro exI[of _ w']) (auto simp: run_clean_task_def l matching_def fun_eq_iff)
qed

text \<open>
  Tasks of one call have one selector: whatever order they run in, together they delete the
  objects that matched at the start, because deleting an object does not change another's labels.
\<close>

lemma run_clean_tasks_spec:
  assumes X: "cluster_reads X view" "cluster_writes X view"
  shows "\<exists>w'. for_each (run_clean_task X) ts w = (Ret (), w') \<and> spawned w' = spawned w \<and>
    view w' = (\<lambda>k. if \<exists>t\<in>set ts. matching t (view w) k then None else view w k)"
proof (induction ts arbitrary: w)
  case (Cons t ts)
  from run_clean_task_spec[OF X, of t w] obtain w1 where r:
    "run_clean_task X t w = (Ret (), w1)" "spawned w1 = spawned w"
    "view w1 = (\<lambda>k. if matching t (view w) k then None else view w k)" by blast
  from Cons.IH[of w1] obtain w2 where i:
    "for_each (run_clean_task X) ts w1 = (Ret (), w2)" "spawned w2 = spawned w1"
    "view w2 = (\<lambda>k. if \<exists>t\<in>set ts. matching t (view w1) k then None else view w1 k)" by blast
  have "matching t' (view w1) k \<longleftrightarrow> matching t' (view w) k \<and> \<not> matching t (view w) k" for t' k
    unfolding matching_def r(3) by auto
  with r i show ?case by (auto simp: fun_eq_iff)
qed auto

subsection \<open>What the cleanup spawns\<close>

lemma version_tasks_run:
  assumes "discovery X groups kinds"
  shows "version_tasks X ns sel g gv w =
    (Ret (map (\<lambda>n. \<lparr>ct_gvr = \<lparr>g_group = g, g_version = snd gv, g_resource = n\<rparr>, ct_namespace = ns, ct_selector = sel\<rparr>)
       (kind_names kinds (fst gv))), w)"
  using assms by (auto simp: version_tasks_def discovery_def kind_names_def andthen_def attempt_def split: option.split)

lemma map_each_pure: "(\<And>x. x \<in> set xs \<Longrightarrow> body x w = (Ret (f x), w)) \<Longrightarrow> map_each body xs w = (Ret (map f xs), w)"
  by (induction xs) auto

lemma group_tasks_run:
  assumes D: "discovery X groups kinds"
  shows "\<exists>ts. group_tasks X ns sel groups w = (Ret ts, w) \<and>
    ct_gvr ` set ts = discovered groups kinds \<and>
    (\<forall>t\<in>set ts. ct_namespace t = ns \<and> ct_selector t = sel)"
proof -
  define gvs where "gvs = concat (map (\<lambda>ag. map (Pair (ag_Name ag)) (ag_Versions ag)) groups)"
  define f where "f = (\<lambda>(g, gv). map (\<lambda>n. \<lparr>ct_gvr = \<lparr>g_group = g, g_version = snd gv, g_resource = n\<rparr>,
      ct_namespace = ns, ct_selector = sel\<rparr>)
      (kind_names kinds (fst gv)))"
  have "map_each (\<lambda>(g, gv). version_tasks X ns sel g gv) gvs w = (Ret (map f gvs), w)"
    by (rule map_each_pure) (auto simp: version_tasks_run[OF D] f_def)
  then have "group_tasks X ns sel groups w = (Ret (concat (map f gvs)), w)"
    by (simp add: group_tasks_def gvs_def)
  moreover have "ct_gvr ` set (concat (map f gvs)) = discovered groups kinds"
  proof -
    have f: "ct_gvr ` set (f x) = {\<lparr>g_group = fst x, g_version = snd (snd x), g_resource = n\<rparr> | n.
        n \<in> set (kind_names kinds (fst (snd x)))}" for x
      by (cases x) (simp add: f_def image_image, rule set_eqI, simp only: image_iff mem_Collect_eq, blast)
    have "ct_gvr ` set (concat (map f gvs)) = (\<Union>x\<in>set gvs. ct_gvr ` set (f x))"
      by (simp add: image_UN)
    also have "\<dots> = (\<Union>x\<in>set gvs.
        {\<lparr>g_group = fst x, g_version = snd (snd x), g_resource = n\<rparr> | n.
         n \<in> set (kind_names kinds (fst (snd x)))})"
      by (simp only: f)
    also have "\<dots> = discovered groups kinds"
    proof -
      have gvs: "x \<in> set gvs \<longleftrightarrow>
          (\<exists>ag gv. ag \<in> set groups \<and> gv \<in> set (ag_Versions ag) \<and> x = (ag_Name ag, gv))" for x
        by (auto simp: gvs_def)
      have "u \<in> (\<Union>x\<in>set gvs. {\<lparr>g_group = fst x, g_version = snd (snd x), g_resource = n\<rparr> | n.
            n \<in> set (kind_names kinds (fst (snd x)))}) \<longleftrightarrow>
          (\<exists>x n. x \<in> set gvs \<and> n \<in> set (kind_names kinds (fst (snd x))) \<and>
             u = \<lparr>g_group = fst x, g_version = snd (snd x), g_resource = n\<rparr>)" for u by blast
      also have "\<dots> u \<longleftrightarrow> u \<in> discovered groups kinds" for u
        unfolding gvs discovered_def mem_Collect_eq by (metis fst_conv snd_conv)
      finally show ?thesis by blast
    qed
    finally show ?thesis .
  qed
  moreover have "\<forall>t\<in>set (concat (map f gvs)). ct_namespace t = ns \<and> ct_selector t = sel"
    by (auto simp: f_def)
  ultimately show ?thesis by blast
qed

definition stale_selector :: "bool \<Rightarrow> string \<Rightarrow> string \<Rightarrow> requirement list" where
  "stale_selector cleanAll appName h =
     \<lparr>rq_key = app_label, rq_op = Equals, rq_values = [appName]\<rparr> #
     (if cleanAll then [] else [\<lparr>rq_key = revision_label, rq_op = NotEquals, rq_values = [h]\<rparr>])"

lemma sel_matches_stale:
  "sel_matches (stale_selector cleanAll appName h) ls \<longleftrightarrow>
     ls app_label = Some appName \<and> (cleanAll \<or> ls revision_label \<noteq> Some h)"
  by (auto simp: sel_matches_def stale_selector_def split: option.splits)

lemma cleanResources_spawns:
  assumes "discovery X groups kinds" and "accepts_label X (rp_appName p)"
    and "accepts_label X (x_hash_string X revision)" and "\<not> IsZero revision" and "rp_mutex p"
  shows "\<exists>ts. cleanResources X cleanAll revision (p, w) =
      (Ret (), (p\<lparr>rp_mutex := False\<rparr>, w\<lparr>spawned := spawned w @ ts\<rparr>)) \<and>
    ct_gvr ` set ts = discovered groups kinds \<and>
    (\<forall>t\<in>set ts. ct_namespace t = rp_namespace p \<and>
       ct_selector t = stale_selector cleanAll (rp_appName p) (x_hash_string X revision))"
proof -
  let ?sel = "stale_selector cleanAll (rp_appName p) (x_hash_string X revision)"
  have sel: "cleanup_selector X cleanAll (rp_appName p) revision = Inr ?sel"
    using assms(2,3) by (simp add: cleanup_selector_def accepts_label_def stale_selector_def)
  from group_tasks_run[OF assms(1), of "rp_namespace p" ?sel w] obtain ts where ts:
    "group_tasks X (rp_namespace p) ?sel groups w = (Ret ts, w)"
    "ct_gvr ` set ts = discovered groups kinds"
    "\<forall>t\<in>set ts. ct_namespace t = rp_namespace p \<and> ct_selector t = ?sel" by blast
  have "x_server_groups X w = (Ret groups, w)" using assms(1) by (simp add: discovery_def)
  then have "clean_body X cleanAll revision (p, w) = (Ret (), (p, w\<lparr>spawned := spawned w @ ts\<rparr>))"
    using assms(4) ts(1) by (simp add: clean_body_def sel spawn_tasks_def)
  then have "cleanResources X cleanAll revision (p, w) =
      (Ret (), (p\<lparr>rp_mutex := False\<rparr>, w\<lparr>spawned := spawned w @ ts\<rparr>))"
    using assms(5) by (simp add: cleanResources_def defer_unlock_def)
  with ts show ?thesis by blast
qed

end
