(* ===== verification/Sample.thy ===== *)
theory Sample
  imports Externals
begin

section \<open>A concrete outside world\<close>

text \<open>
  One instance of the externals, with one git repository, one cluster and one list of Helm releases
  as the outside state. It shows that the hypotheses on the externals can hold, and the witnesses
  run the program against it.
\<close>

record sample_ext =
  sx_objs :: "(obj_key \<times> manifest) list"
  sx_releases :: "release list"
  sx_history :: "(commit \<times> string list) list"  \<comment> \<open>newest first, with the changed files\<close>
  sx_local :: hash
  sx_remote :: hash
  sx_upstream :: hash

type_synonym sample_world = "sample_ext world"

subsection \<open>git\<close>

definition s_hash_string :: "hash \<Rightarrow> string" where
  "s_hash_string h = replicate (unat h) CHR ''1''"

definition set_ext :: "(sample_ext \<Rightarrow> sample_ext) \<Rightarrow> sample_world \<Rightarrow> sample_world" where
  "set_ext f w = w\<lparr>ext := f (ext w)\<rparr>"

definition s_fetch :: "(sample_world, unit) comp" where
  "s_fetch w =
     (if sx_remote (ext w) = sx_upstream (ext w) then (Fail GitNoErrAlreadyUpToDate, w)
      else (Ret (), set_ext (\<lambda>e. e\<lparr>sx_remote := sx_upstream e\<rparr>) w))"

definition s_pull :: "(sample_world, unit) comp" where
  "s_pull w =
     (if sx_local (ext w) = sx_remote (ext w) then (Fail GitNoErrAlreadyUpToDate, w)
      else (Ret (), set_ext (\<lambda>e. e\<lparr>sx_local := sx_remote e\<rparr>) w))"

definition s_log :: "(string \<Rightarrow> bool) \<Rightarrow> (sample_world, commit list) comp" where
  "s_log flt w =
     (Ret (map fst (filter (\<lambda>(c, ps). list_ex flt ps)
        (dropWhile (\<lambda>(c, ps). c_Hash c \<noteq> sx_local (ext w)) (sx_history (ext w))))), w)"

definition s_clone :: "(sample_world, git_repo) comp" where
  "s_clone w = (Ret 0, set_ext (\<lambda>e. e\<lparr>sx_local := sx_upstream e, sx_remote := sx_upstream e\<rparr>) w)"

subsection \<open>The cluster\<close>

definition s_view :: "sample_world \<Rightarrow> obj_key \<rightharpoonup> manifest" where
  "s_view w = map_of (sx_objs (ext w))"

definition s_get :: "gvr \<Rightarrow> string \<Rightarrow> string \<Rightarrow> (sample_world, manifest) comp" where
  "s_get g ns n w = (case s_view w (g, ns, n) of None \<Rightarrow> (Fail K8sNotFound, w) | Some m \<Rightarrow> (Ret m, w))"

definition s_write :: "obj_key \<Rightarrow> manifest \<Rightarrow> sample_world \<Rightarrow> sample_world" where
  "s_write k m = set_ext (\<lambda>e. e\<lparr>sx_objs := (k, m) # filter (\<lambda>x. fst x \<noteq> k) (sx_objs e)\<rparr>)"

definition s_create :: "gvr \<Rightarrow> string \<Rightarrow> manifest \<Rightarrow> (sample_world, unit) comp" where
  "s_create g ns m w =
     (if s_view w (g, ns, m_name m) = None
      then (Ret (), s_write (g, ns, m_name m) (m\<lparr>m_resourceVersion := ''1''\<rparr>) w)
      else (Fail (OtherError ''exists''), w))"

definition s_update :: "gvr \<Rightarrow> string \<Rightarrow> manifest \<Rightarrow> (sample_world, unit) comp" where
  "s_update g ns m w =
     (case s_view w (g, ns, m_name m) of
        None \<Rightarrow> (Fail K8sNotFound, w)
      | Some m0 \<Rightarrow>
          if m_resourceVersion m = m_resourceVersion m0
          then (Ret (), s_write (g, ns, m_name m) (m\<lparr>m_resourceVersion := CHR ''1'' # m_resourceVersion m0\<rparr>) w)
          else (Fail (OtherError ''conflict''), w))"

definition s_list :: "gvr \<Rightarrow> string \<Rightarrow> requirement list \<Rightarrow> (sample_world, manifest list) comp" where
  "s_list g ns sel w =
     (Ret (map (\<lambda>((k, v, n), m). m\<lparr>m_name := n\<rparr>)
        (filter (\<lambda>((k, v, n), m). k = g \<and> v = ns \<and> s_view w (g, ns, n) = Some m \<and> sel_matches sel (m_labels m))
          (sx_objs (ext w)))), w)"

definition s_delete :: "gvr \<Rightarrow> string \<Rightarrow> string \<Rightarrow> (sample_world, unit) comp" where
  "s_delete g ns n w =
     (if s_view w (g, ns, n) = None then (Fail K8sNotFound, w)
      else (Ret (), set_ext (\<lambda>e. e\<lparr>sx_objs := filter (\<lambda>x. fst x \<noteq> (g, ns, n)) (sx_objs e)\<rparr>) w))"

definition sample_groups :: "api_group list" where
  "sample_groups = [\<lparr>ag_Name = [], ag_Versions = [(''v1'', ''v1'')]\<rparr>,
                    \<lparr>ag_Name = ''x'', ag_Versions = [(''x/v1'', ''v1'')]\<rparr>]"

definition sample_kinds :: "string \<Rightarrow> string list option" where
  "sample_kinds gv = (if gv = ''v1'' then Some [''configmaps'', ''secrets''] else None)"

text \<open>A manifest file holds the name of a config map.\<close>

definition s_yaml :: "bytes \<Rightarrow> error + manifest option" where
  "s_yaml b =
     (if b = [] then Inr None
      else Inr (Some \<lparr>m_apiVersion = ''v1'', m_kind = ''ConfigMap'', m_name = b, m_labels = Map.empty,
                      m_resourceVersion = [], m_body = b\<rparr>))"

subsection \<open>Helm\<close>

definition s_chart :: chart where
  "s_chart = \<lparr>ch_Description = [], ch_Values = YMap [], ch_Templates = ''t''\<rparr>"

definition s_install :: "string \<Rightarrow> chart option \<Rightarrow> yaml_value \<Rightarrow> (sample_world, unit) comp" where
  "s_install name ch vs w =
     (case ch of
        None \<Rightarrow> (Fail (OtherError ''chart''), w)
      | Some c \<Rightarrow>
          (Ret (), set_ext (\<lambda>e. e\<lparr>sx_releases := \<lparr>rel_Name = name, rel_Chart = c\<lparr>ch_Values := vs\<rparr>\<rparr> #
             filter (\<lambda>r. rel_Name r \<noteq> name) (sx_releases e)\<rparr>) w))"

definition s_uninstall :: "string \<Rightarrow> (sample_world, unit) comp" where
  "s_uninstall name =
     modify (set_ext (\<lambda>e. e\<lparr>sx_releases := filter (\<lambda>r. rel_Name r \<noteq> name) (sx_releases e)\<rparr>))"

subsection \<open>The externals\<close>

definition sample :: "sample_ext externals" where
  "sample =
     \<lparr>x_hash_string = s_hash_string,
      x_plain_clone = (\<lambda>path bare opts. s_clone),
      x_plain_open = (\<lambda>path. ret 0),
      x_worktree = (\<lambda>repo. ret 0),
      x_checkout = (\<lambda>wt opts. ret ()),
      x_fetch = (\<lambda>repo opts. s_fetch),
      x_reference = (\<lambda>repo name resolved.
         gets (\<lambda>w. if take 13 name = ''refs/remotes/'' then sx_remote (ext w) else sx_local (ext w))),
      x_reset_sparsely = (\<lambda>wt opts dirs. modify (set_ext (\<lambda>e. e\<lparr>sx_local := ro_Commit opts\<rparr>))),
      x_pull = (\<lambda>wt opts. s_pull),
      x_log = (\<lambda>repo flt. s_log flt),
      x_new_public_keys = (\<lambda>user key pw. ret (user, key)),
      x_known_hosts = (\<lambda>path. ret (KnownHosts path)),
      x_kube_client = (\<lambda>cfg. ret ()),
      x_dynamic_client = (\<lambda>cfg. ret ()),
      x_secret_get = (\<lambda>ns n. ret [''sshPrivateKey'' \<mapsto> n]),
      x_ns_get = (\<lambda>ns. ret ()),
      x_ns_create = (\<lambda>ns. ret ()),
      x_server_groups = ret sample_groups,
      x_server_resources = (\<lambda>gv w.
         (case sample_kinds gv of None \<Rightarrow> (Fail (OtherError ''discovery''), w) | Some ns \<Rightarrow> (Ret ns, w))),
      x_new_requirement = (\<lambda>k sel vs. Inr \<lparr>rq_key = k, rq_op = sel, rq_values = vs\<rparr>),
      x_get = s_get,
      x_create = s_create,
      x_update = s_update,
      x_list = s_list,
      x_delete = s_delete,
      x_yaml_unmarshal = s_yaml,
      x_helmDebug = True,
      x_is_chart_dir = (\<lambda>path w. (Fail (OtherError ''no chart''), w)),
      x_manager_update = (\<lambda>m. ret ()),
      x_chart_load = (\<lambda>path. ret s_chart),
      x_merge_values = (\<lambda>settings files. ret (YMap [])),
      x_cfg_init = (\<lambda>flags ns. ret ()),
      x_release_list = (\<lambda>opts. gets (\<lambda>w. sx_releases (ext w))),
      x_install = (\<lambda>opts ch vs. s_install (in_ReleaseName opts) ch vs),
      x_upgrade = (\<lambda>opts name ch vs. s_install name ch vs),
      x_uninstall = (\<lambda>opts name. s_uninstall name)\<rparr>"

text \<open>The same where the application is a Helm chart.\<close>

definition sample_chart :: "sample_ext externals" where
  "sample_chart = sample\<lparr>x_is_chart_dir := (\<lambda>path. ret ())\<rparr>"

lemma sample_sel [simp]:
  "x_hash_string sample = s_hash_string" "x_get sample = s_get" "x_create sample = s_create"
  "x_update sample = s_update" "x_list sample = s_list" "x_delete sample = s_delete"
  "x_yaml_unmarshal sample = s_yaml"
  "x_kube_client sample K = ret ()" "x_dynamic_client sample K = ret ()" "x_ns_get sample ns = ret ()"
  "x_new_requirement sample k sel vs = Inr \<lparr>rq_key = k, rq_op = sel, rq_values = vs\<rparr>"
  "x_server_groups sample = ret sample_groups"
  "x_server_resources sample gv w =
     (case sample_kinds gv of None \<Rightarrow> (Fail (OtherError ''discovery''), w) | Some ns \<Rightarrow> (Ret ns, w))"
  by (simp_all add: sample_def)

lemma s_hash_string_eq: "s_hash_string h = s_hash_string h' \<longleftrightarrow> h = h'"
  by (auto simp: s_hash_string_def replicate_eq_replicate intro: unsigned_word_eqI)

lemma s_hash_one: "s_hash_string 1 = ''1''" and s_hash_two: "s_hash_string 2 \<noteq> ''1''"
proof -
  show "s_hash_string 1 = ''1''" by (simp add: s_hash_string_def)
  then show "s_hash_string 2 \<noteq> ''1''" using s_hash_string_eq[of 2 1] by simp
qed

lemma s_view_set_ext: "s_view (set_ext f w) = map_of (sx_objs (f (ext w)))"
  by (simp add: s_view_def set_ext_def)

lemma map_of_filter_key: "map_of (filter (\<lambda>x. fst x \<noteq> k) xs) = (map_of xs)(k := None)"
  by (induction xs) (auto simp: fun_eq_iff)

lemma s_view_write: "s_view (s_write k m w) = (s_view w)(k \<mapsto> m)"
  by (simp add: s_write_def s_view_set_ext map_of_filter_key) (simp add: s_view_def)

lemma set_ext_frame [simp]: "spawned (set_ext f w) = spawned w" "disk (set_ext f w) = disk w"
    "home (set_ext f w) = home w" "ext (set_ext f w) = f (ext w)"
  by (simp_all add: set_ext_def)

lemma s_write_frame [simp]: "spawned (s_write k m w) = spawned w" "disk (s_write k m w) = disk w"
  by (simp_all add: s_write_def)

lemma sample_list_names:
  "m_name ` set (fst_res) = {n. \<exists>m. s_view w (g, ns, n) = Some m \<and> sel_matches sel (m_labels m)}"
  if "s_list g ns sel w = (Ret fst_res, w)"
proof -
  have e: "fst_res = map (\<lambda>((k, v, n), m). m\<lparr>m_name := n\<rparr>)
      (filter (\<lambda>((k, v, n), m). k = g \<and> v = ns \<and> s_view w (g, ns, n) = Some m \<and> sel_matches sel (m_labels m))
          (sx_objs (ext w)))" using that by (simp add: s_list_def)
  show ?thesis
  proof (rule set_eqI, rule iffI)
    fix n assume "n \<in> m_name ` set fst_res"
    then show "n \<in> {n. \<exists>m. s_view w (g, ns, n) = Some m \<and> sel_matches sel (m_labels m)}"
      unfolding e by auto
  next
    fix n assume "n \<in> {n. \<exists>m. s_view w (g, ns, n) = Some m \<and> sel_matches sel (m_labels m)}"
    then obtain m where m: "s_view w (g, ns, n) = Some m" "sel_matches sel (m_labels m)" by blast
    then have "((g, ns, n), m) \<in> set (sx_objs (ext w))" by (simp add: s_view_def map_of_SomeD)
    with m have "m\<lparr>m_name := n\<rparr> \<in> set fst_res" unfolding e
      by (auto intro!: rev_image_eqI[of "((g, ns, n), m)"])
    then show "n \<in> m_name ` set fst_res" by (rule rev_image_eqI) simp
  qed
qed

lemma sample_reads: "cluster_reads sample s_view"
proof -
  have "s_view (w\<lparr>spawned := ts\<rparr>) = s_view w" for w ts by (simp add: s_view_def)
  moreover have "s_get g ns n w = (case s_view w (g, ns, n) of None \<Rightarrow> (Fail K8sNotFound, w) | Some m \<Rightarrow> (Ret m, w))"
    for g ns n w by (rule s_get_def)
  moreover have "\<exists>ms. s_list g ns sel w = (Ret ms, w) \<and>
      m_name ` set ms = {n. \<exists>m. s_view w (g, ns, n) = Some m \<and> sel_matches sel (m_labels m)}" for g ns sel w
  proof -
    obtain ms where "s_list g ns sel w = (Ret ms, w)" by (simp add: s_list_def)
    then show ?thesis using sample_list_names by blast
  qed
  ultimately show ?thesis
    unfolding cluster_reads_def sample_sel by blast
qed

lemma sample_writes: "cluster_writes sample s_view"
proof -
  have "s_view w' = (s_view w)((g, ns, n) := None)" if "s_delete g ns n w = (r, w')" for g ns n w r w'
  proof (cases "s_view w (g, ns, n)")
    case None
    with that show ?thesis by (auto simp: s_delete_def fun_upd_idem)
  next
    case (Some m)
    with that have "w' = set_ext (\<lambda>e. e\<lparr>sx_objs := filter (\<lambda>x. fst x \<noteq> (g, ns, n)) (sx_objs e)\<rparr>) w"
      by (simp add: s_delete_def)
    then show ?thesis by (simp add: s_view_set_ext map_of_filter_key) (simp add: s_view_def)
  qed
  moreover have "(r = Ret () \<or> (\<exists>e. r = Fail e)) \<and> spawned w' = spawned w \<and> disk w' = disk w"
    if "s_delete g ns n w = (r, w')" for g ns n w r w'
    using that by (auto simp: s_delete_def split: if_splits)
  moreover have "\<exists>r w'. s_delete g ns n w = (r, w')" for g ns n w by (metis prod.exhaust)
  ultimately have "\<exists>r w'. s_delete g ns n w = (r, w') \<and> (r = Ret () \<or> (\<exists>e. r = Fail e)) \<and>
      spawned w' = spawned w \<and> disk w' = disk w \<and> s_view w' = (s_view w)((g, ns, n) := None)" for g ns n w
    by meson
  then show ?thesis
    unfolding cluster_writes_def sample_sel by (auto simp: s_create_def s_update_def s_view_write)
qed

lemma sample_discovery: "discovery sample sample_groups sample_kinds"
  by (simp add: discovery_def)

lemma sample_accepts: "accepts_label sample v"
  by (simp add: accepts_label_def)

lemma sample_discovered:
  "\<lparr>g_group = [], g_version = ''v1'', g_resource = ''configmaps''\<rparr> \<in> discovered sample_groups sample_kinds"
  unfolding discovered_def sample_groups_def kind_names_def sample_kinds_def by force

definition rest0 :: rest_config where
  "rest0 = \<lparr>rcfg_Host = ''https://10.0.0.1'', rcfg_BearerToken = [], rcfg_Insecure = True, rcfg_QPS = 5,
     rcfg_Burst = 10, rcfg_CertFile = ''c'', rcfg_CertData = [], rcfg_CAFile = ''d'', rcfg_CAData = [],
     rcfg_KeyFile = ''k'', rcfg_KeyData = []\<rparr>"

end
