(* ===== verification/RawProps.thy ===== *)
theory RawProps
  imports RawProofs Sample
begin

section \<open>Properties of the raw provider\<close>

text \<open>
  What a delivery and a cleanup do to a cluster, and the life of a provider under its four
  operations in any order. The witnesses run the provider on the sample world.
\<close>

subsection \<open>Delivery\<close>

text \<open>
  C4. Delivering a revision to a cluster returns, brings every object of the manifests to that
  revision (created where missing, replaced where it carries another revision, left alone where it
  carries this revision or no revision label), and touches no other object.
\<close>

theorem raw_Delivery_applies:
  assumes "cluster_reads X view" and "cluster_writes X view"
    and "delivery_resources X p w = Ret rs" and "distinct (map (resource_key (rp_namespace p)) rs)"
  shows "\<exists>p' w'. raw_Delivery X revision (p, w) = (Ret (), (p', w')) \<and>
    rp_labels p' = (rp_labels p)(revision_label \<mapsto> x_hash_string X revision) \<and>
    (\<forall>r\<in>set rs. delivered (rp_labels p') (r_obj r)
       (view w (resource_key (rp_namespace p) r)) (view w' (resource_key (rp_namespace p) r))) \<and>
    (\<forall>k. k \<notin> resource_key (rp_namespace p) ` set rs \<longrightarrow> view w' k = view w k)"
  using raw_Delivery_spec[OF assms] by metis

definition cm_gvr :: gvr where
  "cm_gvr = \<lparr>g_group = [], g_version = ''v1'', g_resource = ''configmaps''\<rparr>"

definition cm :: "string \<Rightarrow> (string \<rightharpoonup> string) \<Rightarrow> manifest" where
  "cm n ls = \<lparr>m_apiVersion = ''v1'', m_kind = ''ConfigMap'', m_name = n, m_labels = ls,
     m_resourceVersion = [], m_body = n\<rparr>"

definition cm_resource :: "string \<Rightarrow> resource" where
  "cm_resource n = \<lparr>r_group = [], r_version = ''v1'', r_resource = ''configmaps'',
     r_filePath = ''/r/a.yaml'', r_obj = cm n Map.empty\<rparr>"

text \<open>A provider of the application \<open>''a''\<close> with one manifest, in a cluster with an object of an older revision.\<close>

definition raw0 :: raw_provider where
  "raw0 = \<lparr>rp_appName = ''a'', rp_resourcePath = ''/r'', rp_namespace = ''default'',
     rp_resources = [cm_resource ''c''], rp_labels = [app_label \<mapsto> ''a''],
     rp_mutex = False, rp_cleanups = 0\<rparr>"

definition ext0 :: sample_ext where
  "ext0 = \<lparr>sx_objs = [((cm_gvr, ''default'', ''old''), cm ''old'' [app_label \<mapsto> ''a'', revision_label \<mapsto> ''1''])],
     sx_releases = [], sx_history = [], sx_local = 0, sx_remote = 0, sx_upstream = 0\<rparr>"

definition world0 :: sample_world where
  "world0 = \<lparr>home = Some ''/root'', disk = Dir [(''r'', Dir [(''a.yaml'', File ''c'')])],
     spawned = [], ext = ext0\<rparr>"

theorem raw_Delivery_applies_witness:
  "\<exists>p' w'. raw_Delivery sample 2 (raw0, world0) = (Ret (), (p', w')) \<and>
    delivered (rp_labels p') (cm ''c'' Map.empty) None (s_view w' (cm_gvr, ''default'', ''c'')) \<and>
    s_view w' (cm_gvr, ''default'', ''old'') = s_view world0 (cm_gvr, ''default'', ''old'')"
proof -
  have rs: "delivery_resources sample raw0 world0 = Ret [cm_resource ''c'']"
    by (simp add: delivery_resources_def raw0_def)
  have k: "resource_key (rp_namespace raw0) (cm_resource ''c'') = (cm_gvr, ''default'', ''c'')"
    by (simp add: resource_key_def resource_gvr_def cm_resource_def cm_gvr_def cm_def raw0_def)
  have v: "s_view world0 (cm_gvr, ''default'', ''c'') = None"
    by (simp add: s_view_def world0_def ext0_def)
  have o: "r_obj (cm_resource ''c'') = cm ''c'' Map.empty" by (simp add: cm_resource_def)
  from raw_Delivery_applies[OF sample_reads sample_writes rs, of 2] k v o show ?thesis by auto
qed

text \<open>
  C21. A second delivery of the same revision, with the same manifest files, leaves every object of
  the cluster as the first one left it.
\<close>

theorem raw_Delivery_idempotent:
  assumes "cluster_reads X view" and "cluster_writes X view"
    and "delivery_resources X p w = Ret rs" and "distinct (map (resource_key (rp_namespace p)) rs)"
    and "rp_labels p revision_label \<noteq> None"
    and "raw_Delivery X revision (p, w) = (r1, (p1, w1))"
    and "raw_Delivery X revision (p1, w1) = (r2, (p2, w2))"
  shows "view w2 = view w1"
proof -
  from raw_Delivery_spec[OF assms(1-4), of revision] assms(6) have first:
    "rp_labels p1 = (rp_labels p)(revision_label \<mapsto> x_hash_string X revision)"
    "rp_namespace p1 = rp_namespace p" "rp_resourcePath p1 = rp_resourcePath p" "disk w1 = disk w"
    "\<forall>r\<in>set rs. delivered (rp_labels p1) (r_obj r)
       (view w (resource_key (rp_namespace p) r)) (view w1 (resource_key (rp_namespace p) r))" by auto
  have "delivery_resources X p1 w1 = Ret rs"
    by (rule delivery_resources_again[OF assms(3,5)]) (use first in auto)
  from raw_Delivery_spec[OF assms(1,2) this, of revision] assms(4,7) first(1,2) have second:
    "rp_labels p2 = rp_labels p1"
    "\<forall>k. k \<notin> resource_key (rp_namespace p) ` set rs \<longrightarrow> view w2 k = view w1 k"
    "\<forall>r\<in>set rs. delivered (rp_labels p1) (r_obj r)
       (view w1 (resource_key (rp_namespace p) r)) (view w2 (resource_key (rp_namespace p) r))" by auto
  show ?thesis
  proof (rule ext)
    fix k show "view w2 k = view w1 k"
    proof (cases "k \<in> resource_key (rp_namespace p) ` set rs")
      case True
      then obtain r where "r \<in> set rs" "k = resource_key (rp_namespace p) r" by blast
      with first(1,5) second(3) show ?thesis
        using delivered_again[of "rp_labels p1" "r_obj r" "view w k" "view w1 k" "view w2 k"] by simp
    qed (use second(2) in blast)
  qed
qed

definition raw1 :: raw_provider where
  "raw1 = raw0\<lparr>rp_labels := [app_label \<mapsto> ''a'', revision_label \<mapsto> ''1'']\<rparr>"

lemma raw1_files: "FindFilesWithRegex ''/r'' (Some yaml_regex) world0 = [''a.yaml'']"
  by code_simp

lemma raw_files_read:
  "NewUnstructuredResources sample [''/r/a.yaml''] world0 = (Ret [cm_resource ''c''], world0)"
proof -
  have "ReadFile ''/r/a.yaml'' world0 = Some ''c''" by code_simp
  moreover have "ToLower (''ConfigMap'' @ ''s'') = ''configmaps''" by code_simp
  moreover have "group_version ''v1'' = ([], ''v1'')" by code_simp
  ultimately show ?thesis
    by (simp add: NewUnstructuredResource_def s_yaml_def cm_resource_def cm_def)
qed

lemma raw_files_found: "GetFilesFullPath ''/r'' [''a.yaml''] = [''/r/a.yaml'']"
  by code_simp

lemma raw1_resources: "delivery_resources sample raw1 world0 = Ret [cm_resource ''c'']"
  by (simp add: delivery_resources_def raw1_def raw0_def raw1_files raw_files_found raw_files_read
      del: NewUnstructuredResources.simps)

theorem raw_Delivery_idempotent_witness:
  "s_view (snd (snd (raw_Delivery sample 2 (snd (raw_Delivery sample 2 (raw1, world0)))))) =
   s_view (snd (snd (raw_Delivery sample 2 (raw1, world0))))"
proof -
  obtain r1 p1 w1 where d1: "raw_Delivery sample 2 (raw1, world0) = (r1, (p1, w1))" by (metis prod.exhaust)
  obtain r2 p2 w2 where d2: "raw_Delivery sample 2 (p1, w1) = (r2, (p2, w2))" by (metis prod.exhaust)
  have "rp_labels raw1 revision_label \<noteq> None" by (simp add: raw1_def)
  from raw_Delivery_idempotent[OF sample_reads sample_writes raw1_resources _ this d1 d2] d1 d2
  show ?thesis by simp
qed

subsection \<open>Cleanup\<close>

text \<open>The objects a cleanup of one provider is after, for what discovery knows.\<close>

definition stale ::
    "bool \<Rightarrow> gvr set \<Rightarrow> raw_provider \<Rightarrow> string \<Rightarrow> (obj_key \<rightharpoonup> manifest) \<Rightarrow> obj_key \<Rightarrow> bool" where
  "stale cleanAll kinds p rvs objs k \<longleftrightarrow>
     fst k \<in> kinds \<and> fst (snd k) = rp_namespace p \<and>
     (case objs k of
        None \<Rightarrow> False
      | Some m \<Rightarrow> m_labels m app_label = Some (rp_appName p) \<and>
          (cleanAll \<or> m_labels m revision_label \<noteq> Some rvs))"

lemma stale_matching:
  assumes "ct_gvr ` set ts = kinds"
    and "\<forall>t\<in>set ts. ct_namespace t = rp_namespace p \<and> ct_selector t = stale_selector cleanAll (rp_appName p) rvs"
  shows "(\<exists>t\<in>set ts. matching t objs k) \<longleftrightarrow> stale cleanAll kinds p rvs objs k"
proof
  assume "\<exists>t\<in>set ts. matching t objs k"
  then obtain t n m where t: "t \<in> set ts" "k = (ct_gvr t, ct_namespace t, n)" "objs k = Some m"
    "sel_matches (ct_selector t) (m_labels m)" unfolding matching_def by blast
  moreover have "ct_gvr t \<in> kinds" using assms(1) t(1) by blast
  ultimately show "stale cleanAll kinds p rvs objs k"
    using assms(2) by (simp add: stale_def sel_matches_stale)
next
  assume s: "stale cleanAll kinds p rvs objs k"
  then obtain t where t: "t \<in> set ts" "ct_gvr t = fst k" unfolding stale_def assms(1)[symmetric] by force
  from s obtain m where "objs k = Some m" "m_labels m app_label = Some (rp_appName p)"
    "cleanAll \<or> m_labels m revision_label \<noteq> Some rvs" by (auto simp: stale_def split: option.splits)
  then have "matching t objs k"
    using t assms(2) s unfolding matching_def
    by (intro exI[of _ "snd (snd k)"] exI[of _ m]) (simp add: sel_matches_stale stale_def prod_eq_iff)
  with t(1) show "\<exists>t\<in>set ts. matching t objs k" by blast
qed

text \<open>The tasks a cleanup spawned, in any order, delete the stale objects of the moment they start.\<close>

lemma stale_tasks_run:
  assumes X: "cluster_reads X view" "cluster_writes X view"
    and ts: "ct_gvr ` set ts = kinds"
      "\<forall>t\<in>set ts. ct_namespace t = rp_namespace p \<and> ct_selector t = stale_selector cleanAll (rp_appName p) rvs"
    and "mset ts' = mset ts"
  shows "\<exists>w'. for_each (run_clean_task X) ts' w = (Ret (), w') \<and>
    view w' = (\<lambda>k. if stale cleanAll kinds p rvs (view w) k then None else view w k)"
proof -
  have "set ts' = set ts" using assms(5) mset_eq_setD by blast
  with run_clean_tasks_spec[OF X, of ts' w] stale_matching[OF ts] show ?thesis by auto
qed

text \<open>
  C5. The cleanup after a delivery unlocks the provider, and the deletion goroutines it starts, in
  whatever order they run, delete exactly the application's objects of the namespace that do not
  carry the delivered revision, of every resource kind discovery lists; nothing else changes.
\<close>

theorem cleanup_deletes_stale:
  assumes "cluster_reads X view" and "cluster_writes X view" and "discovery X groups kinds"
    and "accepts_label X (rp_appName p)" and "accepts_label X (x_hash_string X revision)"
    and "\<not> IsZero revision" and "rp_mutex p"
  shows "\<exists>p' ts. cleanup_goroutine X revision (p, w) =
      (Ret (), (p', w\<lparr>spawned := spawned w @ ts\<rparr>)) \<and> \<not> rp_mutex p' \<and>
    (\<forall>ts' v. mset ts' = mset ts \<longrightarrow> (\<exists>v'. for_each (run_clean_task X) ts' v = (Ret (), v') \<and>
       view v' = (\<lambda>k. if stale False (discovered groups kinds) p (x_hash_string X revision) (view v) k
                      then None else view v k)))"
proof -
  from cleanResources_spawns[OF assms(3-7), of False w] obtain ts where ts:
    "cleanResources X False revision (p, w) = (Ret (), (p\<lparr>rp_mutex := False\<rparr>, w\<lparr>spawned := spawned w @ ts\<rparr>))"
    "ct_gvr ` set ts = discovered groups kinds"
    "\<forall>t\<in>set ts. ct_namespace t = rp_namespace p \<and>
       ct_selector t = stale_selector False (rp_appName p) (x_hash_string X revision)" by blast
  have "\<exists>p'. cleanup_goroutine X revision (p, w) = (Ret (), (p', w\<lparr>spawned := spawned w @ ts\<rparr>)) \<and> \<not> rp_mutex p'"
    by (simp add: cleanup_goroutine_def ts(1))
  moreover have "\<forall>ts' v. mset ts' = mset ts \<longrightarrow> (\<exists>v'. for_each (run_clean_task X) ts' v = (Ret (), v') \<and>
       view v' = (\<lambda>k. if stale False (discovered groups kinds) p (x_hash_string X revision) (view v) k
                      then None else view v k))"
    using stale_tasks_run[OF assms(1,2) ts(2,3)] by blast
  ultimately show ?thesis by blast
qed

definition raw2 :: raw_provider where
  "raw2 = raw1\<lparr>rp_mutex := True, rp_cleanups := 1\<rparr>"

theorem cleanup_deletes_stale_witness:
  "\<exists>p' ts v'. cleanup_goroutine sample 2 (raw2, world0) = (Ret (), (p', world0\<lparr>spawned := ts\<rparr>)) \<and>
     for_each (run_clean_task sample) (rev ts) world0 = (Ret (), v') \<and>
     s_view v' (cm_gvr, ''default'', ''old'') = None"
proof -
  have nz: "\<not> IsZero (2 :: hash)" by (simp add: IsZero_def ZeroHash_def)
  have m: "rp_mutex raw2" by (simp add: raw2_def)
  from cleanup_deletes_stale[OF sample_reads sample_writes sample_discovery sample_accepts sample_accepts nz m, of world0]
  obtain p' ts where c: "cleanup_goroutine sample 2 (raw2, world0) = (Ret (), (p', world0\<lparr>spawned := spawned world0 @ ts\<rparr>))"
    "\<And>ts' v. mset ts' = mset ts \<Longrightarrow> \<exists>v'. for_each (run_clean_task sample) ts' v = (Ret (), v') \<and>
       s_view v' = (\<lambda>k. if stale False (discovered sample_groups sample_kinds) raw2 (x_hash_string sample 2) (s_view v) k
                      then None else s_view v k)" by blast
  have "stale False (discovered sample_groups sample_kinds) raw2 (s_hash_string 2) (s_view world0)
      (cm_gvr, ''default'', ''old'')"
    using sample_discovered s_hash_two
    by (simp add: stale_def cm_gvr_def raw2_def raw1_def raw0_def s_view_def world0_def ext0_def cm_def)
  with c(1) c(2)[of "rev ts" world0] show ?thesis by (auto simp: world0_def)
qed

lemma stale_all: "stale True kinds p rvs objs k \<longleftrightarrow> fst k \<in> kinds \<and> fst (snd k) = rp_namespace p \<and>
    map_option (\<lambda>m. m_labels m app_label) (objs k) = Some (Some (rp_appName p))"
  by (auto simp: stale_def split: option.splits)

text \<open>
  C26. Uninstalling a delivered application deletes all its objects of the namespace, whatever
  revision they carry, once the goroutines it starts have run, in any order; no other object is
  touched, and the provider can be used again.
\<close>

theorem raw_Uninstall_removes_all:
  assumes "cluster_reads X view" and "cluster_writes X view" and "discovery X groups kinds"
    and "accepts_label X (rp_appName p)" and "accepts_label X (x_hash_string X revision)"
    and "\<not> IsZero revision" and "\<not> rp_mutex p"
  shows "\<exists>ts. raw_Uninstall X revision (p, w) = (Ret (), (p, w\<lparr>spawned := spawned w @ ts\<rparr>)) \<and>
    (\<forall>ts' v. mset ts' = mset ts \<longrightarrow> (\<exists>v'. for_each (run_clean_task X) ts' v = (Ret (), v') \<and>
       (\<forall>k. view v' k =
          (if fst k \<in> discovered groups kinds \<and> fst (snd k) = rp_namespace p \<and>
              map_option (\<lambda>m. m_labels m app_label) (view v k) = Some (Some (rp_appName p))
           then None else view v k))))"
proof -
  define q where "q = p\<lparr>rp_mutex := True\<rparr>"
  have q: "rp_mutex q" "rp_appName q = rp_appName p" "rp_namespace q = rp_namespace p" "q\<lparr>rp_mutex := False\<rparr> = p"
    using assms(7) by (simp_all add: q_def)
  from cleanResources_spawns[OF assms(3) _ assms(5,6) q(1), of True w] assms(4) q obtain ts where ts:
    "cleanResources X True revision (q, w) = (Ret (), (p, w\<lparr>spawned := spawned w @ ts\<rparr>))"
    "ct_gvr ` set ts = discovered groups kinds"
    "\<forall>t\<in>set ts. ct_namespace t = rp_namespace p \<and>
       ct_selector t = stale_selector True (rp_appName p) (x_hash_string X revision)" by auto
  have "raw_Uninstall X revision (p, w) = (Ret (), (p, w\<lparr>spawned := spawned w @ ts\<rparr>))"
    using ts(1) assms(7) by (simp add: raw_Uninstall_def raw_lock_def q_def)
  then show ?thesis
    using stale_tasks_run[OF assms(1,2) ts(2,3)] stale_all by (intro exI[of _ ts]) fastforce
qed

theorem raw_Uninstall_removes_all_witness:
  "\<exists>ts v'. raw_Uninstall sample 2 (raw1, world0) = (Ret (), (raw1, world0\<lparr>spawned := ts\<rparr>)) \<and>
     for_each (run_clean_task sample) ts world0 = (Ret (), v') \<and>
     s_view v' (cm_gvr, ''default'', ''old'') = None"
proof -
  have nz: "\<not> IsZero (2 :: hash)" by (simp add: IsZero_def ZeroHash_def)
  have m: "\<not> rp_mutex raw1" by (simp add: raw1_def raw0_def)
  from raw_Uninstall_removes_all[OF sample_reads sample_writes sample_discovery sample_accepts sample_accepts nz m, of world0]
  obtain ts where c: "raw_Uninstall sample 2 (raw1, world0) = (Ret (), (raw1, world0\<lparr>spawned := spawned world0 @ ts\<rparr>))"
    "\<And>v. \<exists>v'. for_each (run_clean_task sample) ts v = (Ret (), v') \<and>
       (\<forall>k. s_view v' k = (if fst k \<in> discovered sample_groups sample_kinds \<and> fst (snd k) = rp_namespace raw1 \<and>
              map_option (\<lambda>m. m_labels m app_label) (s_view v k) = Some (Some (rp_appName raw1))
           then None else s_view v k))" by blast
  then obtain v' where v': "for_each (run_clean_task sample) ts world0 = (Ret (), v')"
    "\<And>k. s_view v' k = (if fst k \<in> discovered sample_groups sample_kinds \<and> fst (snd k) = rp_namespace raw1 \<and>
              map_option (\<lambda>m. m_labels m app_label) (s_view world0 k) = Some (Some (rp_appName raw1))
           then None else s_view world0 k)" by blast
  have "s_view v' (cm_gvr, ''default'', ''old'') = None"
    using v'(2) sample_discovered
    by (simp add: cm_gvr_def raw1_def raw0_def s_view_def world0_def ext0_def cm_def)
  with c(1) v'(1) show ?thesis by (auto simp: world0_def)
qed

text \<open>
  An application that was never synchronised has the zero revision: uninstalling it returns
  without starting a deletion, so that objects a partial first delivery left behind stay.
\<close>

lemma raw_Uninstall_unsynced:
  "\<not> rp_mutex p \<Longrightarrow> raw_Uninstall X ZeroHash (p, w) = (Ret (), (p, w))"
  by (simp add: raw_Uninstall_def raw_lock_def cleanResources_def clean_body_def defer_unlock_def IsZero_def)

lemma raw_Uninstall_unsynced_witness:
  "raw_Uninstall sample ZeroHash (raw1, world0) = (Ret (), (raw1, world0))"
  by (rule raw_Uninstall_unsynced) (simp add: raw1_def raw0_def)

subsection \<open>The life of a provider\<close>

text \<open>
  A provider is delivered and uninstalled by its application, its cleanup goroutine runs when it
  likes, and the deletion goroutines too. A step is one of these that returns.
\<close>

inductive raw_step :: "'e externals \<Rightarrow> raw_provider \<times> 'e world \<Rightarrow> raw_provider \<times> 'e world \<Rightarrow> bool" for X where
  deliver: "raw_Delivery X h s = (r, s') \<Longrightarrow> returns r \<Longrightarrow> raw_step X s s'"
| cleanup: "rp_cleanups (fst s) > 0 \<Longrightarrow> cleanup_goroutine X h s = (r, s') \<Longrightarrow> returns r \<Longrightarrow> raw_step X s s'"
| uninstall: "raw_Uninstall X h s = (r, s') \<Longrightarrow> returns r \<Longrightarrow> raw_step X s s'"
| task: "spawned w = ts @ t # us \<Longrightarrow> run_clean_task X t (w\<lparr>spawned := ts @ us\<rparr>) = (r, w') \<Longrightarrow>
    returns r \<Longrightarrow> raw_step X (p, w) (p, w')"

inductive raw_reachable :: "'e externals \<Rightarrow> string \<Rightarrow> string \<Rightarrow> raw_provider \<times> 'e world \<Rightarrow> bool" for X n ns where
  made: "NewRawProvider X K n path ns w = (Ret p, w') \<Longrightarrow> raw_reachable X n ns (p, w')"
| step: "raw_reachable X n ns s \<Longrightarrow> raw_step X s s' \<Longrightarrow> raw_reachable X n ns s'"

definition raw_named :: "string \<Rightarrow> string \<Rightarrow> raw_provider \<Rightarrow> bool" where
  "raw_named n ns p \<longleftrightarrow> raw_ok p \<and> rp_appName p = n \<and>
     rp_namespace p = (if ns = [] then ''default'' else ns)"

lemma raw_step_named:
  assumes "raw_step X s s'" and "raw_named n ns (fst s)"
  shows "raw_named n ns (fst s')"
  using assms(1)
proof (cases rule: raw_step.cases)
  case (deliver h r)
  obtain p w p' w' where s: "s = (p, w)" "s' = (p', w')" by (metis prod.exhaust)
  have "raw_Delivery X h (p, w) = (r, (p', w'))" using deliver(1) s by simp
  from keepsD_eq[OF raw_Delivery_keeps[of n "if ns = [] then ''default'' else ns" X h] this] assms(2) s
  show ?thesis unfolding raw_named_def by simp
next
  case (cleanup h r)
  obtain p w p' w' where s: "s = (p, w)" "s' = (p', w')" by (metis prod.exhaust)
  with cleanup assms(2) have ok: "raw_ok p" "rp_cleanups p = 1" by (auto simp: raw_named_def raw_ok_def)
  moreover have "raw_ok p'"
    using cleanup_goroutine_ok[OF ok] cleanup s by fastforce
  moreover have "rp_mutex p" using ok by (simp add: raw_ok_def)
  moreover have "rp_appName p' = rp_appName p" "rp_namespace p' = rp_namespace p"
    using cleanup_goroutine_names[of X h p w r p' w'] cleanup s \<open>rp_mutex p\<close> by simp_all
  ultimately show ?thesis using s assms(2) by (simp add: raw_named_def)
next
  case (uninstall h r)
  obtain p w p' w' where s: "s = (p, w)" "s' = (p', w')" by (metis prod.exhaust)
  with raw_Uninstall_ok(1)[of p X h w r p' w'] uninstall assms(2) show ?thesis
    by (cases r) (auto simp: raw_named_def)
qed (use assms(2) in simp)

text \<open>
  C10. Whatever the order of deliveries, uninstalls, cleanups and deletions, a provider keeps its
  name, namespace and labels, has at most one cleanup goroutine, and its mutex is locked exactly
  while that goroutine is outstanding.
\<close>

theorem raw_reachable_invariant:
  assumes "raw_reachable X n ns (p, w)"
  shows "rp_appName p = n \<and> rp_labels p app_label = Some n \<and>
    rp_namespace p = (if ns = [] then ''default'' else ns) \<and>
    rp_cleanups p \<le> 1 \<and> (rp_mutex p \<longleftrightarrow> rp_cleanups p = 1)"
proof -
  have "raw_named n ns (fst (p, w))"
    using assms
  proof (induction "(p, w)" arbitrary: p w rule: raw_reachable.induct)
    case (made path w p w')
    then show ?case using NewRawProvider_ok[OF made] by (simp add: raw_named_def)
  next
    case (step s)
    then show ?case using raw_step_named by (metis prod.collapse)
  qed
  then show ?thesis by (simp add: raw_named_def raw_ok_def)
qed

lemma raw0_made: "NewRawProvider sample rest0 ''a'' ''/r'' [] world0 = (Ret raw0, world0)"
  by (simp add: NewRawProvider_def raw0_def getResourceFiles_def raw1_files raw_files_found raw_files_read
      andthen_def attempt_def del: NewUnstructuredResources.simps)

theorem raw_reachable_invariant_witness:
  "\<exists>p w. raw_reachable sample ''a'' [] (p, w) \<and> rp_labels p revision_label = Some (s_hash_string 2) \<and>
     rp_labels p app_label = Some ''a''"
proof -
  have rs: "delivery_resources sample raw0 world0 = Ret [cm_resource ''c'']"
    by (simp add: delivery_resources_def raw0_def)
  from raw_Delivery_spec[OF sample_reads sample_writes rs, of 2] obtain p w where
    d: "raw_Delivery sample 2 (raw0, world0) = (Ret (), (p, w))"
    "rp_labels p = (rp_labels raw0)(revision_label \<mapsto> s_hash_string 2)" by auto
  have "raw_reachable sample ''a'' [] (p, w)"
    by (rule raw_reachable.step[OF raw_reachable.made[OF raw0_made] raw_step.deliver[OF d(1)]]) simp
  with raw_reachable_invariant[OF this] d(2) show ?thesis by auto
qed

subsection \<open>Manifest files in subdirectories\<close>

lemma wf_lookup: "lookup_node n p = Some m \<Longrightarrow> wf_node n \<Longrightarrow> wf_node m \<and> (\<forall>x\<in>set p. plain_comp x)"
proof (induction n p rule: lookup_node.induct)
  case (2 es x xs)
  then obtain n where n: "map_of es x = Some n" "lookup_node n xs = Some m" by (auto split: option.splits)
  then have "(x, n) \<in> set es" by (simp add: map_of_SomeD)
  with 2(3) have "plain_comp x" "wf_node n" by fastforce+
  with 2(1)[OF n(1,2)] show ?case by simp
qed auto

lemma lookup_node_append:
  "lookup_node n (p @ q) = (case lookup_node n p of None \<Rightarrow> None | Some m \<Rightarrow> lookup_node m q)"
  by (induction n p rule: lookup_node.induct) (auto split: option.split)

lemma found_names:
  assumes "wf_node (disk w)" and "lookup_node (disk w) (cs @ ds) = Some m" and "ds \<noteq> []"
    and "MatchString r (last ds)"
  shows "last ds \<in> set (FindFilesWithRegex (abs_path cs) (Some r) w)"
proof -
  from assms(2) obtain n where n: "lookup_node (disk w) cs = Some n" "lookup_node n ds = Some m"
    by (auto simp: lookup_node_append split: option.splits)
  from wf_lookup[OF n(1) assms(1)] have wf: "wf_node n" "\<forall>x\<in>set cs. plain_comp x" by auto
  have "last ds \<in> set (walk_names nm n)" for nm
    unfolding walk_names_set[OF wf(1)] using n(2) assms(3) by blast
  then show ?thesis
    using assms(4) by (simp add: FindFilesWithRegex_def path_comps_abs_path[OF wf(2)] n(1))
qed

text \<open>
  C40. Manifest files are looked up by base name: where a subdirectory of the application's path
  holds a YAML file and the path itself holds no file of that name, making the provider ends in a
  nil dereference, however healthy the cluster is.
\<close>

theorem nested_manifest_panics:
  assumes "wf_node (disk w)" and "lookup_node (disk w) (cs @ ds) = Some (File b)" and "ds \<noteq> []"
    and "MatchString yaml_regex (last ds)" and "\<forall>c. lookup_node (disk w) (cs @ [last ds]) \<noteq> Some (File c)"
    and "x_kube_client X K w = (Ret (), w)" and "x_dynamic_client X K w = (Ret (), w)"
    and "\<And>n. x_ns_get X n w = (Ret (), w)"
  shows "NewRawProvider X K appName (abs_path cs) ns w = (Panic NilDereference, w)"
proof -
  define files where "files = GetFilesFullPath (abs_path cs) (FindFilesWithRegex (abs_path cs) (Some yaml_regex) w)"
  have plain: "\<forall>x\<in>set (cs @ ds). plain_comp x" using wf_lookup[OF assms(2,1)] by simp
  then have pc: "\<forall>x\<in>set (cs @ [last ds]). plain_comp x" using assms(3) by auto
  have "Join [abs_path cs, last ds] = abs_path (cs @ [last ds])" using pc by (intro Join_abs_path) auto
  then have "abs_path (cs @ [last ds]) \<in> set files"
    unfolding files_def GetFilesFullPath_def set_map
    by (intro image_eqI[OF _ found_names[OF assms(1-4)]]) (rule sym)
  moreover have "ReadFile (abs_path (cs @ [last ds])) w = None"
    using assms(5) by (metis ReadFile_eq_Some path_comps_abs_path[OF pc] not_None_eq)
  ultimately have "NewUnstructuredResources X files w = (Panic NilDereference, w)" "files \<noteq> []"
    using NewUnstructuredResources_unreadable[of files w X] by (blast, auto)
  moreover have "getResourceFiles (abs_path cs) w = (Ret files, w)"
    by (simp add: getResourceFiles_def files_def)
  ultimately show ?thesis
    using assms(6-8) by (simp add: NewRawProvider_def Let_def)
qed

definition world_nested :: sample_world where
  "world_nested = world0\<lparr>disk := Dir [(''r'', Dir [(''d'', Dir [(''b.yaml'', File ''c'')])])]\<rparr>"

theorem nested_manifest_panics_witness:
  "NewRawProvider sample rest0 ''a'' (abs_path [''r'']) [] world_nested = (Panic NilDereference, world_nested)"
proof (rule nested_manifest_panics[where ds = "[''d'', ''b.yaml'']" and b = "''c''"])
  show "wf_node (disk world_nested)" by code_simp
  show "lookup_node (disk world_nested) ([''r''] @ [''d'', ''b.yaml'']) = Some (File ''c'')" by code_simp
  show "MatchString yaml_regex (last [''d'', ''b.yaml''])" by code_simp
  have "lookup_node (disk world_nested) ([''r''] @ [''b.yaml'']) = None" by code_simp
  then show "\<forall>c. lookup_node (disk world_nested) ([''r''] @ [last [''d'', ''b.yaml'']]) \<noteq> Some (File c)" by simp
qed simp_all

end
