(* ===== verification/HelmProvider.thy ===== *)
theory HelmProvider
  imports Externals
begin

section \<open>Delivery of Helm releases\<close>

text \<open>
  \<^verbatim>\<open>server/pkg/provider/helm.go\<close>. \<open>hp_appRevisionSet\<close> says whether the pointer
  \<^verbatim>\<open>appRevision\<close> is set: it is nil in the provider the server builds from a request, and every
  log line dereferences it. The revision it points to is an argument, as in the raw provider.
  Helm's configuration object has no state of its own here: its calls are externals. A method of
  the download manager, and \<^verbatim>\<open>getter.All\<close> of the settings, dereference their pointer.
\<close>

record helm_action_options =
  ho_CheckValuesEqual :: bool
  ho_ReInstallRelease :: bool
  ho_CreateNamespace :: bool
  ho_Atomic :: bool
  ho_IncludeCRDs :: bool
  ho_actionTimeout :: int

record helm_provider =
  hp_chart :: "chart option"
  hp_settings :: "helm_settings option"
  hp_manager :: "download_manager option"
  hp_ActionOptions :: helm_action_options
  hp_appRevisionSet :: bool
  hp_releaseName :: string
  hp_chartPath :: string
  hp_ValueFiles :: "string list"
  hp_chartValues :: yaml_value
  hp_namespace :: string

text \<open>\<^verbatim>\<open>360 * time.Second\<close>, in nanoseconds.\<close>

definition action_timeout :: int where
  "action_timeout = 360 * 1000000000"

text \<open>\<^verbatim>\<open>h.logWithFields().Error(err)\<close>: \<^verbatim>\<open>h.appRevision.String()\<close> panics on a nil pointer.\<close>

definition helm_log :: "(helm_provider \<times> 'w, unit) comp" where
  "helm_log s = (if hp_appRevisionSet (fst s) then (Ret (), s) else (Panic NilDereference, s))"

text \<open>\<^verbatim>\<open>if err != nil { h.logWithFields().Error(err); return err }\<close>.\<close>

definition helm_check :: "(helm_provider \<times> 'w, 'a) comp \<Rightarrow> (helm_provider \<times> 'w, 'a) comp" where
  "helm_check m =
     andthen (attempt m) (\<lambda>res.
       (case res of
          Inl err \<Rightarrow> andthen helm_log (\<lambda>_. failc err)
        | Inr x \<Rightarrow> ret x))"

text \<open>The dereference of a pointer.\<close>

definition deref :: "'a option \<Rightarrow> ('s, 'a) comp" where
  [comp_defs]: "deref ptr = (case ptr of None \<Rightarrow> panicc NilDereference | Some x \<Rightarrow> ret x)"

subsection \<open>Construction\<close>

definition NewHelmKubernetesConfig :: "rest_config \<Rightarrow> string \<Rightarrow> config_flags" where
  "NewHelmKubernetesConfig restKubeConfig namespace =
     \<lparr>cf_APIServer = rcfg_Host restKubeConfig,
      cf_BearerToken = rcfg_BearerToken restKubeConfig,
      cf_CAFile = rcfg_CAFile restKubeConfig,
      cf_CertFile = rcfg_CertFile restKubeConfig,
      cf_KeyFile = rcfg_KeyFile restKubeConfig,
      cf_Namespace = namespace,
      cf_Insecure = rcfg_Insecure restKubeConfig\<rparr>"

text \<open>\<^verbatim>\<open>cli.New()\<close> with the fields the program sets.\<close>

definition NewHelmSettings :: "string \<Rightarrow> ('e world, helm_settings) comp" where
  "NewHelmSettings namespace =
     andthen deref_home (\<lambda>hm.
       ret \<lparr>hs_Debug = True, hs_Namespace = namespace,
            hs_RepositoryCache = Join [hm, ''.cache'', ''helm'', ''repository'']\<rparr>)"

text \<open>The function returns the manager also when its \<^verbatim>\<open>Update\<close> fails.\<close>

definition NewHelmManager ::
    "'e externals \<Rightarrow> string \<Rightarrow> helm_settings \<Rightarrow> ('e world, download_manager \<times> error option) comp" where
  "NewHelmManager X chartPath settings =
     (let manager = \<lparr>dm_ChartPath = chartPath, dm_Debug = x_helmDebug X, dm_Getters = settings,
                     dm_RepositoryCache = hs_RepositoryCache settings\<rparr>
      in andthen (attempt (x_manager_update X manager)) (\<lambda>res.
           ret (manager, case res of Inl err \<Rightarrow> Some err | Inr _ \<Rightarrow> None)))"

definition NewHelmChart ::
    "'e externals \<Rightarrow> download_manager option \<Rightarrow> string \<Rightarrow> ('e world, chart) comp" where
  "NewHelmChart X manager chartPath =
     andthen (deref manager) (\<lambda>m.
     andthen (x_manager_update X m) (\<lambda>_. x_chart_load X chartPath))"

definition NewHelmChartValues ::
    "'e externals \<Rightarrow> helm_settings option \<Rightarrow> string list \<Rightarrow> ('e world, yaml_value) comp" where
  "NewHelmChartValues X settings valueFiles =
     andthen (deref settings) (\<lambda>st. x_merge_values X st valueFiles)"

text \<open>\<^verbatim>\<open>NewHelmProvider\<close> fills in the provider it is given.\<close>

definition NewHelmProvider ::
    "'e externals \<Rightarrow> rest_config \<Rightarrow> string \<Rightarrow> string \<Rightarrow> string \<Rightarrow> (helm_provider \<times> 'e world, unit) comp" where
  "NewHelmProvider X restKubeConfig releaseName chartPath namespace =
     andthen (on_obj (modify (\<lambda>h. h\<lparr>hp_releaseName := releaseName, hp_chartPath := chartPath,
         hp_namespace := namespace,
         hp_ActionOptions := (hp_ActionOptions h)\<lparr>ho_actionTimeout := action_timeout\<rparr>\<rparr>))) (\<lambda>_.
     andthen (on_world (NewHelmSettings namespace)) (\<lambda>settings.
     andthen (on_obj (modify (\<lambda>h. h\<lparr>hp_settings := Some (settings\<lparr>hs_Namespace := namespace\<rparr>)\<rparr>))) (\<lambda>_.
     andthen (on_world (NewHelmManager X chartPath (settings\<lparr>hs_Namespace := namespace\<rparr>))) (\<lambda>(manager, err).
     andthen (on_obj (modify (\<lambda>h. h\<lparr>hp_manager := Some manager\<rparr>))) (\<lambda>_.
     andthen (helm_check (case err of Some e \<Rightarrow> failc e | None \<Rightarrow> ret ())) (\<lambda>_.
     andthen (helm_check (on_world
       (x_cfg_init X (NewHelmKubernetesConfig restKubeConfig namespace) namespace))) (\<lambda>_.
     andthen (on_obj (modify (\<lambda>h. h\<lparr>hp_appRevisionSet := True,
         hp_ValueFiles := GetFilesFullPath (hp_chartPath h) (hp_ValueFiles h)\<rparr>))) (\<lambda>_.
     andthen (attempt (on_world (NewHelmChart X (Some manager) chartPath))) (\<lambda>res.
       (case res of
          Inl err \<Rightarrow>
            andthen (on_obj (modify (\<lambda>h. h\<lparr>hp_chart := None\<rparr>))) (\<lambda>_.
            andthen helm_log (\<lambda>_. failc err))
        | Inr ch \<Rightarrow> on_obj (modify (\<lambda>h. h\<lparr>hp_chart := Some ch\<rparr>))))))))))))"

subsection \<open>Actions\<close>

definition loadHelmChartWithValues ::
    "'e externals \<Rightarrow> hash \<Rightarrow> (helm_provider \<times> 'e world, unit) comp" where
  "loadHelmChartWithValues X revision =
     andthen (gets fst) (\<lambda>h.
     andthen (deref (hp_manager h)) (\<lambda>manager.
     andthen (helm_check (on_world (x_manager_update X manager))) (\<lambda>_.
     andthen (attempt (on_world (x_chart_load X (hp_chartPath h)))) (\<lambda>loaded.
       (case loaded of
          Inl err \<Rightarrow>
            andthen (on_obj (modify (\<lambda>h. h\<lparr>hp_chart := None\<rparr>))) (\<lambda>_.
            andthen helm_log (\<lambda>_. failc err))
        | Inr ch \<Rightarrow>
            andthen (on_obj (modify (\<lambda>h. h\<lparr>hp_chart := Some ch\<rparr>))) (\<lambda>_.
            andthen (attempt (on_world (NewHelmChartValues X (hp_settings h) (hp_ValueFiles h)))) (\<lambda>merged.
              (case merged of
                 Inl err \<Rightarrow>
                   andthen (on_obj (modify (\<lambda>h. h\<lparr>hp_chartValues := YNull\<rparr>))) (\<lambda>_.
                   andthen helm_log (\<lambda>_. failc err))
               | Inr vs \<Rightarrow>
                   on_obj (modify (\<lambda>h. h\<lparr>hp_chartValues := vs,
                     hp_chart := Some (ch\<lparr>ch_Description := x_hash_string X revision\<rparr>)\<rparr>))))))))))"

definition install_action :: "helm_provider \<Rightarrow> string \<Rightarrow> install_options" where
  "install_action h description =
     \<lparr>in_ReleaseName = hp_releaseName h, in_Namespace = hp_namespace h, in_Wait = True,
      in_Timeout = ho_actionTimeout (hp_ActionOptions h), in_DependencyUpdate = True,
      in_CreateNamespace = ho_CreateNamespace (hp_ActionOptions h),
      in_IncludeCRDs = ho_IncludeCRDs (hp_ActionOptions h),
      in_Atomic = ho_Atomic (hp_ActionOptions h), in_Description = description\<rparr>"

definition upgrade_action :: "helm_provider \<Rightarrow> string \<Rightarrow> upgrade_options" where
  "upgrade_action h description =
     \<lparr>up_Namespace = hp_namespace h, up_Install = True, up_CleanupOnFail = True,
      up_Timeout = ho_actionTimeout (hp_ActionOptions h),
      up_SkipCRDs = (\<not> ho_IncludeCRDs (hp_ActionOptions h)), up_Wait = True,
      up_Atomic = ho_Atomic (hp_ActionOptions h), up_DependencyUpdate = True,
      up_Recreate = False, up_Description = description\<rparr>"

definition uninstall_action :: "helm_provider \<Rightarrow> uninstall_options" where
  "uninstall_action h =
     \<lparr>un_Timeout = ho_actionTimeout (hp_ActionOptions h), un_Wait = True, un_KeepHistory = False\<rparr>"

definition helm_install :: "'e externals \<Rightarrow> hash \<Rightarrow> (helm_provider \<times> 'e world, unit) comp" where
  "helm_install X revision =
     andthen (gets fst) (\<lambda>h.
       helm_check (on_world
         (x_install X (install_action h (x_hash_string X revision)) (hp_chart h) (hp_chartValues h))))"

definition helm_upgrade :: "'e externals \<Rightarrow> hash \<Rightarrow> (helm_provider \<times> 'e world, unit) comp" where
  "helm_upgrade X revision =
     andthen (gets fst) (\<lambda>h.
       helm_check (on_world
         (x_upgrade X (upgrade_action h (x_hash_string X revision)) (hp_releaseName h)
            (hp_chart h) (hp_chartValues h))))"

definition helm_Uninstall :: "'e externals \<Rightarrow> (helm_provider \<times> 'e world, unit) comp" where
  "helm_Uninstall X =
     andthen (gets fst) (\<lambda>h.
       helm_check (on_world (x_uninstall X (uninstall_action h) (hp_releaseName h))))"

definition getCurrentRelease :: "'e externals \<Rightarrow> (helm_provider \<times> 'e world, release option) comp" where
  "getCurrentRelease X =
     andthen (gets fst) (\<lambda>h.
     andthen (on_world (x_release_list X \<lparr>lo_All = True, lo_ListAll = True\<rparr>)) (\<lambda>allReleaseList.
       ret (List.find (\<lambda>r. rel_Name r = hp_releaseName h) allReleaseList)))"

subsection \<open>Delivery\<close>

definition helm_Delivery :: "'e externals \<Rightarrow> hash \<Rightarrow> (helm_provider \<times> 'e world, unit) comp" where
  "helm_Delivery X revision =
     andthen (helm_check (getCurrentRelease X)) (\<lambda>currentRelease.
     andthen (helm_check (loadHelmChartWithValues X revision)) (\<lambda>_.
       (case currentRelease of
          None \<Rightarrow> helm_check (helm_install X revision)
        | Some cur \<Rightarrow>
            andthen (gets fst) (\<lambda>h.
            andthen (attempt (on_world (NewHelmChartValues X (hp_settings h) (hp_ValueFiles h)))) (\<lambda>merged.
              (case merged of
                 Inl err \<Rightarrow>
                   andthen (on_obj (modify (\<lambda>h. h\<lparr>hp_chartValues := YNull\<rparr>))) (\<lambda>_.
                   andthen helm_log (\<lambda>_. failc err))
               | Inr vs \<Rightarrow>
                   andthen (on_obj (modify (\<lambda>h. h\<lparr>hp_chartValues := vs\<rparr>))) (\<lambda>_.
                     if ch_Description (rel_Chart cur) = x_hash_string X revision then ret ()
                     else if ho_CheckValuesEqual (hp_ActionOptions h) \<and> ch_Values (rel_Chart cur) = vs
                     then ret ()
                     else if ho_ReInstallRelease (hp_ActionOptions h) then
                       andthen (helm_check (helm_Uninstall X)) (\<lambda>_.
                         helm_check (helm_install X revision))
                     else helm_check (helm_upgrade X revision))))))))"

end
