(* ===== verification/HelmProofs.thy ===== *)
theory HelmProofs
  imports HelmProvider
begin

section \<open>Correctness of the Helm provider\<close>

text \<open>
  Which action one delivery takes, as a plan computed from the current release, the options and
  the values; what the operations leave alone; and what a construction gives.
\<close>

subsection \<open>Logging and error checks\<close>

lemma helm_log_set [simp]: "hp_appRevisionSet h \<Longrightarrow> helm_log (h, w) = (Ret (), (h, w))"
  and helm_log_unset [simp]: "\<not> hp_appRevisionSet h \<Longrightarrow> helm_log (h, w) = (Panic NilDereference, (h, w))"
  by (simp_all add: helm_log_def)

lemma helm_check_Ret [simp]: "m s = (Ret a, s') \<Longrightarrow> helm_check m s = (Ret a, s')"
  by (simp add: helm_check_def)

lemma helm_check_Fail [simp]:
  "m s = (Fail e, (h, w)) \<Longrightarrow> hp_appRevisionSet h \<Longrightarrow> helm_check m s = (Fail e, (h, w))"
  by (simp add: helm_check_def)

lemma helm_check_Fail_unset [simp]:
  "m s = (Fail e, (h, w)) \<Longrightarrow> \<not> hp_appRevisionSet h \<Longrightarrow>
     helm_check m s = (Panic NilDereference, (h, w))"
  by (simp add: helm_check_def)

lemma helm_check_eq_Ret: "helm_check m s = (Ret a, t) \<longleftrightarrow> m s = (Ret a, t)"
  by (cases s, cases "m s")
    (auto simp: helm_check_def andthen_def attempt_def helm_log_def split: res.splits)

lemma keeps_helm_log [keeps_intros]: "keeps P helm_log"
  by (simp add: keeps_def helm_log_def)

lemma keeps_helm_check [keeps_intros]: "keeps P m \<Longrightarrow> keeps P (helm_check m)"
  unfolding helm_check_def by (intro keeps_intros)

lemma keeps_deref [keeps_intros]: "keeps P (deref ptr)"
  by (cases ptr) (simp_all add: keeps_def deref_def comp_defs)

lemma fail_if_eq_Ret:
  "(case err of None \<Rightarrow> ret () | Some e \<Rightarrow> failc e) s = (Ret (), t) \<longleftrightarrow> err = None \<and> t = s"
  by (cases err) (auto simp: comp_defs)

lemma keeps_helm_modify: "(\<And>h. P h \<Longrightarrow> P (f h)) \<Longrightarrow> keeps (\<lambda>(h, w). P h) (on_obj (modify f))"
  by (intro keeps_on_obj keeps_modify)

subsection \<open>What the operations leave alone\<close>

text \<open>The part of a provider that identifies it: everything but the chart and the values it loaded.\<close>

definition helm_identity :: "helm_provider \<Rightarrow> helm_provider" where
  "helm_identity h = h\<lparr>hp_chart := None, hp_chartValues := YNull\<rparr>"

lemma helm_identity_simps [simp]:
  "helm_identity (h\<lparr>hp_chart := c\<rparr>) = helm_identity h"
  "helm_identity (h\<lparr>hp_chartValues := v\<rparr>) = helm_identity h"
  by (simp_all add: helm_identity_def)

lemmas helm_defs = loadHelmChartWithValues_def helm_install_def helm_upgrade_def helm_Uninstall_def
  getCurrentRelease_def

lemma helm_Uninstall_keeps: "keeps (\<lambda>(h, w). helm_identity h = i) (helm_Uninstall X)"
  unfolding helm_defs by (intro keeps_intros keeps_helm_modify)

lemma loadHelmChartWithValues_keeps: "keeps (\<lambda>(h, w). helm_identity h = i) (loadHelmChartWithValues X revision)"
  unfolding helm_defs by (intro keeps_intros keeps_helm_modify) simp_all

lemma helm_Delivery_keeps: "keeps (\<lambda>(h, w). helm_identity h = i) (helm_Delivery X revision)"
  unfolding helm_Delivery_def helm_defs
  by (intro keeps_intros keeps_helm_modify) simp_all

subsection \<open>The plan of a delivery\<close>

datatype helm_step = InstallStep | UninstallStep | UpgradeStep

definition helm_plan :: "helm_action_options \<Rightarrow> string \<Rightarrow> yaml_value \<Rightarrow> release option \<Rightarrow> helm_step list" where
  "helm_plan opts revision vs current =
     (case current of
        None \<Rightarrow> [InstallStep]
      | Some cur \<Rightarrow>
          if ch_Description (rel_Chart cur) = revision then []
          else if ho_CheckValuesEqual opts \<and> ch_Values (rel_Chart cur) = vs then []
          else if ho_ReInstallRelease opts then [UninstallStep, InstallStep]
          else [UpgradeStep])"

fun helm_perform :: "'e externals \<Rightarrow> hash \<Rightarrow> helm_step \<Rightarrow> (helm_provider \<times> 'e world, unit) comp" where
  "helm_perform X revision InstallStep = helm_install X revision"
| "helm_perform X revision UninstallStep = helm_Uninstall X"
| "helm_perform X revision UpgradeStep = helm_upgrade X revision"

text \<open>The calls that only read: list, chart and values.\<close>

definition helm_reads :: "'e externals \<Rightarrow> release list \<Rightarrow> chart \<Rightarrow> yaml_value \<Rightarrow> helm_provider \<Rightarrow> 'e world \<Rightarrow> bool" where
  "helm_reads X rels ch vs h w \<longleftrightarrow>
     x_release_list X \<lparr>lo_All = True, lo_ListAll = True\<rparr> w = (Ret rels, w) \<and>
     (\<exists>m. hp_manager h = Some m \<and> x_manager_update X m w = (Ret (), w)) \<and>
     x_chart_load X (hp_chartPath h) w = (Ret ch, w) \<and>
     (\<exists>st. hp_settings h = Some st \<and> x_merge_values X st (hp_ValueFiles h) w = (Ret vs, w))"

lemma helm_check_step:
  assumes "hp_appRevisionSet (fst s)" and "keeps (\<lambda>(h, w). hp_appRevisionSet h) m"
  shows "helm_check m s = m s"
proof -
  obtain r h w where m: "m s = (r, (h, w))" by (metis prod.exhaust)
  then have "hp_appRevisionSet h"
    using keepsD_eq[OF assms(2) m] assms(1) by (cases s) simp
  with m show ?thesis by (cases r) (simp_all add: helm_check_def)
qed

lemma helm_step_keeps_set: "keeps (\<lambda>(h, w). hp_appRevisionSet h) (helm_perform X revision st)"
  by (cases st) (auto simp: helm_defs intro!: keeps_intros)

lemma helm_perform_check:
  "hp_appRevisionSet h \<Longrightarrow> helm_check (helm_perform X revision st) (h, w) = helm_perform X revision st (h, w)"
  by (rule helm_check_step[OF _ helm_step_keeps_set]) simp

lemma helm_Delivery_plan:
  assumes set: "hp_appRevisionSet h" and reads: "helm_reads X rels ch vs h w"
  shows "helm_Delivery X revision (h, w) =
    for_each (helm_perform X revision)
      (helm_plan (hp_ActionOptions h) (x_hash_string X revision) vs
        (List.find (\<lambda>r. rel_Name r = hp_releaseName h) rels))
      (h\<lparr>hp_chart := Some (ch\<lparr>ch_Description := x_hash_string X revision\<rparr>), hp_chartValues := vs\<rparr>, w)"
    (is "_ = for_each _ (helm_plan _ _ _ ?cur) (?h, w)")
proof -
  have cur: "getCurrentRelease X (h, w) = (Ret ?cur, (h, w))"
    using reads by (simp add: getCurrentRelease_def helm_reads_def)
  have load: "loadHelmChartWithValues X revision (h, w) = (Ret (), (?h, w))"
    using reads
    by (auto simp: loadHelmChartWithValues_def helm_reads_def NewHelmChartValues_def deref_def)
  have vs: "NewHelmChartValues X (hp_settings ?h) (hp_ValueFiles ?h) w = (Ret vs, w)"
    using reads by (auto simp: helm_reads_def NewHelmChartValues_def deref_def)
  have set': "hp_appRevisionSet ?h" using set by simp
  note check = helm_perform_check[OF set', of X revision InstallStep w, unfolded helm_perform.simps]
    helm_perform_check[OF set', of X revision UninstallStep w, unfolded helm_perform.simps]
    helm_perform_check[OF set', of X revision UpgradeStep w, unfolded helm_perform.simps]
  have reinstall: "andthen (helm_check (helm_Uninstall X)) (\<lambda>_. helm_check (helm_install X revision)) (?h, w) =
      andthen (helm_Uninstall X) (\<lambda>_. helm_install X revision) (?h, w)"
  proof -
    obtain r h1 w1 where u: "helm_Uninstall X (?h, w) = (r, (h1, w1))" by (metis prod.exhaust)
    then have "hp_appRevisionSet h1"
      using keepsD_eq[OF helm_step_keeps_set[of X revision UninstallStep, unfolded helm_perform.simps] u] set'
      by simp
    then have "helm_check (helm_install X revision) (h1, w1) = helm_install X revision (h1, w1)"
      using helm_perform_check[of h1 X revision InstallStep w1] by simp
    then show ?thesis using check(2) u by (simp add: andthen_def split: res.split)
  qed
  show ?thesis
  proof (cases ?cur)
    case None
    then show ?thesis using cur load check by (simp add: helm_Delivery_def helm_plan_def)
  next
    case (Some c)
    then show ?thesis
      using cur load check vs reinstall
      by (simp add: helm_Delivery_def helm_plan_def)
  qed
qed

subsection \<open>Construction\<close>

lemma on_world_eq_Ret: "(case p of (r, w) \<Rightarrow> (r, (h, w))) = (Ret a, t) \<longleftrightarrow> p = (Ret a, snd t) \<and> fst t = h"
  by (cases p, cases t) auto

lemma failed_or_eq_Ret:
  "(case res of Inl e \<Rightarrow> andthen m (\<lambda>_. andthen n (\<lambda>_. failc e)) | Inr x \<Rightarrow> f x) s = (Ret a, t) \<longleftrightarrow>
     (\<exists>x. res = Inr x \<and> f x s = (Ret a, t))"
  by (cases res) (auto simp: andthen_eq_Ret comp_defs)

lemma NewHelmProvider_Ret:
  assumes "NewHelmProvider X K releaseName chartPath namespace (h, w) = (Ret (), (h', w'))"
  shows "\<exists>st m ch. h' = h\<lparr>hp_releaseName := releaseName, hp_chartPath := chartPath, hp_namespace := namespace,
    hp_ActionOptions := hp_ActionOptions h\<lparr>ho_actionTimeout := action_timeout\<rparr>,
    hp_settings := Some st, hp_manager := Some m, hp_appRevisionSet := True,
    hp_ValueFiles := GetFilesFullPath chartPath (hp_ValueFiles h), hp_chart := Some ch\<rparr>"
  using assms
  by (auto simp: NewHelmProvider_def helm_check_eq_Ret fail_if_eq_Ret on_world_eq_Ret failed_or_eq_Ret comp_inv)

lemma NewHelmProvider_ready:
  assumes "NewHelmProvider X K releaseName chartPath namespace (h, w) = (Ret (), (h', w'))"
  shows "hp_appRevisionSet h'" and "hp_releaseName h' = releaseName" and "hp_namespace h' = namespace"
    and "hp_chart h' \<noteq> None" and "hp_settings h' \<noteq> None" and "hp_manager h' \<noteq> None"
    and "ho_actionTimeout (hp_ActionOptions h') = action_timeout"
    and "hp_ValueFiles h' = GetFilesFullPath chartPath (hp_ValueFiles h)"
  using NewHelmProvider_Ret[OF assms] by auto

end
