(* ===== verification/HelmProps.thy ===== *)
theory HelmProps
  imports HelmProofs Sample
begin

section \<open>Properties of the Helm provider\<close>

subsection \<open>Delivery\<close>

text \<open>
  C8. A delivery is its plan: where listing the releases and loading the chart and its values
  succeed, it runs the steps \<open>helm_plan\<close> chooses from the current release (install; nothing; uninstall
  and install; upgrade) on the chart marked with the revision, and ends as they end.
\<close>

theorem helm_Delivery_refines_plan:
  assumes "hp_appRevisionSet h" and "helm_reads X rels ch vs h w"
  shows "helm_Delivery X revision (h, w) =
    for_each (helm_perform X revision)
      (helm_plan (hp_ActionOptions h) (x_hash_string X revision) vs
        (List.find (\<lambda>r. rel_Name r = hp_releaseName h) rels))
      (h\<lparr>hp_chart := Some (ch\<lparr>ch_Description := x_hash_string X revision\<rparr>), hp_chartValues := vs\<rparr>, w)"
  by (rule helm_Delivery_plan[OF assms])

definition st0 :: helm_settings where
  "st0 = \<lparr>hs_Debug = True, hs_Namespace = ''default'', hs_RepositoryCache = ''/root/.cache/helm/repository''\<rparr>"

definition dm0 :: download_manager where
  "dm0 = \<lparr>dm_ChartPath = ''/c'', dm_Debug = True, dm_Getters = st0, dm_RepositoryCache = hs_RepositoryCache st0\<rparr>"

definition helm0 :: helm_provider where
  "helm0 = \<lparr>hp_chart = None,
     hp_settings = Some st0, hp_manager = Some dm0,
     hp_ActionOptions = \<lparr>ho_CheckValuesEqual = False, ho_ReInstallRelease = False, ho_CreateNamespace = True,
       ho_Atomic = True, ho_IncludeCRDs = True, ho_actionTimeout = action_timeout\<rparr>,
     hp_appRevisionSet = True, hp_releaseName = ''a'', hp_chartPath = ''/c'', hp_ValueFiles = [],
     hp_chartValues = YNull, hp_namespace = ''default''\<rparr>"

definition helm_world :: sample_world where
  "helm_world = \<lparr>home = Some ''/root'', disk = Dir [], spawned = [],
     ext = \<lparr>sx_objs = [], sx_releases = [], sx_history = [], sx_local = 0, sx_remote = 0, sx_upstream = 0\<rparr>\<rparr>"

lemma sample_helm_reads:
  "hp_settings h = Some st \<Longrightarrow> hp_manager h = Some m \<Longrightarrow>
     helm_reads sample (sx_releases (ext w)) s_chart (YMap []) h w"
  by (simp add: helm_reads_def sample_def)

theorem helm_Delivery_refines_plan_witness:
  "\<exists>h' w'. helm_Delivery sample 1 (helm0, helm_world) = (Ret (), (h', w')) \<and>
     map rel_Name (sx_releases (ext w')) = [''a'']"
proof -
  have set: "hp_appRevisionSet helm0" by (simp add: helm0_def)
  have reads: "helm_reads sample (sx_releases (ext helm_world)) s_chart (YMap []) helm0 helm_world"
    by (rule sample_helm_reads) (simp_all add: helm0_def)
  have plan: "helm_plan (hp_ActionOptions helm0) (x_hash_string sample 1) (YMap [])
      (List.find (\<lambda>r. rel_Name r = hp_releaseName helm0) (sx_releases (ext helm_world))) = [InstallStep]"
    by (simp add: helm_plan_def helm_world_def)
  show ?thesis
    unfolding helm_Delivery_refines_plan[OF set reads] plan
    by (simp add: helm_install_def install_action_def sample_def s_install_def helm0_def helm_world_def)
qed

text \<open>
  Documented behaviour of Helm: a successful install or upgrade records, under the release's name,
  a release that carries the description of the chart it was given.
\<close>

definition records_release :: "'e externals \<Rightarrow> string \<Rightarrow> string \<Rightarrow> 'e world \<Rightarrow> bool" where
  "records_release X name description w \<longleftrightarrow>
     (\<forall>rels v. x_release_list X \<lparr>lo_All = True, lo_ListAll = True\<rparr> w = (Ret rels, v) \<longrightarrow>
        (\<exists>r. List.find (\<lambda>r. rel_Name r = name) rels = Some r \<and> ch_Description (rel_Chart r) = description))"

definition helm_records :: "'e externals \<Rightarrow> bool" where
  "helm_records X \<longleftrightarrow>
     (\<forall>opts c vs w w'. x_install X opts (Some c) vs w = (Ret (), w') \<longrightarrow>
        records_release X (in_ReleaseName opts) (ch_Description c) w') \<and>
     (\<forall>opts name c vs w w'. x_upgrade X opts name (Some c) vs w = (Ret (), w') \<longrightarrow>
        records_release X name (ch_Description c) w')"

lemma helm_install_records:
  assumes "helm_records X" and "helm_install X revision (h, w) = (Ret (), (h', w'))" and "hp_chart h = Some c"
  shows "h' = h \<and> records_release X (hp_releaseName h) (ch_Description c) w'"
  using assms
proof -
  from assms(2,3) have i: "x_install X (install_action h (x_hash_string X revision)) (Some c) (hp_chartValues h) w = (Ret (), w')"
    and "h' = h" by (auto simp: helm_install_def helm_check_eq_Ret split: prod.splits)
  moreover have "in_ReleaseName (install_action h (x_hash_string X revision)) = hp_releaseName h"
    by (simp add: install_action_def)
  ultimately show ?thesis using assms(1) unfolding helm_records_def by metis
qed

lemma helm_upgrade_records:
  assumes "helm_records X" and "helm_upgrade X revision (h, w) = (Ret (), (h', w'))" and "hp_chart h = Some c"
  shows "h' = h \<and> records_release X (hp_releaseName h) (ch_Description c) w'"
  using assms
  by (auto simp: helm_upgrade_def helm_check_eq_Ret helm_records_def split: prod.splits)

lemma helm_Uninstall_provider:
  "helm_Uninstall X (h, w) = (Ret (), (h', w')) \<Longrightarrow> h' = h"
  by (auto simp: helm_Uninstall_def helm_check_eq_Ret split: prod.splits)

lemma helm_plan_records:
  assumes "helm_records X" and "hp_chart h = Some c" and "ch_Description c = revision"
    and "helm_plan opts revision vs cur \<noteq> []"
    and "for_each (helm_perform X r) (helm_plan opts revision vs cur) (h, w) = (Ret (), (h', w'))"
  shows "h' = h \<and> records_release X (hp_releaseName h) revision w'"
proof -
  note one = helm_install_records[OF assms(1) _ assms(2)] helm_upgrade_records[OF assms(1) _ assms(2)]
  consider "helm_plan opts revision vs cur = [InstallStep]"
    | "helm_plan opts revision vs cur = [UninstallStep, InstallStep]"
    | "helm_plan opts revision vs cur = [UpgradeStep]"
    using assms(4) unfolding helm_plan_def by (auto split: option.splits if_splits)
  then show ?thesis
  proof cases
    case 2
    with assms(5) obtain h1 w1 where "helm_Uninstall X (h, w) = (Ret (), (h1, w1))"
      "helm_install X r (h1, w1) = (Ret (), (h', w'))"
      by (auto simp: andthen_eq_Ret)
    with one assms(3) show ?thesis using helm_Uninstall_provider by metis
  qed (use assms(3,5) one in \<open>auto simp: andthen_eq_Ret\<close>)
qed

text \<open>
  Delivering a revision twice changes the releases once: when a delivery has succeeded, a
  second one of the same revision changes nothing outside the provider, whatever the first one did.
\<close>

lemma helm_Delivery_repeated:
  assumes "hp_appRevisionSet h" and "helm_reads X rels ch vs h w" and "helm_records X"
    and "helm_Delivery X revision (h, w) = (Ret (), (h1, w1))"
    and "helm_reads X rels1 ch1 vs1 h1 w1"
  shows "\<exists>h2. helm_Delivery X revision (h1, w1) = (Ret (), (h2, w1))"
proof -
  let ?rv = "x_hash_string X revision"
  let ?cur = "List.find (\<lambda>r. rel_Name r = hp_releaseName h) rels"
  let ?cur1 = "List.find (\<lambda>r. rel_Name r = hp_releaseName h1) rels1"
  define c where "c = ch\<lparr>ch_Description := ?rv\<rparr>"
  define g where "g = h\<lparr>hp_chart := Some c, hp_chartValues := vs\<rparr>"
  have run: "for_each (helm_perform X revision) (helm_plan (hp_ActionOptions h) ?rv vs ?cur) (g, w) = (Ret (), (h1, w1))"
    using assms(4) helm_Delivery_plan[OF assms(1,2), of revision] by (simp add: g_def c_def)
  have "helm_plan (hp_ActionOptions h1) ?rv vs1 ?cur1 = [] \<and> hp_appRevisionSet h1"
  proof (cases "helm_plan (hp_ActionOptions h) ?rv vs ?cur = []")
    case True
    with run have e: "h1 = g" "w1 = w" by simp_all
    with assms(2,5) have "rels1 = rels" "vs1 = vs" by (auto simp: helm_reads_def g_def)
    with True e assms(1) show ?thesis by (simp add: g_def)
  next
    case False
    from helm_plan_records[OF assms(3) _ _ False run, of c]
    have e: "h1 = g" "records_release X (hp_releaseName g) ?rv w1" by (simp_all add: g_def c_def)
    with assms(5) have "\<exists>r. ?cur1 = Some r \<and> ch_Description (rel_Chart r) = ?rv"
      by (simp add: records_release_def helm_reads_def g_def)
    with e assms(1) show ?thesis by (auto simp: helm_plan_def g_def)
  qed
  then show ?thesis
    using helm_Delivery_plan[OF _ assms(5), of revision] by auto
qed

lemma sample_helm_records: "helm_records sample"
  by (auto simp: helm_records_def records_release_def sample_def s_install_def)

lemma helm_Delivery_repeated_witness:
  "\<exists>h1 w1 h2. helm_Delivery sample 1 (helm0, helm_world) = (Ret (), (h1, w1)) \<and>
     helm_Delivery sample 1 (h1, w1) = (Ret (), (h2, w1)) \<and> length (sx_releases (ext w1)) = 1"
proof -
  have set: "hp_appRevisionSet helm0" by (simp add: helm0_def)
  have reads: "helm_reads sample (sx_releases (ext helm_world)) s_chart (YMap []) helm0 helm_world"
    by (rule sample_helm_reads) (simp_all add: helm0_def)
  have plan: "helm_plan (hp_ActionOptions helm0) (x_hash_string sample 1) (YMap [])
      (List.find (\<lambda>r. rel_Name r = hp_releaseName helm0) (sx_releases (ext helm_world))) = [InstallStep]"
    by (simp add: helm_plan_def helm_world_def)
  obtain h1 w1 where d: "helm_Delivery sample 1 (helm0, helm_world) = (Ret (), (h1, w1))"
      "length (sx_releases (ext w1)) = 1" "hp_settings h1 = Some st0" "hp_manager h1 = Some dm0"
    unfolding helm_Delivery_plan[OF set reads] plan
    by (simp add: helm_install_def install_action_def sample_def s_install_def helm0_def helm_world_def)
  from helm_Delivery_repeated[OF set reads sample_helm_records d(1) sample_helm_reads[OF d(3,4)]] d
  show ?thesis by blast
qed

subsection \<open>Construction\<close>

text \<open>
  A provider built from a request has no revision pointer yet, so a failing download of the
  chart's dependencies does not come back as an error: logging it dereferences the nil pointer.
\<close>

lemma NewHelmProvider_failure_panics:
  assumes "\<not> hp_appRevisionSet h" and "home w = Some hm"
    and "\<forall>m. dm_ChartPath m = chartPath \<longrightarrow> x_manager_update X m w = (Fail e, w')"
  shows "fst (NewHelmProvider X K releaseName chartPath namespace (h, w)) = Panic NilDereference"
  using assms
  by (simp add: NewHelmProvider_def NewHelmSettings_def deref_home_def GetUserHome_def NewHelmManager_def andthen_def
      Let_def)

definition sample_broken :: "sample_ext externals" where
  "sample_broken = sample\<lparr>x_manager_update := (\<lambda>m. failc (OtherError ''update''))\<rparr>"

lemma NewHelmProvider_failure_panics_witness:
  "fst (NewHelmProvider sample_broken rest0 ''a'' ''/c'' ''default'' (helm0\<lparr>hp_appRevisionSet := False\<rparr>, helm_world))
     = Panic NilDereference"
  by (rule NewHelmProvider_failure_panics[where hm = "''/root''" and e = "OtherError ''update''" and w' = helm_world])
    (simp_all add: helm_world_def sample_broken_def)

end
