(* ===== verification/Provider.thy ===== *)
theory Provider
  imports RawProofs HelmProofs
begin

section \<open>The interface DeliveryProvider\<close>

text \<open>
  \<^verbatim>\<open>server/pkg/provider/interface.go\<close>: an application holds one of the two providers and calls
  it through the interface. The locale states what both promise to the application, and is
  interpreted on each of them and on the dispatching operations.
\<close>

datatype delivery_provider = Raw raw_provider | Helm helm_provider

text \<open>A call on the object inside an interface value.\<close>

definition on_raw :: "(raw_provider \<times> 'w, 'a) comp \<Rightarrow> raw_provider \<Rightarrow> 'w \<Rightarrow> 'a res \<times> (delivery_provider \<times> 'w)" where
  "on_raw m p w = (case m (p, w) of (r, (p', w')) \<Rightarrow> (r, (Raw p', w')))"

definition on_helm :: "(helm_provider \<times> 'w, 'a) comp \<Rightarrow> helm_provider \<Rightarrow> 'w \<Rightarrow> 'a res \<times> (delivery_provider \<times> 'w)" where
  "on_helm m h w = (case m (h, w) of (r, (h', w')) \<Rightarrow> (r, (Helm h', w')))"

definition provider_Delivery :: "'e externals \<Rightarrow> hash \<Rightarrow> (delivery_provider \<times> 'e world, unit) comp" where
  "provider_Delivery X revision s =
     (case fst s of
        Raw p \<Rightarrow> on_raw (raw_Delivery X revision) p (snd s)
      | Helm h \<Rightarrow> on_helm (helm_Delivery X revision) h (snd s))"

definition provider_Uninstall :: "'e externals \<Rightarrow> hash \<Rightarrow> (delivery_provider \<times> 'e world, unit) comp" where
  "provider_Uninstall X revision s =
     (case fst s of
        Raw p \<Rightarrow> on_raw (raw_Uninstall X revision) p (snd s)
      | Helm h \<Rightarrow> on_helm (helm_Uninstall X) h (snd s))"

subsection \<open>The contract\<close>

datatype provider_call = DeliveryCall hash | UninstallCall hash

fun run_call ::
    "('e externals \<Rightarrow> hash \<Rightarrow> ('p \<times> 'e world, unit) comp) \<Rightarrow>
     ('e externals \<Rightarrow> hash \<Rightarrow> ('p \<times> 'e world, unit) comp) \<Rightarrow>
     'e externals \<Rightarrow> provider_call \<Rightarrow> ('p \<times> 'e world, unit) comp" where
  "run_call dlv uns X (DeliveryCall h) = dlv X h"
| "run_call dlv uns X (UninstallCall h) = uns X h"

locale delivery_contract =
  fixes delivery :: "'e externals \<Rightarrow> hash \<Rightarrow> ('p \<times> 'e world, unit) comp"
    and uninstall :: "'e externals \<Rightarrow> hash \<Rightarrow> ('p \<times> 'e world, unit) comp"
    and release_name :: "'p \<Rightarrow> string"
    and ready :: "'p \<Rightarrow> bool"
  assumes delivery_ready:
    "delivery X h (p, w) = (r, (p', w')) \<Longrightarrow> returns r \<Longrightarrow> ready p \<Longrightarrow>
       ready p' \<and> release_name p' = release_name p"
    and uninstall_ready:
    "uninstall X h (p, w) = (r, (p', w')) \<Longrightarrow> returns r \<Longrightarrow> ready p \<Longrightarrow>
       ready p' \<and> release_name p' = release_name p"
begin

lemma run_call_ready:
  "run_call delivery uninstall X c (p, w) = (r, (p', w')) \<Longrightarrow> returns r \<Longrightarrow> ready p \<Longrightarrow>
     ready p' \<and> release_name p' = release_name p"
  by (cases c) (auto dest: delivery_ready uninstall_ready)

lemma run_calls_ready:
  "for_each (run_call delivery uninstall X) cs (p, w) = (r, (p', w')) \<Longrightarrow> returns r \<Longrightarrow> ready p \<Longrightarrow>
     ready p' \<and> release_name p' = release_name p"
proof (induction cs arbitrary: p w)
  case (Cons c cs)
  obtain r1 p1 w1 where c: "run_call delivery uninstall X c (p, w) = (r1, (p1, w1))"
    by (metis prod.exhaust)
  show ?case
  proof (cases r1)
    case (Ret u)
    then have "ready p1" "release_name p1 = release_name p"
      using run_call_ready[OF c] Cons.prems(3) by simp_all
    with Cons.IH[of p1 w1] Cons.prems c Ret show ?thesis by simp
  next
    case (Fail e)
    then show ?thesis using run_call_ready[OF c] Cons.prems c by auto
  qed (use Cons.prems c in auto)
qed simp

end

lemma raw_Uninstall_returns:
  assumes "raw_Uninstall X h (p, w) = (r, (p', w'))" "returns r" "raw_ok p"
  shows "p' = p"
  using raw_Uninstall_ok(1)[OF assms(3,1)] assms(2) by (cases r) simp_all

interpretation raw: delivery_contract raw_Delivery raw_Uninstall rp_appName raw_ok
proof
  show "raw_ok p' \<and> rp_appName p' = rp_appName p"
    if "raw_Delivery X h (p, w) = (r, (p', w'))" "returns r" "raw_ok p"
    for X :: "'a externals" and h p w r p' w'
    using keepsD_eq[OF raw_Delivery_keeps[of "rp_appName p" "rp_namespace p" X h] that(1)] that(3) by simp
  show "raw_ok p' \<and> rp_appName p' = rp_appName p"
    if "raw_Uninstall X h (p, w) = (r, (p', w'))" "returns r" "raw_ok p"
    for X :: "'a externals" and h p w r p' w'
    using raw_Uninstall_returns[OF that] that(3) by simp
qed

definition helm_ok :: "helm_provider \<Rightarrow> bool" where
  "helm_ok h \<longleftrightarrow> hp_appRevisionSet h \<and> hp_settings h \<noteq> None \<and> hp_manager h \<noteq> None"

lemma helm_identity_ok:
  "helm_identity p' = helm_identity p \<Longrightarrow> helm_ok p \<Longrightarrow> helm_ok p' \<and> hp_releaseName p' = hp_releaseName p"
  by (cases p, cases p') (simp add: helm_identity_def helm_ok_def)

interpretation helm: delivery_contract helm_Delivery "\<lambda>X h. helm_Uninstall X" hp_releaseName helm_ok
proof
  show "helm_ok p' \<and> hp_releaseName p' = hp_releaseName p"
    if "helm_Delivery X h (p, w) = (r, (p', w'))" "returns r" "helm_ok p"
    for X :: "'a externals" and h p w r p' w'
    using keepsD_eq[OF helm_Delivery_keeps[of "helm_identity p" X h] that(1)] that(3)
    by (intro helm_identity_ok) simp_all
  show "helm_ok p' \<and> hp_releaseName p' = hp_releaseName p"
    if "helm_Uninstall X (p, w) = (r, (p', w'))" "returns r" "helm_ok p"
    for X :: "'a externals" and h :: hash and p w r p' w'
    using keepsD_eq[OF helm_Uninstall_keeps[of "helm_identity p" X] that(1)] that(3)
    by (intro helm_identity_ok) simp_all
qed

fun provider_ready :: "delivery_provider \<Rightarrow> bool" where
  "provider_ready (Raw p) = raw_ok p"
| "provider_ready (Helm h) = helm_ok h"

fun provider_release :: "delivery_provider \<Rightarrow> string" where
  "provider_release (Raw p) = rp_appName p"
| "provider_release (Helm h) = hp_releaseName h"

lemmas provider_op_defs = provider_Delivery_def provider_Uninstall_def on_raw_def on_helm_def

interpretation prov: delivery_contract provider_Delivery provider_Uninstall provider_release provider_ready
proof
  show "provider_ready p' \<and> provider_release p' = provider_release p"
    if "provider_Delivery X h (p, w) = (r, (p', w'))" "returns r" "provider_ready p"
    for X :: "'a externals" and h p w r p' w'
    using that by (cases p) (auto simp: provider_op_defs split: prod.splits
      dest: raw.delivery_ready helm.delivery_ready)
  show "provider_ready p' \<and> provider_release p' = provider_release p"
    if "provider_Uninstall X h (p, w) = (r, (p', w'))" "returns r" "provider_ready p"
    for X :: "'a externals" and h p w r p' w'
    using that by (cases p) (auto simp: provider_op_defs split: prod.splits
      dest: raw.uninstall_ready helm.uninstall_ready)
qed

end
