(* ===== verification/GoUrl.thy ===== *)
theory GoUrl
  imports GoStd
begin

section \<open>net/url: does a string parse, and what is its scheme\<close>

text \<open>
  \<^verbatim>\<open>NewRepositoryConfig\<close> asks \<^verbatim>\<open>url.Parse\<close> two things: whether it fails, and the scheme.
  \<open>url_parse\<close> follows \<^verbatim>\<open>net/url\<close> (\<^verbatim>\<open>Parse\<close>, \<^verbatim>\<open>getScheme\<close>, \<^verbatim>\<open>parseAuthority\<close>,
  \<^verbatim>\<open>parseHost\<close>, \<^verbatim>\<open>unescape\<close>) and gives the scheme, or \<open>None\<close> for an error.
\<close>

definition is_digit :: "char \<Rightarrow> bool" where
  "is_digit c \<longleftrightarrow> CHR ''0'' \<le> c \<and> c \<le> CHR ''9''"

definition is_alpha :: "char \<Rightarrow> bool" where
  "is_alpha c \<longleftrightarrow> (CHR ''a'' \<le> c \<and> c \<le> CHR ''z'') \<or> (CHR ''A'' \<le> c \<and> c \<le> CHR ''Z'')"

definition is_hex :: "char \<Rightarrow> bool" where
  "is_hex c \<longleftrightarrow> is_digit c \<or> (CHR ''a'' \<le> c \<and> c \<le> CHR ''f'') \<or> (CHR ''A'' \<le> c \<and> c \<le> CHR ''F'')"

abbreviation percent :: char where "percent \<equiv> CHR 37"

definition before :: "char \<Rightarrow> string \<Rightarrow> string" where
  "before c s = takeWhile (\<lambda>x. x \<noteq> c) s"

definition after :: "char \<Rightarrow> string \<Rightarrow> string" where
  "after c s = drop 1 (dropWhile (\<lambda>x. x \<noteq> c) s)"

text \<open>The parts before and after the last occurrence.\<close>

definition before_last :: "char \<Rightarrow> string \<Rightarrow> string" where
  "before_last c s = rev (after c (rev s))"

definition after_last :: "char \<Rightarrow> string \<Rightarrow> string" where
  "after_last c s = rev (before c (rev s))"

subsection \<open>Scheme\<close>

datatype scheme_result = SchemeError | NoScheme | Scheme string string

fun getScheme_from :: "string \<Rightarrow> string \<Rightarrow> scheme_result" where
  "getScheme_from acc [] = NoScheme"
| "getScheme_from acc (c # cs) =
     (if is_alpha c then getScheme_from (acc @ [c]) cs
      else if is_digit c \<or> c \<in> set ''+-.'' then
        (if acc = [] then NoScheme else getScheme_from (acc @ [c]) cs)
      else if c = CHR '':'' then
        (if acc = [] then SchemeError else Scheme acc cs)
      else NoScheme)"

definition getScheme :: "string \<Rightarrow> scheme_result" where
  "getScheme rawURL = getScheme_from [] rawURL"

subsection \<open>Escapes, ports, authority\<close>

definition host_char :: "char \<Rightarrow> bool" where
  "host_char c \<longleftrightarrow> is_alpha c \<or> is_digit c \<or> c \<in> set ''!$&()*+,;=:[]<>-_.~'' \<or> c = CHR 34 \<or> c = CHR 39"

datatype encoding = EncodePath | EncodeHost | EncodeZone

definition hex_val :: "char \<Rightarrow> nat" where
  "hex_val c =
     (if is_digit c then of_char c - 48
      else if CHR ''a'' \<le> c then of_char c - 87 else of_char c - 55)"

fun unescape_ok :: "encoding \<Rightarrow> string \<Rightarrow> bool" where
  "unescape_ok mode [] = True"
| "unescape_ok mode (c # cs) =
     (if c = percent then
        (case cs of
           a # b # ds \<Rightarrow>
             is_hex a \<and> is_hex b \<and>
             (mode = EncodeHost \<longrightarrow> 8 \<le> hex_val a \<or> [a, b] = ''25'') \<and>
             (mode = EncodeZone \<longrightarrow>
                [a, b] = ''25'' \<or> 16 * hex_val a + hex_val b = 32 \<or>
                host_char (char_of (16 * hex_val a + hex_val b))) \<and>
             unescape_ok mode ds
         | _ \<Rightarrow> False)
      else ((mode = EncodePath \<or> 128 \<le> (of_char c :: nat) \<or> host_char c) \<and> unescape_ok mode cs))"

definition validOptionalPort :: "string \<Rightarrow> bool" where
  "validOptionalPort port = (case port of [] \<Rightarrow> True | c # cs \<Rightarrow> c = CHR '':'' \<and> list_all is_digit cs)"

text \<open>The index-free form of \<^verbatim>\<open>strings.Index(s, "%25")\<close>: the parts before it and from it on.\<close>

fun split_zone :: "string \<Rightarrow> (string \<times> string) option" where
  "split_zone [] = None"
| "split_zone (c # cs) =
     (if take 3 (c # cs) = [percent, CHR ''2'', CHR ''5''] then Some ([], c # cs)
      else map_option (\<lambda>(a, b). (c # a, b)) (split_zone cs))"

definition parseHost_ok :: "string \<Rightarrow> bool" where
  "parseHost_ok host =
     (if HasPrefix host ''['' then
        CHR '']'' \<in> set host \<and>
        (let inner = before_last CHR '']'' host; colonPort = after_last CHR '']'' host
         in validOptionalPort colonPort \<and>
            (case split_zone inner of
               Some (h1, h2) \<Rightarrow>
                 unescape_ok EncodeHost h1 \<and> unescape_ok EncodeZone h2 \<and>
                 unescape_ok EncodeHost (CHR '']'' # colonPort)
             | None \<Rightarrow> unescape_ok EncodeHost host))
      else
        (CHR '':'' \<in> set host \<longrightarrow> validOptionalPort (CHR '':'' # after_last CHR '':'' host)) \<and>
        unescape_ok EncodeHost host)"

definition userinfo_char :: "char \<Rightarrow> bool" where
  "userinfo_char c \<longleftrightarrow> is_alpha c \<or> is_digit c \<or> c \<in> set ''-._:~!$&()*+,;=@'' \<or> c = percent \<or> c = CHR 39"

definition parseAuthority_ok :: "string \<Rightarrow> bool" where
  "parseAuthority_ok authority =
     (if CHR ''@'' \<in> set authority then
        parseHost_ok (after_last CHR ''@'' authority) \<and>
        (let userinfo = before_last CHR ''@'' authority
         in list_all userinfo_char userinfo \<and>
            unescape_ok EncodePath (before CHR '':'' userinfo) \<and>
            unescape_ok EncodePath (after CHR '':'' userinfo))
      else parseHost_ok authority)"

subsection \<open>Parse\<close>

definition parse_rest_ok :: "bool \<Rightarrow> string \<Rightarrow> bool" where
  "parse_rest_ok has_scheme rest0 =
     (let rest = before CHR ''?'' rest0 in
      if \<not> HasPrefix rest ''/'' then
        has_scheme \<or>
        (CHR '':'' \<notin> set (before slash rest) \<and> unescape_ok EncodePath rest)
      else if (has_scheme \<or> \<not> HasPrefix rest ''///'') \<and> HasPrefix rest ''//'' then
        (let authority = before slash (drop 2 rest) in
         parseAuthority_ok authority \<and>
         unescape_ok EncodePath (drop (length authority) (drop 2 rest)))
      else unescape_ok EncodePath rest)"

definition control_char :: "char \<Rightarrow> bool" where
  "control_char c \<longleftrightarrow> (of_char c :: nat) < 32 \<or> (of_char c :: nat) = 127"

definition url_parse :: "string \<Rightarrow> string option" where
  "url_parse rawURL =
     (let u = before CHR ''#'' rawURL; frag = after CHR ''#'' rawURL in
      if list_ex control_char u then None
      else if u = ''*'' then (if unescape_ok EncodePath frag then Some [] else None)
      else
        (case getScheme u of
           SchemeError \<Rightarrow> None
         | NoScheme \<Rightarrow> if parse_rest_ok False u \<and> unescape_ok EncodePath frag then Some [] else None
         | Scheme s rest \<Rightarrow>
             if parse_rest_ok True rest \<and> unescape_ok EncodePath frag then Some (ToLower s) else None))"

subsection \<open>The two forms of repository addresses\<close>

lemma before_Cons [simp]: "before c (x # s) = (if x = c then [] else x # before c s)"
  by (simp add: before_def)

lemma before_append: "c \<notin> set s \<Longrightarrow> before c (s @ c # t) = s"
  by (induction s) (auto simp: before_def)

lemma before_no: "c \<notin> set s \<Longrightarrow> before c s = s"
  by (induction s) (auto simp: before_def)

lemma before_append_both: "c \<notin> set s \<Longrightarrow> before c (s @ t) = s @ before c t"
  by (induction s) (auto simp: before_def)

lemma getScheme_from_stop:
  "list_all is_alpha s \<Longrightarrow> \<not> is_alpha c \<Longrightarrow> \<not> is_digit c \<Longrightarrow> c \<notin> set ''+-.:'' \<Longrightarrow>
     getScheme_from acc (s @ c # t) = NoScheme"
  by (induction s arbitrary: acc) auto

lemma getScheme_from_colon:
  "list_all is_alpha s \<Longrightarrow> acc @ s \<noteq> [] \<Longrightarrow> getScheme_from acc (s @ CHR '':'' # t) = Scheme (acc @ s) t"
proof (induction s arbitrary: acc)
  case Nil
  then show ?case by (simp add: is_alpha_def is_digit_def)
qed simp

text \<open>
  An scp-like address, \<^verbatim>\<open>user@host:path\<close>, does not parse: its first path segment contains a colon.
\<close>

lemma url_parse_scp:
  assumes "list_all is_alpha user" and "user \<noteq> []" and "set host \<inter> set ''/?#:'' = {}"
  shows "url_parse (user @ CHR ''@'' # host @ CHR '':'' # path) = None"
proof -
  let ?u = "user @ CHR ''@'' # host @ CHR '':'' # before CHR ''#'' path"
  have plain: "c \<notin> set user" if "c \<in> set ''/?#:@''" for c
    using assms(1) that by (auto simp: list_all_iff is_alpha_def)
  have u: "before CHR ''#'' (user @ CHR ''@'' # host @ CHR '':'' # path) = ?u"
    using plain assms(3) by (simp add: before_append_both)
  have "getScheme ?u = NoScheme"
    unfolding getScheme_def using assms(1)
    by (rule getScheme_from_stop) (simp_all add: is_alpha_def is_digit_def)
  moreover have "\<not> parse_rest_ok False ?u"
  proof -
    let ?r = "before CHR ''?'' ?u"
    have r: "?r = user @ CHR ''@'' # host @ CHR '':'' # before CHR ''?'' (before CHR ''#'' path)"
      using plain assms(3) by (simp add: before_append_both)
    obtain a us where "user = a # us" using assms(2) by (cases user) auto
    then have "\<not> HasPrefix ?r ''/''" using plain[of slash] r by (auto simp: HasPrefix_def)
    moreover have "CHR '':'' \<in> set (before slash ?r)"
      using plain assms(3) unfolding r by (simp add: before_append_both)
    ultimately show ?thesis by (simp add: parse_rest_ok_def Let_def)
  qed
  moreover have "?u \<noteq> ''*''" using assms(2) by (cases user) auto
  ultimately show ?thesis by (simp add: url_parse_def Let_def u)
qed

end
