(* ===== verification/RepositoryConfig.thy ===== *)
theory RepositoryConfig
  imports Externals GoUrl
begin

section \<open>Repository settings, authentication and git options\<close>

text \<open>
  The part of \<^verbatim>\<open>server/pkg/instance/repository.go\<close> that applications use: the settings of a
  repository, its SSH authentication, the options of the git calls, cloning. \<open>repo_core\<close> holds the
  fields of \<^verbatim>\<open>RepositoryConfig\<close> that no operation writes after construction; the mutex and the
  applications are added in theory \<open>Repository\<close>. The back pointer of an application to its
  repository reads these fields only, so the application carries a copy.
\<close>

record repository_settings =
  rs_URL :: string
  rs_PrivateKeySecret :: string
  rs_InsecureIgnoreHostKey :: bool

record repo_core =
  rc_Name :: string
  rc_Settings :: repository_settings
  rc_auth :: "ssh_auth option"

definition NewSSHRepositoryAuth ::
    "'e externals \<Rightarrow> rest_config \<Rightarrow> repository_settings \<Rightarrow> string \<Rightarrow> ('e world, ssh_auth) comp" where
  "NewSSHRepositoryAuth X restKubeConfig settings currentNamespace =
     andthen (x_kube_client X restKubeConfig) (\<lambda>_.
     andthen (x_secret_get X currentNamespace (rs_PrivateKeySecret settings)) (\<lambda>secret.
     andthen (x_new_public_keys X ''git'' (map_get secret ''sshPrivateKey'') []) (\<lambda>(user, key).
     andthen (if rs_InsecureIgnoreHostKey settings then ret InsecureIgnoreHostKey
              else andthen deref_home (\<lambda>h. x_known_hosts X (Join [h, ''.ssh'', ''knownhosts'']))) (\<lambda>callback.
       ret \<lparr>sa_user = user, sa_key = key, sa_callback = callback\<rparr>))))"

definition is_ssh_url :: "string \<Rightarrow> bool" where
  "is_ssh_url URL = (case url_parse URL of None \<Rightarrow> True | Some scheme \<Rightarrow> scheme = ''ssh'')"

definition NewRepositoryConfig ::
    "'e externals \<Rightarrow> rest_config \<Rightarrow> string \<Rightarrow> repository_settings \<Rightarrow> string \<Rightarrow> ('e world, repo_core) comp" where
  "NewRepositoryConfig X restKubeConfig name settings currentNamespace =
     (if is_ssh_url (rs_URL settings) then
        andthen (NewSSHRepositoryAuth X restKubeConfig settings currentNamespace) (\<lambda>auth.
          ret \<lparr>rc_Name = name, rc_Settings = settings, rc_auth = Some auth\<rparr>)
      else ret \<lparr>rc_Name = name, rc_Settings = settings, rc_auth = None\<rparr>)"

definition NewGitRepository ::
    "'e externals \<Rightarrow> string \<Rightarrow> clone_options \<Rightarrow> checkout_options \<Rightarrow> ('e world, git_repo) comp" where
  "NewGitRepository X path cloneOptions checkoutOptions =
     andthen (attempt (x_plain_clone X path False cloneOptions)) (\<lambda>cloned.
     andthen (case cloned of
                Inl err \<Rightarrow>
                  if err = GitErrRepositoryAlreadyExists then x_plain_open X path else failc err
              | Inr repo \<Rightarrow> ret repo) (\<lambda>repo.
     andthen (x_worktree X repo) (\<lambda>wt.
     andthen (x_checkout X wt checkoutOptions) (\<lambda>_.
       ret repo))))"

definition GetCloneOptions :: "repo_core \<Rightarrow> string \<Rightarrow> clone_options" where
  "GetCloneOptions r referenceName =
     \<lparr>co_URL = rs_URL (rc_Settings r), co_ReferenceName = referenceName, co_SingleBranch = True,
      co_NoCheckout = False, co_Auth = (case rc_auth r of None \<Rightarrow> None | Some a \<Rightarrow> Some a)\<rparr>"

definition GetFetchOptions :: "repo_core \<Rightarrow> fetch_options" where
  "GetFetchOptions r =
     \<lparr>fo_RemoteName = ''origin'', fo_RemoteURL = rs_URL (rc_Settings r), fo_Force = True,
      fo_Auth = (case rc_auth r of None \<Rightarrow> None | Some a \<Rightarrow> Some a)\<rparr>"

definition GetPullOptions :: "repo_core \<Rightarrow> string \<Rightarrow> pull_options" where
  "GetPullOptions r referenceName =
     \<lparr>po_RemoteName = ''origin'', po_RemoteURL = rs_URL (rc_Settings r),
      po_ReferenceName = referenceName, po_SingleBranch = True, po_Force = True,
      po_Auth = (case rc_auth r of None \<Rightarrow> None | Some a \<Rightarrow> Some a)\<rparr>"

lemma NewRepositoryConfig_fields:
  assumes "NewRepositoryConfig X K name settings ns w = (Ret c, w')"
  shows "rc_Name c = name" "rc_Settings c = settings"
    "rc_auth c = None \<longleftrightarrow> \<not> is_ssh_url (rs_URL settings)"
  using assms by (auto simp: NewRepositoryConfig_def comp_inv split: if_splits)

lemma NewSSHRepositoryAuth_callback:
  assumes "NewSSHRepositoryAuth X K settings ns w = (Ret a, w')" and "\<not> rs_InsecureIgnoreHostKey settings"
    and "\<And>p w c w'. x_known_hosts X p w = (Ret c, w') \<Longrightarrow> c \<noteq> InsecureIgnoreHostKey"
  shows "sa_callback a \<noteq> InsecureIgnoreHostKey"
  using assms by (auto simp: NewSSHRepositoryAuth_def comp_inv split: if_splits prod.splits)

end
