(* ===== verification/Application.thy ===== *)
theory Application
  imports Provider RepositoryConfig
begin

section \<open>Applications\<close>

text \<open>
  \<^verbatim>\<open>server/pkg/instance/application.go\<close>. \<open>app_spec\<close> holds the exported fields, which the server
  sets from a request; \<open>application\<close> adds what \<^verbatim>\<open>NewApplication\<close> fills in. A provider reads
  \<open>a_CurrentRevision\<close> through its pointer, so the provider calls get its current value.
\<close>

record app_spec =
  a_Name :: string
  a_Namespace :: string
  a_URL :: string
  a_Reference :: string
  a_SparsePath :: string
  a_CurrentRevision :: hash
  a_RepositoryConfig :: repo_core
  a_Helm :: helm_provider

record application = app_spec +
  a_storagePath :: string
  a_handledPath :: string
  a_cloneOptions :: clone_options
  a_checkoutOptions :: checkout_options
  a_pullOptions :: pull_options
  a_fetchOptions :: fetch_options
  a_repo :: git_repo
  a_mutex :: mutex
  a_deliveryProvider :: delivery_provider

subsection \<open>Names and paths\<close>

definition getLocalReferenceName :: "'z app_spec_scheme \<Rightarrow> string" where
  "getLocalReferenceName a = ''refs/heads/'' @ a_Reference a"

definition getRemoteReferenceName :: "'z app_spec_scheme \<Rightarrow> string" where
  "getRemoteReferenceName a = ''refs/remotes/origin/'' @ a_Reference a"

text \<open>The package variable \<^verbatim>\<open>Workspace\<close>, for the user's home directory.\<close>

definition Workspace :: "string \<Rightarrow> string" where
  "Workspace h = Join [h, ''.dummycd'', ''storage'']"

definition storage_path :: "string \<Rightarrow> string \<Rightarrow> string" where
  "storage_path h name = Join [Workspace h, name]"

text \<open>The closure of \<^verbatim>\<open>getRevisionsWithPathFilter\<close>.\<close>

definition path_filter :: "string \<Rightarrow> string \<Rightarrow> bool" where
  "path_filter sparsePath s = (if length sparsePath = 0 then True else HasPrefix s sparsePath)"

subsection \<open>Construction\<close>

text \<open>A Helm provider where \<^verbatim>\<open>chartutil.IsChartDir\<close> gives no error, a raw provider otherwise.\<close>

definition choose_provider ::
    "'e externals \<Rightarrow> rest_config \<Rightarrow> app_spec \<Rightarrow> string \<Rightarrow> error + unit \<Rightarrow> ('e world, delivery_provider) comp" where
  "choose_provider X restKubeConfig app handledPath chartDir =
     (case chartDir of
        Inl err \<Rightarrow>
          andthen (NewRawProvider X restKubeConfig (a_Name app) handledPath (a_Namespace app)) (\<lambda>p. ret (Raw p))
      | Inr _ \<Rightarrow>
          andthen (object_after
             (NewHelmProvider X restKubeConfig (a_Name app) handledPath (a_Namespace app)) (a_Helm app))
            (\<lambda>hp. ret (Helm hp)))"

text \<open>A fresh mutex is locked and, whatever happens, unlocked again: nobody else can see it meanwhile.\<close>

definition NewApplication :: "'e externals \<Rightarrow> rest_config \<Rightarrow> app_spec \<Rightarrow> ('e world, application) comp" where
  "NewApplication X restKubeConfig app =
     andthen deref_home (\<lambda>h.
       let storagePath = storage_path h (a_Name app);
           handledPath = Join [storagePath, a_SparsePath app];
           referenceName = getLocalReferenceName app;
           cloneOptions = GetCloneOptions (a_RepositoryConfig app) referenceName;
           fetchOptions = GetFetchOptions (a_RepositoryConfig app);
           pullOptions = GetPullOptions (a_RepositoryConfig app) referenceName;
           checkoutOptions = \<lparr>ck_SparseCheckoutDirectories = [a_SparsePath app], ck_Keep = False,
                              ck_Branch = referenceName, ck_Force = True\<rparr>
       in
       andthen (NewGitRepository X storagePath cloneOptions checkoutOptions) (\<lambda>repo.
       andthen (attempt (x_is_chart_dir X handledPath)) (\<lambda>chartDir.
       andthen (choose_provider X restKubeConfig app handledPath chartDir) (\<lambda>provider.
         ret (app_spec.extend app
           \<lparr>a_storagePath = storagePath, a_handledPath = handledPath,
            a_cloneOptions = cloneOptions, a_checkoutOptions = checkoutOptions,
            a_pullOptions = pullOptions, a_fetchOptions = fetchOptions,
            a_repo = repo, a_mutex = False, a_deliveryProvider = provider\<rparr>)))))"

subsection \<open>Calls on the provider\<close>

definition app_call ::
    "(hash \<Rightarrow> (delivery_provider \<times> 'w, unit) comp) \<Rightarrow> (application \<times> 'w, unit) comp" where
  "app_call op s =
     (case op (a_CurrentRevision (fst s)) (a_deliveryProvider (fst s), snd s) of
        (r, (d, w)) \<Rightarrow> (r, ((fst s)\<lparr>a_deliveryProvider := d\<rparr>, w)))"

definition app_Delivery :: "'e externals \<Rightarrow> (application \<times> 'e world, unit) comp" where
  "app_Delivery X = app_call (provider_Delivery X)"

definition app_provider_Uninstall :: "'e externals \<Rightarrow> (application \<times> 'e world, unit) comp" where
  "app_provider_Uninstall X = app_call (provider_Uninstall X)"

definition Uninstall :: "'e externals \<Rightarrow> (application \<times> 'e world, unit) comp" where
  "Uninstall X =
     andthen (app_provider_Uninstall X) (\<lambda>_.
     andthen (gets fst) (\<lambda>a. on_world (RemoveAll (a_storagePath a))))"

subsection \<open>Revisions\<close>

definition getRevisionsWithPathFilter :: "'e externals \<Rightarrow> application \<Rightarrow> ('e world, commit list) comp" where
  "getRevisionsWithPathFilter X a = x_log X (a_repo a) (path_filter (a_SparsePath a))"

definition getRevisionHashList :: "'e externals \<Rightarrow> application \<Rightarrow> ('e world, hash list) comp" where
  "getRevisionHashList X a =
     andthen (getRevisionsWithPathFilter X a) (\<lambda>commits. ret (map c_Hash commits))"

definition getApplicationHeadRevision :: "'e externals \<Rightarrow> application \<Rightarrow> ('e world, hash) comp" where
  "getApplicationHeadRevision X a =
     andthen (attempt (getRevisionHashList X a)) (\<lambda>revisions.
       ret (case revisions of
              Inl err \<Rightarrow> ZeroHash
            | Inr [] \<Rightarrow> ZeroHash
            | Inr (h # _) \<Rightarrow> h))"

text \<open>The map with keys \<^verbatim>\<open>hash\<close> and \<^verbatim>\<open>message\<close> of each revision.\<close>

definition GetRevisionStringsMap ::
    "'e externals \<Rightarrow> application \<Rightarrow> ('e world, (string \<rightharpoonup> string) list) comp" where
  "GetRevisionStringsMap X a =
     andthen (getRevisionsWithPathFilter X a) (\<lambda>commits.
       ret (map (\<lambda>c. [''hash'' \<mapsto> x_hash_string X (c_Hash c), ''message'' \<mapsto> c_Message c]) commits))"

subsection \<open>The life cycle\<close>

text \<open>
  \<^verbatim>\<open>RunLifeCycle\<close> in the order of the code: fetch; local and remote reference; reset, or checkout
  and pull; checkout; head revision; delivery. \<open>update_worktree\<close> is its middle, which says whether
  the function goes on (\<open>True\<close>) or has returned nil (\<open>False\<close>).
\<close>

definition update_worktree :: "'e externals \<Rightarrow> application \<Rightarrow> ('e world, bool) comp" where
  "update_worktree X a =
     andthen (x_reference X (a_repo a) (getLocalReferenceName a) True) (\<lambda>localReference.
     andthen (x_reference X (a_repo a) (getRemoteReferenceName a) True) (\<lambda>remoteReference.
     andthen (x_worktree X (a_repo a)) (\<lambda>wt.
       if localReference \<noteq> remoteReference then
         andthen (x_reset_sparsely X wt \<lparr>ro_Commit = remoteReference, ro_Mode = HardReset\<rparr> [a_SparsePath a])
           (\<lambda>_. ret True)
       else
         andthen (x_checkout X wt (a_checkoutOptions a)) (\<lambda>_.
         andthen (attempt (x_pull X wt (a_pullOptions a))) (\<lambda>pulled.
           if \<not> IsZero (a_CurrentRevision a) \<and> pulled = Inl GitNoErrAlreadyUpToDate then ret False
           else
             (case pulled of
                Inl err \<Rightarrow> if err = GitNoErrAlreadyUpToDate then ret True else failc err
              | Inr _ \<Rightarrow> ret True))))))"

definition deliver_head :: "'e externals \<Rightarrow> (application \<times> 'e world, unit) comp" where
  "deliver_head X =
     andthen (gets fst) (\<lambda>a.
     andthen (on_world (x_worktree X (a_repo a))) (\<lambda>wt.
     andthen (on_world (x_checkout X wt (a_checkoutOptions a))) (\<lambda>_.
     andthen (on_world (getApplicationHeadRevision X a)) (\<lambda>headMatchedRevision.
       if IsZero headMatchedRevision then
         failc (NewError ''unexpected: application head matched revision hash is zero'')
       else if a_CurrentRevision a = headMatchedRevision then ret ()
       else
         andthen (on_obj (modify (\<lambda>a. a\<lparr>a_CurrentRevision := headMatchedRevision\<rparr>))) (\<lambda>_.
           app_Delivery X)))))"

definition RunLifeCycle :: "'e externals \<Rightarrow> (application \<times> 'e world, unit) comp" where
  "RunLifeCycle X =
     andthen (gets fst) (\<lambda>a.
     andthen (on_world (attempt (x_fetch X (a_repo a) (a_fetchOptions a)))) (\<lambda>fetched.
       (case fetched of
          Inl err \<Rightarrow>
            if err = GitNoErrAlreadyUpToDate then
              (if \<not> IsZero (a_CurrentRevision a) then app_Delivery X
               else
                 andthen (on_world (update_worktree X a)) (\<lambda>go.
                   if go then deliver_head X else ret ()))
            else failc err
        | Inr _ \<Rightarrow>
            andthen (on_world (update_worktree X a)) (\<lambda>go.
              if go then deliver_head X else ret ()))))"

end
