(* ===== verification/Repository.thy ===== *)
theory Repository
  imports Application
begin

section \<open>The applications of a repository\<close>

text \<open>
  \<^verbatim>\<open>AddOrUpdateApplication\<close> and \<^verbatim>\<open>DeleteApplication\<close> of
  \<^verbatim>\<open>server/pkg/instance/repository.go\<close>. A slot of \<open>rc_Apps\<close> can hold the nil pointer (\<open>None\<close>):
  a failed update leaves one, and whoever reads a field of it panics. A spin loop on a mutex that
  another goroutine holds is \<open>Spin\<close>.
\<close>

record repo_config = repo_core +
  rc_Mutex :: mutex
  rc_Apps :: "application option list"

text \<open>
  \<open>cmp_equal\<close> stands for \<^verbatim>\<open>cmp.Equal\<close> with the options of the call: it sees the exported fields.
\<close>

type_synonym app_cmp = "app_spec \<Rightarrow> app_spec \<Rightarrow> bool"

text \<open>
  Documented behaviour of \<^verbatim>\<open>cmp.Equal\<close> with \<^verbatim>\<open>IgnoreUnexported(Application{})\<close> and
  \<^verbatim>\<open>IgnoreTypes(RepositoryConfig{}, plumbing.Hash{}, provider.HelmProvider{})\<close>: what is left to
  compare are the five strings.
\<close>

definition cmp_documented :: "app_cmp \<Rightarrow> bool" where
  "cmp_documented cmp_equal \<longleftrightarrow>
     (\<forall>x y. cmp_equal x y \<longleftrightarrow>
        a_Name x = a_Name y \<and> a_Namespace x = a_Namespace y \<and> a_URL x = a_URL y \<and>
        a_Reference x = a_Reference y \<and> a_SparsePath x = a_SparsePath y)"

subsection \<open>Search loops over pointers\<close>

text \<open>
  \<^verbatim>\<open>for i, app := range r.Apps { if app.Name == name { ... break } }\<close>, and the same without
  \<^verbatim>\<open>break\<close>: the first, or the last, index; a nil slot that is reached panics.
\<close>

fun find_app_first :: "string \<Rightarrow> application option list \<Rightarrow> nat \<Rightarrow> nat option res" where
  "find_app_first name [] i = Ret None"
| "find_app_first name (None # apps) i = Panic NilDereference"
| "find_app_first name (Some app # apps) i =
     (if a_Name app = name then Ret (Some i) else find_app_first name apps (Suc i))"

fun find_app_last :: "string \<Rightarrow> application option list \<Rightarrow> nat \<Rightarrow> nat option \<Rightarrow> nat option res" where
  "find_app_last name [] i found = Ret found"
| "find_app_last name (None # apps) i found = Panic NilDereference"
| "find_app_last name (Some app # apps) i found =
     find_app_last name apps (Suc i) (if a_Name app = name then Some i else found)"

definition pure_res :: "'a res \<Rightarrow> ('s, 'a) comp" where
  [comp_defs]: "pure_res r s = (r, s)"

subsection \<open>Locks\<close>

definition lock_repo :: "(repo_config, unit) comp" where
  "lock_repo r = (case spin_lock (rc_Mutex r) of (res, m) \<Rightarrow> (res, r\<lparr>rc_Mutex := m\<rparr>))"

text \<open>\<^verbatim>\<open>defer r.Mutex.Unlock()\<close> of a lock the function holds.\<close>

definition defer_unlock_repo :: "(repo_config \<times> 'w, 'a) comp \<Rightarrow> (repo_config \<times> 'w, 'a) comp" where
  "defer_unlock_repo m s =
     (case m s of
        (Spin, s') \<Rightarrow> (Spin, s')
      | (res, (r, w)) \<Rightarrow> (res, (r\<lparr>rc_Mutex := False\<rparr>, w)))"

text \<open>\<^verbatim>\<open>for !r.Apps[i].mutex.TryLock() {}\<close>.\<close>

definition lock_app :: "nat \<Rightarrow> (repo_config \<times> 'w, application) comp" where
  "lock_app i s =
     (case rc_Apps (fst s) ! i of
        None \<Rightarrow> (Panic NilDereference, s)
      | Some app \<Rightarrow>
          (case spin_lock (a_mutex app) of
             (Ret _, m) \<Rightarrow>
               (Ret (app\<lparr>a_mutex := m\<rparr>),
                ((fst s)\<lparr>rc_Apps := (rc_Apps (fst s))[i := Some (app\<lparr>a_mutex := m\<rparr>)]\<rparr>, snd s))
           | (_, m) \<Rightarrow> (Spin, s)))"

subsection \<open>AddOrUpdateApplication\<close>

text \<open>
  The update under both locks: the clone is removed and the slot becomes the result of
  \<^verbatim>\<open>NewApplication\<close>, the nil pointer when that fails; the old application's mutex is unlocked, but
  after an assignment nothing refers to it any more.
\<close>

definition rebuild_app ::
    "'e externals \<Rightarrow> rest_config \<Rightarrow> nat \<Rightarrow> app_spec \<Rightarrow> application \<Rightarrow> (repo_config \<times> 'e world, unit) comp" where
  "rebuild_app X restKubeConfig i app old s =
     (let slot = (\<lambda>x. (fst s)\<lparr>rc_Apps := (rc_Apps (fst s))[i := x]\<rparr>);
          unlocked = slot (Some (old\<lparr>a_mutex := False\<rparr>))
      in
      case RemoveAll (a_storagePath old) (snd s) of
        (Ret _, w) \<Rightarrow>
          (case NewApplication X restKubeConfig app w of
             (Ret new, w') \<Rightarrow> (Ret (), (slot (Some new), w'))
           | (Fail err, w') \<Rightarrow> (Fail err, (slot None, w'))
           | (Panic q, w') \<Rightarrow> (Panic q, (unlocked, w'))
           | (Spin, w') \<Rightarrow> (Spin, (fst s, w')))
      | (Fail err, w) \<Rightarrow> (Fail err, (unlocked, w))
      | (Panic q, w) \<Rightarrow> (Panic q, (unlocked, w))
      | (Spin, w) \<Rightarrow> (Spin, (fst s, w)))"

definition replace_app ::
    "'e externals \<Rightarrow> rest_config \<Rightarrow> nat \<Rightarrow> app_spec \<Rightarrow> (repo_config \<times> 'e world, unit) comp" where
  "replace_app X restKubeConfig i app = andthen (lock_app i) (rebuild_app X restKubeConfig i app)"

definition AddOrUpdateApplication ::
    "'e externals \<Rightarrow> rest_config \<Rightarrow> app_cmp \<Rightarrow> app_spec \<Rightarrow> (repo_config \<times> 'e world, unit) comp" where
  "AddOrUpdateApplication X restKubeConfig cmp_equal app =
     andthen (gets (rc_Apps \<circ> fst)) (\<lambda>apps.
     andthen (pure_res (find_app_first (a_Name app) apps 0)) (\<lambda>appIndex.
       (case appIndex of
          None \<Rightarrow>
            andthen (on_world (NewApplication X restKubeConfig app)) (\<lambda>newApplication.
            andthen (on_obj lock_repo) (\<lambda>_.
              defer_unlock_repo
                (on_obj (modify (\<lambda>r. r\<lparr>rc_Apps := rc_Apps r @ [Some newApplication]\<rparr>)))))
        | Some i \<Rightarrow>
            if cmp_equal (app_spec.truncate (the (apps ! i))) app then failc NoErrAlreadyUpTodate
            else
              andthen (on_obj lock_repo) (\<lambda>_. defer_unlock_repo (replace_app X restKubeConfig i app)))))"

subsection \<open>DeleteApplication\<close>

text \<open>
  The deferred calls are \<^verbatim>\<open>r.Mutex.TryLock()\<close> and \<^verbatim>\<open>application.mutex.TryLock()\<close>: on mutexes
  the function holds they do nothing, so both stay locked.
\<close>

definition defer_trylock_repo :: "(repo_config \<times> 'w, 'a) comp \<Rightarrow> (repo_config \<times> 'w, 'a) comp" where
  "defer_trylock_repo m s =
     (case m s of
        (Spin, s') \<Rightarrow> (Spin, s')
      | (res, (r, w)) \<Rightarrow> (res, (r\<lparr>rc_Mutex := snd (TryLock (rc_Mutex r))\<rparr>, w)))"

text \<open>\<^verbatim>\<open>application.deliveryProvider.Uninstall()\<close> on the locked application; its error is logged.\<close>

definition uninstall_logged :: "'e externals \<Rightarrow> application \<Rightarrow> ('e world, unit) comp" where
  "uninstall_logged X app =
     andthen (attempt (object_after (app_provider_Uninstall X) app)) (\<lambda>_. ret ())"

definition DeleteApplication :: "'e externals \<Rightarrow> string \<Rightarrow> (repo_config \<times> 'e world, unit) comp" where
  "DeleteApplication X name =
     andthen (gets (rc_Apps \<circ> fst)) (\<lambda>apps.
     andthen (pure_res (find_app_last name apps 0 None)) (\<lambda>appIndex.
       (case appIndex of
          None \<Rightarrow> ret ()
        | Some i \<Rightarrow>
            andthen (on_obj lock_repo) (\<lambda>_.
              defer_trylock_repo
                (andthen (lock_app i) (\<lambda>application.
                 andthen (on_world (uninstall_logged X application)) (\<lambda>_.
                   on_obj (modify (\<lambda>r. r\<lparr>rc_Apps := swap_remove (rc_Apps r) i\<rparr>)))))))))"

end
