(* ===== verification/Handler.thy ===== *)
theory Handler
  imports Repository
begin

section \<open>The repository handler\<close>

text \<open>
  \<^verbatim>\<open>server/pkg/instance/handler.go\<close> without the ticker loop, which theory \<open>Ticker\<close> models. The
  handler keeps the repositories; \<^verbatim>\<open>GetRepositoryConfig\<close> gives a pointer, here the index of the
  repository in \<open>h_Repos\<close>, so that an operation on the result updates the handler.
\<close>

record handler =
  h_Repos :: "repo_config list"
  h_Mutex :: mutex
  h_CurrentNamespace :: string

subsection \<open>Repositories\<close>

definition repo_url :: "repo_config \<Rightarrow> string" where
  "repo_url r = rs_URL (rc_Settings r)"

definition GetRepositoryConfig :: "handler \<Rightarrow> string \<Rightarrow> nat option" where
  "GetRepositoryConfig h URL = first_index (\<lambda>r. repo_url r = URL) (h_Repos h)"

text \<open>
  The new repository's mutex is locked and unlocked again; \<^verbatim>\<open>NewRepositoryConfig\<close> made it and
  left it unlocked.
\<close>

definition AddRepository :: "repo_config \<Rightarrow> (handler, unit) comp" where
  "AddRepository newRepository h =
     (case spin_lock (rc_Mutex newRepository) of
        (Ret _, m) \<Rightarrow>
          if list_ex (\<lambda>repo. repo_url repo = repo_url newRepository) (h_Repos h)
          then (Fail ErrRepositoryAlreadyExist, h)
          else (Ret (), h\<lparr>h_Repos := h_Repos h @ [newRepository\<lparr>rc_Mutex := False\<rparr>]\<rparr>)
      | (_, m) \<Rightarrow> (Spin, h))"

text \<open>
  One goroutine of \<^verbatim>\<open>DeleteRepository\<close>: wait for the application's mutex, uninstall, log an error.
  The mutex is not unlocked.
\<close>

definition uninstall_goroutine :: "'e externals \<Rightarrow> application option \<Rightarrow> ('e world, unit) comp" where
  "uninstall_goroutine X app =
     (case app of
        None \<Rightarrow> panicc NilDereference
      | Some a \<Rightarrow>
          (case spin_lock (a_mutex a) of
             (Ret _, m) \<Rightarrow>
               andthen (attempt (object_after (Uninstall X) (a\<lparr>a_mutex := m\<rparr>))) (\<lambda>_. ret ())
           | (_, m) \<Rightarrow> spinc))"

text \<open>
  The goroutines are awaited; they run here in slice order. The removal swaps the last repository
  into the freed slot.
\<close>

definition DeleteRepository :: "'e externals \<Rightarrow> string \<Rightarrow> (handler \<times> 'e world, unit) comp" where
  "DeleteRepository X name =
     andthen (gets (h_Repos \<circ> fst)) (\<lambda>repos.
       (case last_index (\<lambda>repo. rc_Name repo = name) repos of
          None \<Rightarrow> failc ErrRepositoryConfigNotFound
        | Some repoIndex \<Rightarrow>
            if rc_Mutex (repos ! repoIndex) then spinc
            else
              andthen (on_world (for_each (uninstall_goroutine X) (rc_Apps (repos ! repoIndex)))) (\<lambda>_.
                on_obj (modify (\<lambda>h. h\<lparr>h_Repos := swap_remove (h_Repos h) repoIndex\<rparr>)))))"

subsection \<open>Applications\<close>

fun find_app_in :: "string \<Rightarrow> string \<Rightarrow> application option list \<Rightarrow> application option res" where
  "find_app_in name url [] = Ret None"
| "find_app_in name url (None # apps) = Panic NilDereference"
| "find_app_in name url (Some a # apps) =
     (if a_Name a = name \<and> a_URL a = url then Ret (Some a) else find_app_in name url apps)"

fun GetApplication_in :: "string \<Rightarrow> string \<Rightarrow> repo_config list \<Rightarrow> application option res" where
  "GetApplication_in name url [] = Ret None"
| "GetApplication_in name url (r # rs) =
     (case find_app_in name url (rc_Apps r) of
        Ret None \<Rightarrow> GetApplication_in name url rs
      | res \<Rightarrow> res)"

definition GetApplication :: "handler \<Rightarrow> string \<Rightarrow> string \<Rightarrow> application option res" where
  "GetApplication h name url = GetApplication_in name url (h_Repos h)"

text \<open>A method call on the repository at an index of the handler.\<close>

definition on_repo :: "nat \<Rightarrow> (repo_config \<times> 'w, 'a) comp \<Rightarrow> (handler \<times> 'w, 'a) comp" where
  "on_repo i m s =
     (case m (h_Repos (fst s) ! i, snd s) of
        (res, (r, w)) \<Rightarrow> (res, ((fst s)\<lparr>h_Repos := (h_Repos (fst s))[i := r]\<rparr>, w)))"

subsection \<open>Known hosts and the Kubernetes configuration\<close>

definition NewKnownHosts :: "string \<Rightarrow> ('e world, string option) comp" where
  "NewKnownHosts knownHosts =
     (if length knownHosts = 0 then ret None
      else
        andthen deref_home (\<lambda>hm. let dir = Join [hm, ''tmp''] in
        andthen (MkdirAll dir) (\<lambda>_. let knownHostsFile = Join [dir, ''known_hosts''] in
        andthen (WriteFile knownHostsFile knownHosts) (\<lambda>_.
          ret (Some knownHostsFile)))))"

text \<open>One of the three blocks: a file name is set and the data written where only the data is there.\<close>

definition materialize ::
    "(rest_config \<Rightarrow> string) \<Rightarrow> (rest_config \<Rightarrow> bytes) \<Rightarrow> (string \<Rightarrow> rest_config \<Rightarrow> rest_config) \<Rightarrow>
     string \<Rightarrow> rest_config \<Rightarrow> ('e world, rest_config) comp" where
  "materialize file data set_file target cfg =
     (if length (file cfg) = 0 \<and> length (data cfg) > 0 then
        andthen (WriteFile target (data cfg)) (\<lambda>_. ret (set_file target cfg))
      else ret cfg)"

text \<open>\<open>cfg0\<close> is the result of \<^verbatim>\<open>k8sConfig.GetConfigOrDie()\<close>.\<close>

definition NewKubernetesConfig :: "rest_config \<Rightarrow> ('e world, rest_config) comp" where
  "NewKubernetesConfig cfg0 =
     (let cfg = cfg0\<lparr>rcfg_Insecure := False, rcfg_QPS := 50, rcfg_Burst := 100\<rparr> in
      if length (rcfg_CertFile cfg) = 0 \<or> length (rcfg_CAFile cfg) = 0 \<or> length (rcfg_KeyFile cfg) = 0 then
        andthen deref_home (\<lambda>hm. let dir = Join [Workspace hm, ''serviceaccount''] in
        andthen (MkdirAll dir) (\<lambda>_.
        andthen (materialize rcfg_CertFile rcfg_CertData (\<lambda>f c. c\<lparr>rcfg_CertFile := f\<rparr>)
                   (Join [dir, ''cert.crt'']) cfg) (\<lambda>cfg.
        andthen (materialize rcfg_CAFile rcfg_CAData (\<lambda>f c. c\<lparr>rcfg_CAFile := f\<rparr>)
                   (Join [dir, ''ca.crt'']) cfg) (\<lambda>cfg.
          materialize rcfg_KeyFile rcfg_KeyData (\<lambda>f c. c\<lparr>rcfg_KeyFile := f\<rparr>)
            (Join [dir, ''private.key'']) cfg))))
      else ret cfg)"

end
