(* ===== verification/Messages.thy ===== *)
theory Messages
  imports Types
begin

section \<open>The messages of the gRPC service\<close>

text \<open>
  The message types of \<^verbatim>\<open>server/pkg/pb/handler.pb.go\<close> with their getters. A message is a pointer,
  so a getter takes an option: on the nil pointer it gives the zero value of the field's type.
  Slices of messages hold the non-nil pointers the code puts there.
\<close>

record repository_msg =
  pr_Name :: string
  pr_Url :: string
  pr_PrivateKeySecret :: string
  pr_InsecureIgnoreHostKey :: bool

record revision_msg =
  pv_Hash :: string
  pv_Message :: string

record helm_msg =
  ph_CheckValuesEqual :: bool
  ph_ReInstallRelease :: bool
  ph_CreateNamespace :: bool
  ph_Atomic :: bool
  ph_IncludeCRDs :: bool
  ph_ValuesFiles :: "string list"

record application_msg =
  pa_Name :: string
  pa_Namespace :: string
  pa_Url :: string
  pa_Reference :: string
  pa_SparsePath :: string
  pa_Revision :: "revision_msg option"
  pa_Helm :: "helm_msg option"

subsection \<open>Getters of \<^verbatim>\<open>Repository\<close>\<close>

definition repository_GetName :: "repository_msg option \<Rightarrow> string" where
  "repository_GetName x = (case x of None \<Rightarrow> [] | Some m \<Rightarrow> pr_Name m)"

definition repository_GetUrl :: "repository_msg option \<Rightarrow> string" where
  "repository_GetUrl x = (case x of None \<Rightarrow> [] | Some m \<Rightarrow> pr_Url m)"

definition repository_GetPrivateKeySecret :: "repository_msg option \<Rightarrow> string" where
  "repository_GetPrivateKeySecret x = (case x of None \<Rightarrow> [] | Some m \<Rightarrow> pr_PrivateKeySecret m)"

definition repository_GetInsecureIgnoreHostKey :: "repository_msg option \<Rightarrow> bool" where
  "repository_GetInsecureIgnoreHostKey x = (case x of None \<Rightarrow> False | Some m \<Rightarrow> pr_InsecureIgnoreHostKey m)"

subsection \<open>Getters of \<^verbatim>\<open>Revision\<close>\<close>

definition revision_GetHash :: "revision_msg option \<Rightarrow> string" where
  "revision_GetHash x = (case x of None \<Rightarrow> [] | Some m \<Rightarrow> pv_Hash m)"

definition revision_GetMessage :: "revision_msg option \<Rightarrow> string" where
  "revision_GetMessage x = (case x of None \<Rightarrow> [] | Some m \<Rightarrow> pv_Message m)"

subsection \<open>Getters of \<^verbatim>\<open>HelmProvider\<close>\<close>

definition helm_GetCheckValuesEqual :: "helm_msg option \<Rightarrow> bool" where
  "helm_GetCheckValuesEqual x = (case x of None \<Rightarrow> False | Some m \<Rightarrow> ph_CheckValuesEqual m)"

definition helm_GetReInstallRelease :: "helm_msg option \<Rightarrow> bool" where
  "helm_GetReInstallRelease x = (case x of None \<Rightarrow> False | Some m \<Rightarrow> ph_ReInstallRelease m)"

definition helm_GetCreateNamespace :: "helm_msg option \<Rightarrow> bool" where
  "helm_GetCreateNamespace x = (case x of None \<Rightarrow> False | Some m \<Rightarrow> ph_CreateNamespace m)"

definition helm_GetAtomic :: "helm_msg option \<Rightarrow> bool" where
  "helm_GetAtomic x = (case x of None \<Rightarrow> False | Some m \<Rightarrow> ph_Atomic m)"

definition helm_GetIncludeCRDs :: "helm_msg option \<Rightarrow> bool" where
  "helm_GetIncludeCRDs x = (case x of None \<Rightarrow> False | Some m \<Rightarrow> ph_IncludeCRDs m)"

definition helm_GetValuesFiles :: "helm_msg option \<Rightarrow> string list" where
  "helm_GetValuesFiles x = (case x of None \<Rightarrow> [] | Some m \<Rightarrow> ph_ValuesFiles m)"

subsection \<open>Getters of \<^verbatim>\<open>Application\<close>\<close>

definition application_GetName :: "application_msg option \<Rightarrow> string" where
  "application_GetName x = (case x of None \<Rightarrow> [] | Some m \<Rightarrow> pa_Name m)"

definition application_GetNamespace :: "application_msg option \<Rightarrow> string" where
  "application_GetNamespace x = (case x of None \<Rightarrow> [] | Some m \<Rightarrow> pa_Namespace m)"

definition application_GetUrl :: "application_msg option \<Rightarrow> string" where
  "application_GetUrl x = (case x of None \<Rightarrow> [] | Some m \<Rightarrow> pa_Url m)"

definition application_GetReference :: "application_msg option \<Rightarrow> string" where
  "application_GetReference x = (case x of None \<Rightarrow> [] | Some m \<Rightarrow> pa_Reference m)"

definition application_GetSparsePath :: "application_msg option \<Rightarrow> string" where
  "application_GetSparsePath x = (case x of None \<Rightarrow> [] | Some m \<Rightarrow> pa_SparsePath m)"

definition application_GetRevision :: "application_msg option \<Rightarrow> revision_msg option" where
  "application_GetRevision x = (case x of None \<Rightarrow> None | Some m \<Rightarrow> pa_Revision m)"

definition application_GetHelm :: "application_msg option \<Rightarrow> helm_msg option" where
  "application_GetHelm x = (case x of None \<Rightarrow> None | Some m \<Rightarrow> pa_Helm m)"

text \<open>\<^verbatim>\<open>Applications\<close> and \<^verbatim>\<open>Revisions\<close> are lists of messages, \<^verbatim>\<open>Empty\<close> is the unit.\<close>

record applications_msg =
  pas_Items :: "application_msg list"

record revisions_msg =
  pvs_Items :: "revision_msg list"

definition applications_GetItems :: "applications_msg option \<Rightarrow> application_msg list" where
  "applications_GetItems x = (case x of None \<Rightarrow> [] | Some m \<Rightarrow> pas_Items m)"

definition revisions_GetItems :: "revisions_msg option \<Rightarrow> revision_msg list" where
  "revisions_GetItems x = (case x of None \<Rightarrow> [] | Some m \<Rightarrow> pvs_Items m)"

lemmas getters =
  repository_GetName_def repository_GetUrl_def repository_GetPrivateKeySecret_def
  repository_GetInsecureIgnoreHostKey_def revision_GetHash_def revision_GetMessage_def
  helm_GetCheckValuesEqual_def helm_GetReInstallRelease_def helm_GetCreateNamespace_def
  helm_GetAtomic_def helm_GetIncludeCRDs_def helm_GetValuesFiles_def
  application_GetName_def application_GetNamespace_def application_GetUrl_def
  application_GetReference_def application_GetSparsePath_def application_GetRevision_def
  application_GetHelm_def applications_GetItems_def revisions_GetItems_def

end
