(* ===== verification/Server.thy ===== *)
theory Server
  imports Handler Messages
begin

section \<open>The gRPC server\<close>

text \<open>
  \<^verbatim>\<open>server/pkg/server/server.go\<close>, one definition per RPC, and the start-up of
  \<^verbatim>\<open>server/main.go\<close>. An RPC that returns \<^verbatim>\<open>&pb.Empty{}, err\<close> with an error is \<open>Fail\<close>: gRPC
  drops the message then. A request is a pointer to a message, so the RPCs read it with the
  nil-safe getters of theory \<open>Messages\<close>. Each RPC is one computation on the server and the world.
\<close>

record server =
  sv_KubeConfig :: rest_config
  sv_Handler :: handler

definition on_handler :: "(handler \<times> 'w, 'a) comp \<Rightarrow> (server \<times> 'w, 'a) comp" where
  "on_handler m s =
     (case m (sv_Handler (fst s), snd s) of
        (res, (h, w)) \<Rightarrow> (res, ((fst s)\<lparr>sv_Handler := h\<rparr>, w)))"

text \<open>\<^verbatim>\<open>for !s.Handler.Mutex.TryLock() {}\<close> and \<^verbatim>\<open>defer s.Handler.Mutex.Unlock()\<close>.\<close>

definition lock_handler :: "(handler, unit) comp" where
  "lock_handler h = (case spin_lock (h_Mutex h) of (res, m) \<Rightarrow> (res, h\<lparr>h_Mutex := m\<rparr>))"

definition defer_unlock_handler :: "(handler \<times> 'w, 'a) comp \<Rightarrow> (handler \<times> 'w, 'a) comp" where
  "defer_unlock_handler m s =
     (case m s of
        (Spin, s') \<Rightarrow> (Spin, s')
      | (res, (h, w)) \<Rightarrow> (res, (h\<lparr>h_Mutex := False\<rparr>, w)))"

definition with_handler_lock :: "(handler \<times> 'w, 'a) comp \<Rightarrow> (handler \<times> 'w, 'a) comp" where
  "with_handler_lock m = andthen (on_obj lock_handler) (\<lambda>_. defer_unlock_handler m)"

subsection \<open>Repositories\<close>

definition request_settings :: "repository_msg option \<Rightarrow> repository_settings" where
  "request_settings inm =
     \<lparr>rs_URL = repository_GetUrl inm,
      rs_PrivateKeySecret = repository_GetPrivateKeySecret inm,
      rs_InsecureIgnoreHostKey = repository_GetInsecureIgnoreHostKey inm\<rparr>"

text \<open>\<^verbatim>\<open>&RepositoryConfig{...}\<close> as \<^verbatim>\<open>NewRepositoryConfig\<close> leaves it: a fresh mutex, no applications.\<close>

definition new_repository :: "repo_core \<Rightarrow> repo_config" where
  "new_repository core = repo_core.extend core \<lparr>rc_Mutex = False, rc_Apps = []\<rparr>"

text \<open>The part of \<^verbatim>\<open>AddRepository\<close> that runs under the handler's mutex.\<close>

definition register_repository ::
    "'e externals \<Rightarrow> rest_config \<Rightarrow> repository_msg option \<Rightarrow> (handler \<times> 'e world, unit) comp" where
  "register_repository X kubeConfig inm =
     andthen (gets (h_CurrentNamespace \<circ> fst)) (\<lambda>ns.
     andthen (on_world (NewRepositoryConfig X kubeConfig (repository_GetName inm) (request_settings inm) ns)) (\<lambda>core.
       on_obj (AddRepository (new_repository core))))"

definition rpc_AddRepository ::
    "'e externals \<Rightarrow> repository_msg option \<Rightarrow> (server \<times> 'e world, unit) comp" where
  "rpc_AddRepository X inm =
     andthen (gets (\<lambda>(s, w). GetRepositoryConfig (sv_Handler s) (repository_GetUrl inm))) (\<lambda>repositoryConfig.
       (case repositoryConfig of
          Some i \<Rightarrow> ret ()
        | None \<Rightarrow>
            andthen (gets (\<lambda>(s, w). sv_KubeConfig s)) (\<lambda>kubeConfig.
              on_handler (with_handler_lock (register_repository X kubeConfig inm)))))"

definition rpc_DeleteRepository ::
    "'e externals \<Rightarrow> repository_msg option \<Rightarrow> (server \<times> 'e world, unit) comp" where
  "rpc_DeleteRepository X inm =
     on_handler (with_handler_lock (DeleteRepository X (repository_GetName inm)))"

subsection \<open>Applications\<close>

definition request_helm :: "helm_msg option \<Rightarrow> helm_provider" where
  "request_helm hm =
     \<lparr>hp_chart = None, hp_settings = None, hp_manager = None,
      hp_ActionOptions =
        \<lparr>ho_CheckValuesEqual = helm_GetCheckValuesEqual hm,
         ho_ReInstallRelease = helm_GetReInstallRelease hm,
         ho_CreateNamespace = helm_GetCreateNamespace hm,
         ho_Atomic = helm_GetAtomic hm,
         ho_IncludeCRDs = helm_GetIncludeCRDs hm,
         ho_actionTimeout = 0\<rparr>,
      hp_appRevisionSet = False, hp_releaseName = [], hp_chartPath = [],
      hp_ValueFiles = helm_GetValuesFiles hm, hp_chartValues = YNull, hp_namespace = []\<rparr>"

definition request_app :: "application_msg option \<Rightarrow> repo_core \<Rightarrow> app_spec" where
  "request_app inm repository =
     \<lparr>a_Name = application_GetName inm,
      a_Namespace = application_GetNamespace inm,
      a_URL = application_GetUrl inm,
      a_Reference = application_GetReference inm,
      a_SparsePath = application_GetSparsePath inm,
      a_CurrentRevision = ZeroHash,
      a_RepositoryConfig = repository,
      a_Helm = request_helm (application_GetHelm inm)\<rparr>"

definition rpc_AddOrUpdateApplication ::
    "'e externals \<Rightarrow> app_cmp \<Rightarrow> application_msg option \<Rightarrow> (server \<times> 'e world, unit) comp" where
  "rpc_AddOrUpdateApplication X cmp_equal inm =
     andthen (gets (\<lambda>(s, w). GetRepositoryConfig (sv_Handler s) (application_GetUrl inm))) (\<lambda>repository.
       (case repository of
          None \<Rightarrow> failc ErrRepositoryConfigNotFound
        | Some i \<Rightarrow>
            andthen (gets (\<lambda>(s, w). repo_core.truncate (h_Repos (sv_Handler s) ! i))) (\<lambda>core.
            andthen (gets (\<lambda>(s, w). sv_KubeConfig s)) (\<lambda>kubeConfig.
            andthen (attempt (on_handler (on_repo i
                (AddOrUpdateApplication X kubeConfig cmp_equal (request_app inm core))))) (\<lambda>res.
              (case res of
                 Inl err \<Rightarrow> if err = NoErrAlreadyUpTodate then ret () else failc err
               | Inr _ \<Rightarrow> ret ()))))))"

definition rpc_DeleteApplication ::
    "'e externals \<Rightarrow> application_msg option \<Rightarrow> (server \<times> 'e world, unit) comp" where
  "rpc_DeleteApplication X inm =
     andthen (gets (\<lambda>(s, w). GetRepositoryConfig (sv_Handler s) (application_GetUrl inm))) (\<lambda>repository.
       (case repository of
          None \<Rightarrow> ret ()
        | Some i \<Rightarrow> on_handler (on_repo i (DeleteApplication X (application_GetName inm)))))"

subsection \<open>Queries\<close>

definition application_item :: "'e externals \<Rightarrow> application \<Rightarrow> application_msg" where
  "application_item X a =
     \<lparr>pa_Name = a_Name a, pa_Namespace = a_Namespace a, pa_Url = a_URL a,
      pa_Reference = a_Reference a, pa_SparsePath = [],
      pa_Revision = Some \<lparr>pv_Hash = x_hash_string X (a_CurrentRevision a), pv_Message = []\<rparr>,
      pa_Helm = None\<rparr>"

text \<open>The two nested loops of \<^verbatim>\<open>GetApplications\<close>; a nil slot panics.\<close>

definition list_apps ::
    "'e externals \<Rightarrow> application option list \<Rightarrow> (server \<times> 'e world, application_msg list) comp" where
  "list_apps X apps =
     map_each (\<lambda>slot. case slot of None \<Rightarrow> panicc NilDereference | Some a \<Rightarrow> ret (application_item X a)) apps"

definition rpc_GetApplications :: "'e externals \<Rightarrow> (server \<times> 'e world, applications_msg) comp" where
  "rpc_GetApplications X =
     andthen (gets (\<lambda>(s, w). h_Repos (sv_Handler s))) (\<lambda>repos.
     andthen (map_each (\<lambda>r. list_apps X (rc_Apps r)) repos) (\<lambda>applications.
       ret \<lparr>pas_Items = concat applications\<rparr>))"

definition rpc_GetApplicationRevisions ::
    "'e externals \<Rightarrow> application_msg option \<Rightarrow> (server \<times> 'e world, revisions_msg) comp" where
  "rpc_GetApplicationRevisions X inm =
     andthen (\<lambda>s. (GetApplication (sv_Handler (fst s)) (application_GetName inm) (application_GetUrl inm), s))
      (\<lambda>app. (case app of
          None \<Rightarrow> failc ErrApplicationNotFound
        | Some a \<Rightarrow>
            andthen (on_world (GetRevisionStringsMap X a)) (\<lambda>appRevisions.
              ret \<lparr>pvs_Items = map (\<lambda>m. \<lparr>pv_Hash = map_get m ''hash'', pv_Message = map_get m ''message''\<rparr>)
                     appRevisions\<rparr>)))"

definition rpc_CheckoutApplicationRevision ::
    "application_msg option \<Rightarrow> (server \<times> 'e world, unit) comp" where
  "rpc_CheckoutApplicationRevision inm = ret ()"

subsection \<open>The service\<close>

text \<open>
  A decoded request to the service as one value, and what the handlers of the generated
  \<^verbatim>\<open>handler_grpc.pb.go\<close> do with it: each calls the server's method of its name. Theory \<open>Rpc\<close> has the handlers
  themselves.
\<close>

datatype rpc_request =
    AddRepositoryReq "repository_msg option"
  | DeleteRepositoryReq "repository_msg option"
  | AddOrUpdateApplicationReq "application_msg option"
  | DeleteApplicationReq "application_msg option"
  | GetApplicationsReq
  | GetApplicationRevisionsReq "application_msg option"
  | CheckoutApplicationRevisionReq "application_msg option"

datatype rpc_reply = EmptyReply | ApplicationsReply applications_msg | RevisionsReply revisions_msg

definition replying :: "('a \<Rightarrow> rpc_reply) \<Rightarrow> ('s, 'a) comp \<Rightarrow> ('s, rpc_reply) comp" where
  "replying f m = andthen m (\<lambda>x. ret (f x))"

fun serve :: "'e externals \<Rightarrow> app_cmp \<Rightarrow> rpc_request \<Rightarrow> (server \<times> 'e world, rpc_reply) comp" where
  "serve X cmp_equal (AddRepositoryReq m) = replying (\<lambda>_. EmptyReply) (rpc_AddRepository X m)"
| "serve X cmp_equal (DeleteRepositoryReq m) = replying (\<lambda>_. EmptyReply) (rpc_DeleteRepository X m)"
| "serve X cmp_equal (AddOrUpdateApplicationReq m) =
     replying (\<lambda>_. EmptyReply) (rpc_AddOrUpdateApplication X cmp_equal m)"
| "serve X cmp_equal (DeleteApplicationReq m) = replying (\<lambda>_. EmptyReply) (rpc_DeleteApplication X m)"
| "serve X cmp_equal GetApplicationsReq = replying ApplicationsReply (rpc_GetApplications X)"
| "serve X cmp_equal (GetApplicationRevisionsReq m) =
     replying RevisionsReply (rpc_GetApplicationRevisions X m)"
| "serve X cmp_equal (CheckoutApplicationRevisionReq m) =
     replying (\<lambda>_. EmptyReply) (rpc_CheckoutApplicationRevision m)"

subsection \<open>Start-up\<close>

definition namespaceFile :: string where
  "namespaceFile = ''/var/run/secrets/kubernetes.io/serviceaccount/namespace''"

text \<open>
  \<^verbatim>\<open>main\<close> up to the registration of the service. \<open>cfg0\<close> is the configuration
  \<^verbatim>\<open>GetConfigOrDie\<close> found, \<open>listen\<close> the call of \<^verbatim>\<open>net.Listen\<close>. \<^verbatim>\<open>PanicOnError\<close> panics on the error
  of the missing namespace, so what would follow it is never reached.
\<close>

definition panic_on_error :: "('e world, 'a) comp \<Rightarrow> ('e world, 'a) comp" where
  "panic_on_error m =
     andthen (attempt m) (\<lambda>res.
     andthen (PanicOnError (case res of Inl err \<Rightarrow> Some err | Inr x \<Rightarrow> None)) (\<lambda>_. ret (projr res)))"

definition server_main ::
    "rest_config \<Rightarrow> (int \<Rightarrow> ('e world, unit) comp) \<Rightarrow> int \<Rightarrow> ('e world, server) comp" where
  "server_main cfg0 listen port =
     andthen (panic_on_error (NewKubernetesConfig cfg0)) (\<lambda>kubeConfig.
     andthen (panic_on_error (listen port)) (\<lambda>_.
     andthen (gets (\<lambda>w. ReadFile namespaceFile w)) (\<lambda>currentNamespace.
       (case currentNamespace of
          None \<Rightarrow> andthen (PanicOnError (Some (NewError ''error while define current namespace''))) (\<lambda>_. spinc)
        | Some ns \<Rightarrow>
            ret \<lparr>sv_KubeConfig = kubeConfig,
                 sv_Handler = \<lparr>h_Repos = [], h_Mutex = False, h_CurrentNamespace = ns\<rparr>\<rparr>))))"

end
