(* ===== verification/StoreProofs.thy ===== *)
theory StoreProofs
  imports Server
begin

section \<open>The invariant of the handler's data\<close>

text \<open>
  What is true of the repositories and applications between calls: an application belongs to its
  repository's URL, its storage path is the one of its name, its provider can be called and carries
  its name; the applications of a repository have distinct names, the repositories distinct URLs.
  Every operation that returns maintains it.
\<close>

definition app_wf :: "string \<Rightarrow> application \<Rightarrow> bool" where
  "app_wf url a \<longleftrightarrow>
     a_URL a = url \<and> provider_ready (a_deliveryProvider a) \<and>
     provider_release (a_deliveryProvider a) = a_Name a \<and>
     (\<exists>hm. a_storagePath a = storage_path hm (a_Name a))"

definition live_apps :: "application option list \<Rightarrow> application list" where
  "live_apps slots = concat (map (\<lambda>slot. case slot of None \<Rightarrow> [] | Some a \<Rightarrow> [a]) slots)"

definition slots_wf :: "string \<Rightarrow> application option list \<Rightarrow> bool" where
  "slots_wf url slots \<longleftrightarrow>
     (\<forall>a\<in>set (live_apps slots). app_wf url a) \<and> distinct (map a_Name (live_apps slots))"

definition repo_wf :: "repo_config \<Rightarrow> bool" where
  "repo_wf r \<longleftrightarrow> slots_wf (repo_url r) (rc_Apps r)"

lemma live_apps_simps [simp]:
  "live_apps [] = []"
  "live_apps (None # slots) = live_apps slots"
  "live_apps (Some a # slots) = a # live_apps slots"
  "live_apps (xs @ ys) = live_apps xs @ live_apps ys"
  by (simp_all add: live_apps_def)

lemma set_live_apps: "a \<in> set (live_apps slots) \<longleftrightarrow> Some a \<in> set slots"
  by (induction slots rule: list.induct) (auto simp: live_apps_def split: option.splits)

subsection \<open>Replacing and removing a slot\<close>

lemma live_apps_split:
  assumes "i < length slots" and "slots ! i = Some a"
  shows "live_apps slots = live_apps (take i slots) @ a # live_apps (drop (Suc i) slots)"
  using id_take_nth_drop[OF assms(1)] assms(2) by (metis live_apps_simps(3,4))

lemma live_apps_update:
  "i < length slots \<Longrightarrow> live_apps (slots[i := x]) =
     live_apps (take i slots) @ live_apps [x] @ live_apps (drop (Suc i) slots)"
  by (metis Cons_eq_appendI append_Nil live_apps_simps(4) upd_conv_take_nth_drop)

lemma slots_wf_replace:
  assumes "slots_wf url slots" and "i < length slots" and "slots ! i = Some a"
    and "app_wf url b" and "a_Name b = a_Name a"
  shows "slots_wf url (slots[i := Some b])"
  using assms by (auto simp: slots_wf_def live_apps_update live_apps_split[OF assms(2,3)])

lemma slots_wf_clear:
  assumes "slots_wf url slots" and "i < length slots" and "slots ! i = Some a"
  shows "slots_wf url (slots[i := None])"
  using assms by (auto simp: slots_wf_def live_apps_update live_apps_split[OF assms(2,3)])

lemma slots_wf_append:
  "slots_wf url slots \<Longrightarrow> app_wf url a \<Longrightarrow> a_Name a \<notin> a_Name ` set (live_apps slots) \<Longrightarrow>
     slots_wf url (slots @ [Some a])"
  by (auto simp: slots_wf_def)

lemma mset_live_apps: "mset (live_apps slots) = \<Sum>\<^sub># (image_mset (\<lambda>s. mset (live_apps [s])) (mset slots))"
  by (induction slots rule: list.induct) (auto simp: live_apps_def)

lemma slots_wf_perm:
  assumes "mset (live_apps slots') = mset (live_apps slots)" and "slots_wf url slots"
  shows "slots_wf url slots'"
proof -
  have "mset (map a_Name (live_apps slots')) = mset (map a_Name (live_apps slots))"
    by (simp add: assms(1))
  then show ?thesis
    using assms(2) mset_eq_setD[OF assms(1)] mset_eq_imp_distinct_iff unfolding slots_wf_def by blast
qed

lemma slots_wf_swap_remove:
  assumes "slots_wf url slots" and "i < length slots"
  shows "slots_wf url (swap_remove slots i)"
proof -
  have "mset (live_apps (slots ! i # swap_remove slots i)) = mset (live_apps slots)"
    unfolding mset_live_apps[of slots] mset_live_apps[of "slots ! i # _"] mset.simps
    by (simp only: mset_swap_remove[OF assms(2)])
  then have "slots_wf url (slots ! i # swap_remove slots i)"
    by (rule slots_wf_perm[OF _ assms(1)])
  then show ?thesis
    by (cases "slots ! i") (auto simp: slots_wf_def)
qed

lemma live_apps_swap_remove:
  assumes "i < length slots" and "slots ! i = Some a"
  shows "mset (live_apps slots) = add_mset a (mset (live_apps (swap_remove slots i)))"
proof -
  have "mset (live_apps (slots ! i # swap_remove slots i)) = mset (live_apps slots)"
    unfolding mset_live_apps[of slots] mset_live_apps[of "slots ! i # _"] mset.simps
    by (simp only: mset_swap_remove[OF assms(1)])
  with assms(2) show ?thesis by simp
qed

subsection \<open>The search loops\<close>

lemma find_app_first_Some:
  "find_app_first name slots k = Ret (Some i) \<Longrightarrow>
     k \<le> i \<and> i - k < length slots \<and> (\<exists>a. slots ! (i - k) = Some a \<and> a_Name a = name)"
proof (induction name slots k rule: find_app_first.induct)
  case (3 name app slots k)
  then show ?case
    by (cases "a_Name app = name") (auto simp: Suc_le_eq nth_Cons' less_diff_conv2 diff_Suc_less)
qed simp_all

lemma find_app_first_None:
  "find_app_first name slots k = Ret None \<Longrightarrow> \<forall>slot\<in>set slots. \<exists>a. slot = Some a \<and> a_Name a \<noteq> name"
  by (induction name slots k rule: find_app_first.induct) (auto split: if_splits)

lemma find_app_last_Some:
  "find_app_last name slots k found = Ret (Some i) \<Longrightarrow>
     found = Some i \<or>
     (k \<le> i \<and> i - k < length slots \<and> (\<exists>a. slots ! (i - k) = Some a \<and> a_Name a = name))"
proof (induction name slots k found rule: find_app_last.induct)
  case (3 name app slots k found)
  from 3(1)[OF _ ] 3(2) have "(if a_Name app = name then Some k else found) = Some i \<or>
      (Suc k \<le> i \<and> i - Suc k < length slots \<and> (\<exists>a. slots ! (i - Suc k) = Some a \<and> a_Name a = name))"
    by simp
  then show ?case
    by (auto simp: nth_Cons' split: if_splits)
qed simp_all

lemma find_app_first_index:
  "None \<notin> set slots \<Longrightarrow>
     find_app_first name slots k =
       Ret (map_option (\<lambda>i. k + i) (first_index (\<lambda>slot. a_Name (the slot) = name) slots))"
  by (induction name slots k rule: find_app_first.induct)
    (auto simp: option.map_comp comp_def intro!: option.map_cong)

lemma find_app_first_nil:
  "find_app_first name (xs @ None # ys) k =
     (case find_app_first name xs k of Ret None \<Rightarrow> Panic NilDereference | res \<Rightarrow> res)"
  by (induction name xs k rule: find_app_first.induct) auto

subsection \<open>Operations on a repository\<close>

lemma choose_provider_ready:
  assumes "choose_provider X K app path chartDir w = (Ret p, w')"
  shows "provider_ready p \<and> provider_release p = a_Name app"
proof (cases chartDir)
  case (Inl err)
  with assms show ?thesis by (auto simp: choose_provider_def andthen_eq_Ret dest: NewRawProvider_ok)
next
  case (Inr u)
  with assms show ?thesis
    by (auto simp: choose_provider_def andthen_eq_Ret object_after_def helm_ok_def dest: NewHelmProvider_ready
        split: prod.splits res.splits)
qed

lemma NewApplication_fields:
  assumes "NewApplication X K app w = (Ret a, w')"
  shows "app_spec.truncate a = app" "provider_ready (a_deliveryProvider a)"
    "provider_release (a_deliveryProvider a) = a_Name app" "\<not> a_mutex a"
    "\<exists>hm. a_storagePath a = storage_path hm (a_Name app)"
proof -
  from assms obtain hm chartDir p w1 w2 where
    p: "choose_provider X K app (Join [storage_path hm (a_Name app), a_SparsePath app]) chartDir w1 = (Ret p, w2)"
    and a: "app_spec.truncate a = app" "a_deliveryProvider a = p" "\<not> a_mutex a"
      "a_storagePath a = storage_path hm (a_Name app)"
    by (auto simp: NewApplication_def andthen_eq_Ret Let_def app_spec.defs)
  from choose_provider_ready[OF p] a show "app_spec.truncate a = app"
    "provider_ready (a_deliveryProvider a)" "provider_release (a_deliveryProvider a) = a_Name app"
    "\<not> a_mutex a" "\<exists>hm. a_storagePath a = storage_path hm (a_Name app)" by auto
qed

lemma app_spec_truncate_fields:
  "app_spec.truncate a = app \<Longrightarrow> a_Name a = a_Name app \<and> a_URL a = a_URL app"
  by (auto simp: app_spec.defs)

lemma NewApplication_wf:
  assumes "NewApplication X K app w = (Ret a, w')"
  shows "app_wf (a_URL app) a" and "a_Name a = a_Name app"
  using NewApplication_fields[OF assms] app_spec_truncate_fields by (auto simp: app_wf_def)

text \<open>The state predicate of the operations: a well-formed repository with the given URL.\<close>

definition repo_at :: "string \<Rightarrow> repo_config \<Rightarrow> bool" where
  "repo_at url r \<longleftrightarrow> repo_url r = url \<and> repo_wf r"

lemma repo_at_mutex [simp]: "repo_at url (r\<lparr>rc_Mutex := m\<rparr>) = repo_at url r"
  by (simp add: repo_at_def repo_wf_def repo_url_def)

lemma repo_at_apps: "repo_at url r \<Longrightarrow> slots_wf url slots \<Longrightarrow> repo_at url (r\<lparr>rc_Apps := slots\<rparr>)"
  by (simp add: repo_at_def repo_wf_def repo_url_def)

lemma repo_at_slots: "repo_at url r \<Longrightarrow> slots_wf url (rc_Apps r)"
  by (auto simp: repo_at_def repo_wf_def)

lemma app_wf_mutex [simp]: "app_wf url (a\<lparr>a_mutex := m\<rparr>) = app_wf url a"
  by (simp add: app_wf_def)

lemma slots_wf_nth: "slots_wf url slots \<Longrightarrow> i < length slots \<Longrightarrow> slots ! i = Some a \<Longrightarrow> app_wf url a"
  by (metis nth_mem set_live_apps slots_wf_def)

lemma lock_repo_cases:
  "lock_repo r = (res, r') \<Longrightarrow> \<not> rc_Mutex r \<and> res = Ret () \<and> r' = r\<lparr>rc_Mutex := True\<rparr> \<or> rc_Mutex r \<and> res = Spin"
  by (cases "rc_Mutex r") (auto simp: lock_repo_def)

lemma lock_app_Ret:
  assumes "lock_app i (r, w) = (Ret old, s)"
  obtains a where "rc_Apps r ! i = Some a" "\<not> a_mutex a" "old = a\<lparr>a_mutex := True\<rparr>"
    "s = (r\<lparr>rc_Apps := (rc_Apps r)[i := Some old]\<rparr>, w)"
proof -
  from assms obtain a where a: "rc_Apps r ! i = Some a"
    by (auto simp: lock_app_def split: option.splits)
  with assms that show thesis by (cases "a_mutex a") (auto simp: lock_app_def)
qed

lemma lock_app_not_Fail: "lock_app i s \<noteq> (Fail e, t)"
  by (auto simp: lock_app_def split: option.splits prod.splits res.splits)

lemma maintains_defer_unlock_repo [maintains_intros]:
  "maintains (\<lambda>(r, w). repo_at url r) m \<Longrightarrow> maintains (\<lambda>(r, w). repo_at url r) (defer_unlock_repo m)"
  by (rule maintainsI) (auto simp: defer_unlock_repo_def split: prod.splits res.splits dest: maintainsD)

lemma maintains_lock_repo [maintains_intros]: "maintains (repo_at url) lock_repo"
  by (rule maintainsI) (auto dest: lock_repo_cases)

lemma replace_app_wf:
  assumes m: "replace_app X K i app (r, w) = (res, (r', w'))" "returns res"
    and r: "repo_at url r" and i: "i < length (rc_Apps r)" "rc_Apps r ! i = Some a"
    and app: "a_Name app = a_Name a" "a_URL app = url"
  shows "repo_at url r'"
proof -
  obtain res1 s1 where l: "lock_app i (r, w) = (res1, s1)" by (metis prod.exhaust)
  show ?thesis
  proof (cases res1)
    case (Ret old)
    with l obtain b where b: "rc_Apps r ! i = Some b" "old = b\<lparr>a_mutex := True\<rparr>"
      "s1 = (r\<lparr>rc_Apps := (rc_Apps r)[i := Some old]\<rparr>, w)"
      by (metis lock_app_Ret)
    have [simp]: "b = a" using b(1) i by simp
    have wf: "slots_wf url (rc_Apps r)" using repo_at_slots[OF r] .
    have old: "app_wf url old" using slots_wf_nth[OF wf i] b(2) by simp
    have new: "slots_wf url ((rc_Apps r)[i := Some n])" if "NewApplication X K app v = (Ret n, v')" for n v v'
      using slots_wf_replace[OF wf i] NewApplication_wf[OF that] app by simp
    have clr: "slots_wf url ((rc_Apps r)[i := None])" by (rule slots_wf_clear[OF wf i])
    have unl: "slots_wf url ((rc_Apps r)[i := Some (old\<lparr>a_mutex := m\<rparr>)])" for m
      using slots_wf_replace[OF wf i] old b(2) by simp
    show ?thesis
      using m l Ret r unl clr unfolding replace_app_def rebuild_app_def Let_def b(3)
      by (auto simp: new repo_at_apps split: prod.splits res.splits)
  qed (use m l lock_app_not_Fail[of i "(r, w)"] in \<open>auto simp: replace_app_def rebuild_app_def Let_def\<close>)
qed

lemma AddOrUpdateApplication_wf:
  assumes m: "AddOrUpdateApplication X K cmp_equal app (r, w) = (res, (r', w'))" "returns res"
    and r: "repo_at url r" and app: "a_URL app = url"
  shows "repo_at url r'"
proof -
  obtain found where f: "find_app_first (a_Name app) (rc_Apps r) 0 = found" by blast
  show ?thesis
  proof (cases found)
    case (Ret slot)
    show ?thesis
    proof (cases slot)
      case None
      then have absent: "a_Name app \<notin> a_Name ` set (live_apps (rc_Apps r))"
        using find_app_first_None f Ret by (fastforce simp: set_live_apps)
      obtain n v where n: "NewApplication X K app w = (n, v)" by (metis prod.exhaust)
      show ?thesis
      proof (cases n)
        case (Ret a)
        have "slots_wf url (rc_Apps r @ [Some a])"
          using slots_wf_append[OF repo_at_slots[OF r]] NewApplication_wf[OF n[unfolded Ret]] app absent by simp
        then show ?thesis
          using m f \<open>found = Ret slot\<close> None n Ret r
          by (cases "rc_Mutex r")
            (auto simp: AddOrUpdateApplication_def pure_res_def andthen_def lock_repo_def defer_unlock_repo_def repo_at_apps)
      qed (use m f \<open>found = Ret slot\<close> None n r in
          \<open>auto simp: AddOrUpdateApplication_def pure_res_def andthen_def\<close>)
    next
      case (Some i)
      from find_app_first_Some[OF f[unfolded Ret Some]] obtain a where
        a: "i < length (rc_Apps r)" "rc_Apps r ! i = Some a" "a_Name app = a_Name a" by auto
      obtain res1 r1 w1 where p: "replace_app X K i app (r\<lparr>rc_Mutex := True\<rparr>, w) = (res1, (r1, w1))"
        by (metis prod.exhaust)
      have "returns res1 \<Longrightarrow> repo_at url r1"
        using replace_app_wf[OF p _ _ _ _ a(3) app] r a(1,2) by simp
      then show ?thesis
        using m f Ret Some p r
        by (cases "rc_Mutex r")
          (auto simp: AddOrUpdateApplication_def pure_res_def andthen_def lock_repo_def defer_unlock_repo_def
            split: res.splits if_splits)
    qed
  qed (use m f r in \<open>auto simp: AddOrUpdateApplication_def pure_res_def andthen_def\<close>)
qed

lemma DeleteApplication_wf:
  assumes m: "DeleteApplication X name (r, w) = (res, (r', w'))" "returns res"
    and r: "repo_at url r"
  shows "repo_at url r'"
proof -
  obtain found where f: "find_app_last name (rc_Apps r) 0 None = found" by blast
  show ?thesis
  proof (cases found)
    case (Ret slot)
    show ?thesis
    proof (cases slot)
      case None
      then show ?thesis using m f Ret r by (auto simp: DeleteApplication_def pure_res_def andthen_def)
    next
      case (Some i)
      from find_app_last_Some[OF f[unfolded Ret Some]] obtain a where
        a: "i < length (rc_Apps r)" "rc_Apps r ! i = Some a" by auto
      have lk: "slots_wf url ((rc_Apps r)[i := Some (a\<lparr>a_mutex := True\<rparr>)])"
        using slots_wf_replace[OF repo_at_slots[OF r] a] slots_wf_nth[OF repo_at_slots[OF r] a] by simp
      then have "slots_wf url (swap_remove ((rc_Apps r)[i := Some (a\<lparr>a_mutex := True\<rparr>)]) i)"
        by (rule slots_wf_swap_remove) (simp add: a(1))
      then show ?thesis
        using m f Ret Some r a lk
        by (cases "rc_Mutex r"; cases "a_mutex a")
          (auto simp: DeleteApplication_def pure_res_def andthen_def lock_repo_def defer_trylock_repo_def
            lock_app_def repo_at_apps split: res.splits prod.splits)
    qed
  qed (use m f r in \<open>auto simp: DeleteApplication_def pure_res_def andthen_def\<close>)
qed

end
