(* ===== verification/AppProps.thy ===== *)
theory AppProps
  imports StoreProofs Sample
begin

section \<open>Properties of applications\<close>

subsection \<open>What a life cycle changes\<close>

text \<open>
  \<open>life_frame a b\<close>: \<open>b\<close> is \<open>a\<close> but for its revision and its provider, and its revision is zero
  only if the one of \<open>a\<close> is.
\<close>

definition life_frame :: "application \<Rightarrow> application \<Rightarrow> bool" where
  "life_frame a b \<longleftrightarrow>
     b = a\<lparr>a_CurrentRevision := a_CurrentRevision b, a_deliveryProvider := a_deliveryProvider b\<rparr> \<and>
     (IsZero (a_CurrentRevision b) \<longrightarrow> IsZero (a_CurrentRevision a))"

lemma life_frame_refl [simp]: "life_frame a a"
  by (simp add: life_frame_def)

lemma life_frame_provider: "life_frame a b \<Longrightarrow> life_frame a (b\<lparr>a_deliveryProvider := d\<rparr>)"
  by (cases a; cases b) (simp add: life_frame_def)

lemma life_frame_revision: "life_frame a b \<Longrightarrow> \<not> IsZero h \<Longrightarrow> life_frame a (b\<lparr>a_CurrentRevision := h\<rparr>)"
  by (cases a; cases b) (simp add: life_frame_def)

lemma app_call_frame [keeps_intros]: "keeps (\<lambda>(b, w). life_frame a b) (app_call op)"
  by (rule keepsI) (auto simp: app_call_def life_frame_provider split: prod.splits)

lemma keeps_app_modify: "(\<And>b. P b \<Longrightarrow> P (f b)) \<Longrightarrow> keeps (\<lambda>(b, w). P b) (on_obj (modify f))"
  by (intro keeps_on_obj keeps_modify)

lemma deliver_head_frame [keeps_intros]: "keeps (\<lambda>(b, w). life_frame a b) (deliver_head X)"
  unfolding deliver_head_def app_Delivery_def
  by (intro keeps_intros keeps_app_modify life_frame_revision) simp_all

lemma RunLifeCycle_keeps: "keeps (\<lambda>(b, w). life_frame a b) (RunLifeCycle X)"
  unfolding RunLifeCycle_def app_Delivery_def by (intro keeps_intros)

text \<open>
  However a life cycle ends, it changes nothing of the application but the current revision and
  the state of its provider, and once the application has a revision it never loses it.
\<close>

lemma RunLifeCycle_frame:
  assumes "RunLifeCycle X (a, w) = (r, (a', w'))"
  shows "a' = a\<lparr>a_CurrentRevision := a_CurrentRevision a', a_deliveryProvider := a_deliveryProvider a'\<rparr> \<and>
    (\<not> IsZero (a_CurrentRevision a) \<longrightarrow> \<not> IsZero (a_CurrentRevision a'))"
  using keepsD_eq[OF RunLifeCycle_keeps[of a X] assms] by (auto simp: life_frame_def)

lemma app_call_revision: "app_call op (a, w) = (r, (a', w')) \<Longrightarrow> a_CurrentRevision a' = a_CurrentRevision a"
  by (auto simp: app_call_def split: prod.splits)

text \<open>An application whose git clone is one commit behind, with no manifest left to deliver.\<close>

definition core0 :: repo_core where
  "core0 = \<lparr>rc_Name = ''repo'',
     rc_Settings = \<lparr>rs_URL = ''https://h/r'', rs_PrivateKeySecret = [], rs_InsecureIgnoreHostKey = False\<rparr>,
     rc_auth = None\<rparr>"

definition spec0 :: app_spec where
  "spec0 = \<lparr>a_Name = ''a'', a_Namespace = ''default'', a_URL = ''https://h/r'', a_Reference = ''main'',
     a_SparsePath = ''r'', a_CurrentRevision = 1, a_RepositoryConfig = core0, 
     a_Helm = \<lparr>hp_chart = None, hp_settings = None, hp_manager = None,
       hp_ActionOptions = \<lparr>ho_CheckValuesEqual = False, ho_ReInstallRelease = False, ho_CreateNamespace = False,
         ho_Atomic = False, ho_IncludeCRDs = False, ho_actionTimeout = 0\<rparr>,
       hp_appRevisionSet = False, hp_releaseName = [], hp_chartPath = [], hp_ValueFiles = [],
       hp_chartValues = YNull, hp_namespace = []\<rparr>\<rparr>"

definition app0 :: application where
  "app0 = app_spec.extend spec0
     \<lparr>a_storagePath = ''/s/a'', a_handledPath = ''/s/a/r'',
      a_cloneOptions = GetCloneOptions core0 ''refs/heads/main'',
      a_checkoutOptions = \<lparr>ck_SparseCheckoutDirectories = [''r''], ck_Keep = False,
        ck_Branch = ''refs/heads/main'', ck_Force = True\<rparr>,
      a_pullOptions = GetPullOptions core0 ''refs/heads/main'',
      a_fetchOptions = GetFetchOptions core0,
      a_repo = 0, a_mutex = False,
      a_deliveryProvider = Raw \<lparr>rp_appName = ''a'', rp_resourcePath = ''/s/a/r'', rp_namespace = ''default'',
        rp_resources = [], rp_labels = [app_label \<mapsto> ''a''], rp_mutex = False, rp_cleanups = 0\<rparr>\<rparr>"

definition git_world :: "hash \<Rightarrow> sample_world" where
  "git_world upstream = \<lparr>home = Some ''/root'', disk = Dir [], spawned = [],
     ext = \<lparr>sx_objs = [], sx_releases = [],
       sx_history = [(\<lparr>c_Hash = 2, c_Message = ''new''\<rparr>, [''r/a.yaml'']), (\<lparr>c_Hash = 1, c_Message = ''old''\<rparr>, [''r/a.yaml''])],
       sx_local = 1, sx_remote = 1, sx_upstream = upstream\<rparr>\<rparr>"

lemma app0_sel [simp]:
  "a_CurrentRevision app0 = 1" "a_repo app0 = 0" "a_SparsePath app0 = ''r''" "a_Reference app0 = ''main''"
  by (simp_all add: app0_def spec0_def app_spec.defs)

lemma sample_git [simp]:
  "x_fetch sample rp fo = s_fetch" "x_worktree sample rp = ret 0" "x_checkout sample wt co = ret ()"
  "x_log sample rp flt = s_log flt" "x_pull sample wt po = s_pull"
  "x_reset_sparsely sample wt ro ds = modify (set_ext (\<lambda>e. e\<lparr>sx_local := ro_Commit ro\<rparr>))"
  "x_reference sample rp nm b =
     gets (\<lambda>w. if take 13 nm = ''refs/remotes/'' then sx_remote (ext w) else sx_local (ext w))"
  by (simp_all add: sample_def)

lemma app0_run:
  "\<exists>a' w'. RunLifeCycle sample (app0, git_world 2) = (Ret (), (a', w')) \<and> a_CurrentRevision a' = 2"
proof -
  have fetch: "s_fetch (git_world 2) = (Ret (), set_ext (\<lambda>e. e\<lparr>sx_remote := 2\<rparr>) (git_world 2))"
    by (simp add: s_fetch_def git_world_def set_ext_def)
  let ?w = "set_ext (\<lambda>e. e\<lparr>sx_remote := 2\<rparr>) (git_world 2)"
  have up: "update_worktree sample app0 ?w = (Ret True, set_ext (\<lambda>e. e\<lparr>sx_local := 2\<rparr>) ?w)"
    by (simp add: update_worktree_def getLocalReferenceName_def getRemoteReferenceName_def git_world_def
        set_ext_def andthen_def)
  have log: "s_log flt (set_ext (\<lambda>e. e\<lparr>sx_local := 2\<rparr>) ?w) =
      (Ret (map fst (filter (\<lambda>(c, ps). list_ex flt ps) (sx_history (ext (git_world 2))))), set_ext (\<lambda>e. e\<lparr>sx_local := 2\<rparr>) ?w)" for flt
    by (simp add: s_log_def git_world_def set_ext_def)
  have hist: "map fst (filter (\<lambda>(c, ps). list_ex (path_filter ''r'') ps) (sx_history (ext (git_world 2)))) =
      [\<lparr>c_Hash = 2, c_Message = ''new''\<rparr>, \<lparr>c_Hash = 1, c_Message = ''old''\<rparr>]"
    by (simp add: git_world_def path_filter_def HasPrefix_def)
  have head: "getApplicationHeadRevision sample app0 (set_ext (\<lambda>e. e\<lparr>sx_local := 2\<rparr>) ?w) =
      (Ret 2, set_ext (\<lambda>e. e\<lparr>sx_local := 2\<rparr>) ?w)"
    by (simp add: getApplicationHeadRevision_def getRevisionHashList_def getRevisionsWithPathFilter_def log hist
        andthen_def attempt_def)
  let ?v = "set_ext (\<lambda>e. e\<lparr>sx_local := 2\<rparr>) ?w"
  obtain a2 v2 where d: "app_Delivery sample (app0\<lparr>a_CurrentRevision := 2\<rparr>, ?v) = (Ret (), (a2, v2))"
    by (simp add: app_Delivery_def app_call_def provider_Delivery_def on_raw_def app0_def app_spec.defs raw_Delivery_def
        deliver_resources_def TryLock_def)
  have "deliver_head sample (app0, ?v) = (Ret (), (a2, v2))"
    using d head by (simp add: deliver_head_def IsZero_def ZeroHash_def)
  then have "RunLifeCycle sample (app0, git_world 2) = (Ret (), (a2, v2))"
    by (simp add: RunLifeCycle_def fetch up)
  moreover have "a_CurrentRevision a2 = 2"
    using app_call_revision[OF d[unfolded app_Delivery_def]] by simp
  ultimately show ?thesis by blast
qed

lemma RunLifeCycle_frame_witness:
  "\<exists>a' w'. RunLifeCycle sample (app0, git_world 2) = (Ret (), (a', w')) \<and> a_CurrentRevision a' = 2 \<and>
     a_Name a' = ''a'' \<and> \<not> IsZero (a_CurrentRevision a')"
proof -
  from app0_run obtain a' w' where r: "RunLifeCycle sample (app0, git_world 2) = (Ret (), (a', w'))"
    "a_CurrentRevision a' = 2" by blast
  from RunLifeCycle_frame[OF r(1)]
  have f: "a' = app0\<lparr>a_CurrentRevision := a_CurrentRevision a', a_deliveryProvider := a_deliveryProvider a'\<rparr>"
    "\<not> IsZero (a_CurrentRevision app0) \<longrightarrow> \<not> IsZero (a_CurrentRevision a')" by blast+
  have "a_Name a' = a_Name app0" using arg_cong[OF f(1), of a_Name] by simp
  moreover have "\<not> IsZero (a_CurrentRevision a')" using f(2) by (simp add: IsZero_def ZeroHash_def)
  ultimately show ?thesis using r by (auto simp: app0_def spec0_def app_spec.defs)
qed

subsection \<open>New revisions\<close>

lemma deliver_head_new:
  assumes "deliver_head X (a, w) = (r, (a', w'))" and "a_CurrentRevision a' \<noteq> a_CurrentRevision a"
  shows "\<exists>c cs w1 w2. x_log X (a_repo a) (path_filter (a_SparsePath a)) w1 = (Ret (c # cs), w2) \<and>
    \<not> IsZero (c_Hash c) \<and> a_CurrentRevision a' = c_Hash c \<and>
    app_Delivery X (a\<lparr>a_CurrentRevision := c_Hash c\<rparr>, w2) = (r, (a', w'))"
proof -
  obtain r1 w1 where wt: "x_worktree X (a_repo a) w = (r1, w1)" by (metis prod.exhaust)
  obtain wt where r1: "r1 = Ret wt"
    using assms wt by (cases r1) (auto simp: deliver_head_def andthen_def)
  obtain r2 w2 where co: "x_checkout X wt (a_checkoutOptions a) w1 = (r2, w2)" by (metis prod.exhaust)
  have r2: "r2 = Ret ()"
    using assms wt r1 co by (cases r2) (auto simp: deliver_head_def andthen_def)
  obtain r3 w3 where lg: "x_log X (a_repo a) (path_filter (a_SparsePath a)) w2 = (r3, w3)" by (metis prod.exhaust)
  have head: "getApplicationHeadRevision X a w2 =
      (case r3 of Ret [] \<Rightarrow> (Ret ZeroHash, w3) | Ret (c # cs) \<Rightarrow> (Ret (c_Hash c), w3)
        | Fail e \<Rightarrow> (Ret ZeroHash, w3) | Panic p \<Rightarrow> (Panic p, w3) | Spin \<Rightarrow> (Spin, w3))"
    using lg by (simp add: getApplicationHeadRevision_def getRevisionHashList_def getRevisionsWithPathFilter_def
        andthen_def attempt_def split: res.split list.split)
  obtain c cs where r3: "r3 = Ret (c # cs)" "\<not> IsZero (c_Hash c)" "a_CurrentRevision a \<noteq> c_Hash c"
    using assms wt r1 co r2 head
    by (cases r3) (auto simp: deliver_head_def andthen_def IsZero_def split: list.splits if_splits)
  have d: "app_Delivery X (a\<lparr>a_CurrentRevision := c_Hash c\<rparr>, w3) = (r, (a', w'))"
    using assms(1) wt r1 co r2 head r3 by (simp add: deliver_head_def andthen_def)
  moreover have "a_CurrentRevision a' = c_Hash c"
    using app_call_revision[OF d[unfolded app_Delivery_def]] by simp
  ultimately show ?thesis using lg r3 by blast
qed

text \<open>
  C6. A life cycle moves an application to a new revision only by delivering it: the new revision is
  the newest commit of the git log that touches the application's path, it was handed to the
  provider, and the life cycle ends as that delivery ended.
\<close>

theorem RunLifeCycle_new_revision:
  assumes "RunLifeCycle X (a, w) = (r, (a', w'))" and "a_CurrentRevision a' \<noteq> a_CurrentRevision a"
  shows "\<exists>c cs w1 w2. x_log X (a_repo a) (path_filter (a_SparsePath a)) w1 = (Ret (c # cs), w2) \<and>
    \<not> IsZero (c_Hash c) \<and> a_CurrentRevision a' = c_Hash c \<and>
    app_Delivery X (a\<lparr>a_CurrentRevision := c_Hash c\<rparr>, w2) = (r, (a', w'))"
proof -
  obtain r1 w1 where f: "x_fetch X (a_repo a) (a_fetchOptions a) w = (r1, w1)" by (metis prod.exhaust)
  obtain r2 w2 where u: "update_worktree X a w1 = (r2, w2)" by (metis prod.exhaust)
  have no_delivery: "app_Delivery X (a, v) \<noteq> (r, (a', w'))" for v
    using assms(2) app_call_revision unfolding app_Delivery_def by metis
  have "deliver_head X (a, w2) = (r, (a', w'))"
    using assms f u no_delivery
    by (cases r1; cases r2) (auto simp: RunLifeCycle_def andthen_def attempt_def split: if_splits)
  from deliver_head_new[OF this assms(2)] show ?thesis .
qed

theorem RunLifeCycle_new_revision_witness:
  "\<exists>c cs w1 w2 a' w'. s_log (path_filter ''r'') w1 = (Ret (c # cs), w2) \<and> c_Hash c = 2 \<and>
     app_Delivery sample (app0\<lparr>a_CurrentRevision := 2\<rparr>, w2) = (Ret (), (a', w'))"
proof -
  from app0_run obtain a' w' where r: "RunLifeCycle sample (app0, git_world 2) = (Ret (), (a', w'))"
    "a_CurrentRevision a' = 2" by blast
  then have "a_CurrentRevision a' \<noteq> a_CurrentRevision app0" by simp
  from RunLifeCycle_new_revision[OF r(1) this] r(2) obtain c cs w1 w2 where
    "s_log (path_filter ''r'') w1 = (Ret (c # cs), w2)" "c_Hash c = 2"
    "app_Delivery sample (app0\<lparr>a_CurrentRevision := 2\<rparr>, w2) = (Ret (), (a', w'))" by auto
  then show ?thesis by blast
qed

text \<open>With nothing to fetch and a revision set, a life cycle is one delivery of the current revision.\<close>

lemma RunLifeCycle_steady:
  assumes "x_fetch X (a_repo a) (a_fetchOptions a) w = (Fail GitNoErrAlreadyUpToDate, w1)"
    and "\<not> IsZero (a_CurrentRevision a)"
  shows "RunLifeCycle X (a, w) = app_Delivery X (a, w1)"
  using assms by (simp add: RunLifeCycle_def andthen_def attempt_def)

subsection \<open>Storage\<close>

lemma join_with_append_list:
  "xs \<noteq> [] \<Longrightarrow> ys \<noteq> [] \<Longrightarrow> join_with c (join_with c xs # ys) = join_with c (xs @ ys)"
proof (induction c xs rule: join_with.induct)
  case (2 c x)
  then show ?case by (cases ys) auto
next
  case (3 c x y zs)
  then show ?case by (cases ys) auto
qed simp

lemma Join_abs_paths:
  assumes "\<forall>x\<in>set (cs @ ys). plain_comp x" and "cs \<noteq> []"
  shows "Join (abs_path cs # ys) = abs_path (cs @ ys)"
proof (cases ys)
  case Nil
  with assms Clean_abs_path[of cs] show ?thesis by (simp add: Join_def abs_path_def)
next
  case (Cons y zs)
  have "join_with slash (abs_path cs # ys) = abs_path (cs @ ys)"
    using join_with_append_list[of cs ys slash] assms(2) Cons by (simp add: abs_path_def)
  then show ?thesis
    using Clean_abs_path[OF assms(1)] by (simp add: Join_def abs_path_def)
qed

lemma storage_path_abs:
  assumes "\<forall>x\<in>set hs. plain_comp x" and "hs \<noteq> []" and "plain_comp name"
  shows "storage_path (abs_path hs) name = abs_path (hs @ [''.dummycd'', ''storage'', name])"
proof -
  have p: "plain_comp ''.dummycd''" "plain_comp ''storage''" by (simp_all add: plain_comp_def)
  have "Workspace (abs_path hs) = abs_path (hs @ [''.dummycd'', ''storage''])"
    using Join_abs_paths[of hs "[''.dummycd'', ''storage'']"] assms p by (simp add: Workspace_def)
  then show ?thesis
    using Join_abs_paths[of "hs @ [''.dummycd'', ''storage'']" "[name]"] assms p by (simp add: storage_path_def)
qed

text \<open>
  The storage directories of two applications whose names are plain path components are the
  same exactly when the names are, and each is a direct entry of the workspace, so that removing
  one leaves the others.
\<close>

lemma storage_paths_separate:
  assumes "\<forall>x\<in>set hs. plain_comp x" and "hs \<noteq> []" and "plain_comp n" and "plain_comp m"
  shows "(storage_path (abs_path hs) n = storage_path (abs_path hs) m \<longleftrightarrow> n = m) \<and>
    path_comps (storage_path (abs_path hs) n) = path_comps (Workspace (abs_path hs)) @ [n]"
proof -
  have p: "plain_comp ''.dummycd''" "plain_comp ''storage''" by (simp_all add: plain_comp_def)
  have w: "Workspace (abs_path hs) = abs_path (hs @ [''.dummycd'', ''storage''])"
    using Join_abs_paths[of hs "[''.dummycd'', ''storage'']"] assms p by (simp add: Workspace_def)
  have c: "path_comps (storage_path (abs_path hs) k) = hs @ [''.dummycd'', ''storage'', k]" if "plain_comp k" for k
    unfolding storage_path_abs[OF assms(1,2) that] using assms p that by (intro path_comps_abs_path) auto
  have "path_comps (Workspace (abs_path hs)) = hs @ [''.dummycd'', ''storage'']"
    unfolding w using assms p by (intro path_comps_abs_path) auto
  with c[OF assms(3)] have "path_comps (storage_path (abs_path hs) n) = path_comps (Workspace (abs_path hs)) @ [n]"
    by simp
  moreover have "n = m" if "storage_path (abs_path hs) n = storage_path (abs_path hs) m"
    using arg_cong[OF that, of path_comps] unfolding c[OF assms(3)] c[OF assms(4)] by simp
  ultimately show ?thesis by blast
qed

lemma storage_paths_separate_witness:
  "storage_path (abs_path [''root'']) ''a'' \<noteq> storage_path (abs_path [''root'']) ''b''"
proof -
  have "plain_comp ''root''" "plain_comp ''a''" "plain_comp ''b''" by (simp_all add: plain_comp_def)
  with storage_paths_separate[of "[''root'']" "''a''" "''b''"] show ?thesis by simp
qed

text \<open>
  The storage directory depends on the name alone: a new application, of whatever repository, with
  the name of one whose clone is on disk works on that clone, not on one of its own URL.
\<close>

lemma same_name_shares_clone:
  assumes "NewApplication X K app w = (Ret a, w')" and "home w = Some hm"
    and "\<And>opts. x_plain_clone X (storage_path hm (a_Name app)) False opts w = (Fail GitErrRepositoryAlreadyExists, w)"
    and "x_plain_open X (storage_path hm (a_Name app)) w = (Ret repo, v)"
  shows "a_repo a = repo \<and> a_storagePath a = storage_path hm (a_Name app)"
proof -
  have "fst (NewGitRepository X (storage_path hm (a_Name app)) co ck w) = Ret r \<Longrightarrow> r = repo" for co ck r
    using assms(3,4)
    by (cases "fst (NewGitRepository X (storage_path hm (a_Name app)) co ck w)")
      (auto simp: NewGitRepository_def andthen_def attempt_def split: res.splits prod.splits)
  then have g: "NewGitRepository X (storage_path hm (a_Name app)) co ck w = (Ret r, v) \<Longrightarrow> r = repo" for co ck r v
    by (metis fst_conv)
  from assms(1,2) obtain r where r: "\<exists>co ck v. NewGitRepository X (storage_path hm (a_Name app)) co ck w = (Ret r, v)"
    and a: "a_repo a = r" "a_storagePath a = storage_path hm (a_Name app)"
    by (force simp: NewApplication_def andthen_eq_Ret Let_def app_spec.defs deref_home_def GetUserHome_def)
  with g show ?thesis by blast
qed

definition sample_shared :: "sample_ext externals" where
  "sample_shared = sample\<lparr>x_is_chart_dir := (\<lambda>path. ret ()),
     x_plain_clone := (\<lambda>path bare opts. failc GitErrRepositoryAlreadyExists), x_plain_open := (\<lambda>path. ret 7)\<rparr>"

lemma shared_made: "\<exists>a w'. NewApplication sample_shared rest0 spec0 (git_world 1) = (Ret a, w')"
  by (simp add: NewApplication_def deref_home_def GetUserHome_def git_world_def NewGitRepository_def
      sample_shared_def sample_def choose_provider_def object_after_def NewHelmProvider_def NewHelmManager_def NewHelmSettings_def
      NewHelmChart_def Let_def andthen_def attempt_def helm_check_def comp_defs)

lemma same_name_shares_clone_witness:
  "\<exists>a w'. NewApplication sample_shared rest0 spec0 (git_world 1) = (Ret a, w') \<and> a_repo a = 7"
proof -
  from shared_made obtain a w' where n: "NewApplication sample_shared rest0 spec0 (git_world 1) = (Ret a, w')" by blast
  have "a_repo a = 7 \<and> a_storagePath a = storage_path ''/root'' (a_Name spec0)"
    by (rule same_name_shares_clone[OF n, where repo = 7 and v = "git_world 1"])
      (simp_all add: git_world_def sample_shared_def)
  with n show ?thesis by blast
qed

text \<open>The application with its storage in the workspace, never synchronised.\<close>

definition stored_app :: application where
  "stored_app = app0\<lparr>a_CurrentRevision := ZeroHash, a_storagePath := storage_path (abs_path [''root'']) ''a''\<rparr>"

lemma stored_provider:
  "app_provider_Uninstall sample (stored_app\<lparr>a_mutex := m\<rparr>, w) = (Ret (), (stored_app\<lparr>a_mutex := m\<rparr>, w))"
  by (simp add: app_provider_Uninstall_def app_call_def provider_Uninstall_def on_raw_def stored_app_def app0_def
      app_spec.defs raw_Uninstall_def raw_lock_def cleanResources_def clean_body_def defer_unlock_def IsZero_def)

lemma stored_app_mutex: "stored_app\<lparr>a_mutex := False\<rparr> = stored_app" "a_mutex stored_app = False"
    "a_Name stored_app = ''a''"
  by (simp_all add: stored_app_def app0_def spec0_def app_spec.defs)

end
