(* ===== verification/RepoProps.thy ===== *)
theory RepoProps
  imports StoreProofs AppProps
begin

section \<open>Properties of a repository's applications\<close>

subsection \<open>Up to date\<close>

text \<open>
  A request for an application that exists with the same name, namespace, URL, reference and path
  changes nothing and is answered "already up to date", whatever Helm options it carries.
\<close>

lemma AddOrUpdateApplication_up_to_date:
  assumes "cmp_documented cmp_equal"
    and "find_app_first (a_Name app) (rc_Apps r) 0 = Ret (Some i)" and "rc_Apps r ! i = Some a"
    and "a_Namespace a = a_Namespace app" and "a_URL a = a_URL app"
    and "a_Reference a = a_Reference app" and "a_SparsePath a = a_SparsePath app"
  shows "AddOrUpdateApplication X K cmp_equal app (r, w) = (Fail NoErrAlreadyUpTodate, (r, w))"
proof -
  have "a_Name a = a_Name app"
    using find_app_first_Some[OF assms(2)] assms(3) by auto
  then have "cmp_equal (app_spec.truncate a) app"
    using assms by (simp add: cmp_documented_def app_spec.defs)
  with assms(2,3) show ?thesis
    by (simp add: AddOrUpdateApplication_def pure_res_def andthen_def)
qed

definition five_equal :: app_cmp where
  "five_equal x y \<longleftrightarrow>
     a_Name x = a_Name y \<and> a_Namespace x = a_Namespace y \<and> a_URL x = a_URL y \<and>
     a_Reference x = a_Reference y \<and> a_SparsePath x = a_SparsePath y"

lemma five_equal_documented: "cmp_documented five_equal"
  by (simp add: cmp_documented_def five_equal_def)

definition repo0 :: repo_config where
  "repo0 = repo_core.extend core0 \<lparr>rc_Mutex = False, rc_Apps = [Some app0]\<rparr>"

lemma repo0_sel [simp]: "rc_Mutex repo0 = False" "rc_Apps repo0 = [Some app0]"
    "rc_Settings repo0 = rc_Settings core0"
  by (simp_all add: repo0_def repo_core.defs)

lemma app0_spec [simp]:
  "a_Name app0 = ''a''" "a_Namespace app0 = ''default''" "a_URL app0 = ''https://h/r''" "a_mutex app0 = False"
  "a_storagePath app0 = ''/s/a''"
  by (simp_all add: app0_def spec0_def app_spec.defs)

lemma spec0_sel [simp]:
  "a_Name spec0 = ''a''" "a_Namespace spec0 = ''default''" "a_URL spec0 = ''https://h/r''"
  "a_Reference spec0 = ''main''" "a_SparsePath spec0 = ''r''"
  by (simp_all add: spec0_def)

text \<open>The request of the witness asks for Helm option the stored application was not created with.\<close>

lemma AddOrUpdateApplication_up_to_date_witness:
  "AddOrUpdateApplication sample rest0 five_equal
     (spec0\<lparr>a_Helm := (a_Helm spec0)\<lparr>hp_ValueFiles := [''values.yaml'']\<rparr>\<rparr>) (repo0, git_world 1)
   = (Fail NoErrAlreadyUpTodate, (repo0, git_world 1))"
  by (rule AddOrUpdateApplication_up_to_date[OF five_equal_documented, where i = 0 and a = app0]) simp_all

subsection \<open>What a successful call leaves\<close>

lemma mset_live_split:
  "i < length slots \<Longrightarrow> slots ! i = Some a \<Longrightarrow>
     mset (live_apps slots) = add_mset a (mset (live_apps (slots[i := None])))"
  by (simp add: live_apps_split live_apps_update)

lemma names_filter:
  assumes "distinct (map a_Name (live_apps slots))" and "i < length slots" and "slots ! i = Some a"
  shows "filter_mset (\<lambda>b. a_Name b \<noteq> a_Name a) (mset (live_apps slots)) = mset (live_apps (slots[i := None]))"
proof -
  have "a_Name a \<notin> a_Name ` set (live_apps (slots[i := None]))"
    using assms by (auto simp: live_apps_split[OF assms(2,3)] live_apps_update)
  then have "filter_mset (\<lambda>b. a_Name b \<noteq> a_Name a) (mset (live_apps (slots[i := None]))) =
      mset (live_apps (slots[i := None]))"
    by (subst filter_mset_eq_conv) (auto simp: image_iff)
  then show ?thesis by (simp add: mset_live_split[OF assms(2,3)])
qed

lemma replace_app_Ret:
  assumes "replace_app X K i app (r, w) = (Ret (), (r', w'))"
  shows "\<exists>a v v'. NewApplication X K app v = (Ret a, v') \<and> rc_Apps r' = (rc_Apps r)[i := Some a]"
proof -
  obtain old s where l: "lock_app i (r, w) = (Ret old, s)" and k: "rebuild_app X K i app old s = (Ret (), (r', w'))"
    using assms unfolding replace_app_def andthen_eq_Ret by blast
  obtain a v v' where n: "NewApplication X K app v = (Ret a, v')"
      "r' = (fst s)\<lparr>rc_Apps := (rc_Apps (fst s))[i := Some a]\<rparr>"
    using k by (simp add: rebuild_app_def Let_def split: prod.splits res.splits)
  have "rc_Apps (fst s) = (rc_Apps r)[i := Some old]" by (rule lock_app_Ret[OF l]) simp
  with n(2) have "rc_Apps r' = (rc_Apps r)[i := Some a]" by simp
  with n(1) show ?thesis by blast
qed

lemma AddOrUpdateApplication_Ret:
  assumes "AddOrUpdateApplication X K cmp_equal app (r, w) = (Ret (), (r', w'))"
    and "distinct (map a_Name (live_apps (rc_Apps r)))"
  shows "\<exists>a. app_spec.truncate a = app \<and> \<not> a_mutex a \<and> \<not> rc_Mutex r' \<and>
    mset (live_apps (rc_Apps r')) =
      add_mset a (filter_mset (\<lambda>b. a_Name b \<noteq> a_Name app) (mset (live_apps (rc_Apps r))))"
proof -
  obtain slot where f: "find_app_first (a_Name app) (rc_Apps r) 0 = Ret slot"
    using assms(1) by (auto simp: AddOrUpdateApplication_def andthen_eq_Ret pure_res_def)
  show ?thesis
  proof (cases slot)
    case None
    obtain res v where n: "NewApplication X K app w = (res, v)" by (metis prod.exhaust)
    then obtain a where a: "res = Ret a" "\<not> rc_Mutex r'" "rc_Apps r' = rc_Apps r @ [Some a]"
      using assms(1) f None
      by (cases res; cases "rc_Mutex r")
        (auto simp: AddOrUpdateApplication_def pure_res_def andthen_def lock_repo_def defer_unlock_repo_def)
    have "\<forall>b\<in>set (live_apps (rc_Apps r)). a_Name b \<noteq> a_Name app"
      using find_app_first_None f None by (fastforce simp: set_live_apps)
    then have "filter_mset (\<lambda>b. a_Name b \<noteq> a_Name app) (mset (live_apps (rc_Apps r))) = mset (live_apps (rc_Apps r))"
      by (subst filter_mset_eq_conv) auto
    with a NewApplication_fields[OF n[unfolded a(1)]] show ?thesis by auto
  next
    case (Some i)
    from find_app_first_Some[OF f[unfolded Some]] obtain b where
      b: "i < length (rc_Apps r)" "rc_Apps r ! i = Some b" "a_Name b = a_Name app" by auto
    obtain res r1 w1 where p: "replace_app X K i app (r\<lparr>rc_Mutex := True\<rparr>, w) = (res, (r1, w1))"
      by (metis prod.exhaust)
    have q: "res = Ret ()" "\<not> rc_Mutex r'" "rc_Apps r' = rc_Apps r1"
      using assms(1) f Some p
      by (cases "rc_Mutex r"; cases res; auto simp: AddOrUpdateApplication_def pure_res_def andthen_def
          lock_repo_def defer_unlock_repo_def split: if_splits)+
    from replace_app_Ret[OF p[unfolded q(1)]] obtain a v v' where
      a: "NewApplication X K app v = (Ret a, v')" "rc_Apps r1 = (rc_Apps r)[i := Some a]" by auto
    have "mset (live_apps (rc_Apps r')) = add_mset a (mset (live_apps ((rc_Apps r)[i := None])))"
      using b(1) by (simp add: q(3) a(2) live_apps_update)
    with names_filter[OF assms(2) b(1,2)] b(3) NewApplication_fields[OF a(1)] q(2) show ?thesis by auto
  qed
qed

text \<open>
  C11. When \<open>AddOrUpdateApplication\<close> succeeds, the repository holds one application of that name,
  made from exactly the requested data, beside its other applications, and its mutex is free.
\<close>

theorem AddOrUpdateApplication_installs:
  assumes "AddOrUpdateApplication X K cmp_equal app (r, w) = (Ret (), (r', w'))"
    and "distinct (map a_Name (live_apps (rc_Apps r)))"
  shows "\<exists>a. app_spec.truncate a = app \<and> \<not> a_mutex a \<and> \<not> rc_Mutex r' \<and>
    mset (live_apps (rc_Apps r')) =
      add_mset a (filter_mset (\<lambda>b. a_Name b \<noteq> a_Name app) (mset (live_apps (rc_Apps r))))"
  by (rule AddOrUpdateApplication_Ret[OF assms])

text \<open>The witnesses' new version of the application: another reference.\<close>

definition spec1 :: app_spec where
  "spec1 = spec0\<lparr>a_Reference := ''dev''\<rparr>"

lemma chart_made: "\<exists>a w'. NewApplication sample_chart rest0 app (w\<lparr>home := Some hm\<rparr>) = (Ret a, w')"
  by (simp add: NewApplication_def deref_home_def GetUserHome_def NewGitRepository_def s_clone_def
      sample_chart_def sample_def choose_provider_def object_after_def NewHelmProvider_def NewHelmManager_def NewHelmSettings_def
      NewHelmChart_def Let_def andthen_def attempt_def helm_check_def comp_defs set_ext_def)

lemma git_world_home: "(git_world h)\<lparr>home := Some ''/root''\<rparr> = git_world h"
  by (simp add: git_world_def)

lemma removed_nothing: "RemoveAll ''/s/a'' (git_world h) = (Ret (), git_world h)"
proof -
  have "path_comps ''/s/a'' = [''s'', ''a'']" by code_simp
  then show ?thesis by (simp add: RemoveAll_def git_world_def)
qed

lemma spec1_differs: "\<not> five_equal (app_spec.truncate app0) spec1"
  by (simp add: five_equal_def spec1_def app_spec.defs)

lemma spec1_update:
  "AddOrUpdateApplication X K five_equal spec1 (repo0, git_world h) =
     andthen (on_obj lock_repo) (\<lambda>_. defer_unlock_repo (replace_app X K 0 spec1)) (repo0, git_world h)"
proof -
  have f: "find_app_first (a_Name spec1) (rc_Apps repo0) 0 = Ret (Some 0)" by (simp add: spec1_def)
  show ?thesis
    by (simp add: AddOrUpdateApplication_def pure_res_def andthen_def f[simplified] spec1_differs)
qed

theorem AddOrUpdateApplication_installs_witness:
  "\<exists>r' w' a. AddOrUpdateApplication sample_chart rest0 five_equal spec1 (repo0, git_world 1) = (Ret (), (r', w')) \<and>
     mset (live_apps (rc_Apps r')) = {#a#} \<and> a_Reference a = ''dev''"
proof -
  obtain a v where n: "NewApplication sample_chart rest0 spec1 (git_world 1) = (Ret a, v)"
    using chart_made[where app = spec1 and w = "git_world 1" and hm = "''/root''"] unfolding git_world_home by blast
  obtain r' w' where u: "AddOrUpdateApplication sample_chart rest0 five_equal spec1 (repo0, git_world 1) = (Ret (), (r', w'))"
    unfolding spec1_update using n
    by (simp add: andthen_def lock_repo_def defer_unlock_repo_def replace_app_def rebuild_app_def Let_def
        lock_app_def removed_nothing)
  have "distinct (map a_Name (live_apps (rc_Apps repo0)))" by simp
  from AddOrUpdateApplication_installs[OF u this] obtain b where
    "app_spec.truncate b = spec1" "mset (live_apps (rc_Apps r')) = {#b#}" by (auto simp: spec1_def)
  moreover have "a_Reference spec1 = ''dev''" by (simp add: spec1_def)
  ultimately show ?thesis using u by (metis app_spec.defs(4) app_spec.select_convs(4))
qed

subsection \<open>A failed update\<close>

lemma find_app_last_nil: "None \<in> set slots \<Longrightarrow> find_app_last name slots k found = Panic NilDereference"
  by (induction name slots k found rule: find_app_last.induct) auto

text \<open>
  C34. An update that fails after the old application's files were removed puts the nil pointer into
  the application's slot: the error is reported once, but from then on every deletion in this
  repository, of any name, ends in a nil dereference.
\<close>

theorem failed_update_breaks_repository:
  assumes "AddOrUpdateApplication X K cmp_equal app (r, w) = (Fail e, (r', w'))"
    and "find_app_first (a_Name app) (rc_Apps r) 0 = Ret (Some i)"
    and "\<not> cmp_equal (app_spec.truncate (the (rc_Apps r ! i))) app"
    and "fst (RemoveAll (a_storagePath (the (rc_Apps r ! i))) w) = Ret ()"
  shows "rc_Apps r' = (rc_Apps r)[i := None] \<and> \<not> rc_Mutex r' \<and>
    (\<forall>name v. fst (DeleteApplication X name (r', v)) = Panic NilDereference)"
proof -
  from find_app_first_Some[OF assms(2)] obtain a where
    a: "i < length (rc_Apps r)" "rc_Apps r ! i = Some a" by auto
  have free: "\<not> rc_Mutex r" "\<not> a_mutex a"
    using assms(1-3) a
    by (cases "rc_Mutex r"; cases "a_mutex a"; auto simp: AddOrUpdateApplication_def pure_res_def andthen_def
        lock_repo_def defer_unlock_repo_def replace_app_def rebuild_app_def Let_def lock_app_def)+
  obtain w1 where rm: "RemoveAll (a_storagePath a) w = (Ret (), w1)"
    using assms(4) a by (metis option.sel prod.collapse)
  obtain res w2 where n: "NewApplication X K app w1 = (res, w2)" by (metis prod.exhaust)
  have r': "rc_Apps r' = (rc_Apps r)[i := None]" "\<not> rc_Mutex r'"
    using assms(1-3) a free rm n
    by (cases res; auto simp: AddOrUpdateApplication_def pure_res_def andthen_def
        lock_repo_def defer_unlock_repo_def replace_app_def rebuild_app_def Let_def lock_app_def)+
  moreover have "None \<in> set (rc_Apps r')" using r'(1) a(1) by (simp add: set_update_memI)
  ultimately show ?thesis
    by (simp add: DeleteApplication_def pure_res_def andthen_def find_app_last_nil)
qed

definition sample_no_chart :: "sample_ext externals" where
  "sample_no_chart = sample\<lparr>x_plain_clone := (\<lambda>path bare opts. failc (OtherError ''reference not found''))\<rparr>"

theorem failed_update_breaks_repository_witness:
  "\<exists>r' w'. AddOrUpdateApplication sample_no_chart rest0 five_equal spec1 (repo0, git_world 1) =
       (Fail (OtherError ''reference not found''), (r', w')) \<and>
     fst (DeleteApplication sample_no_chart ''other'' (r', w')) = Panic NilDereference"
proof -
  have n: "fst (NewApplication sample_no_chart rest0 spec1 (git_world 1)) = Fail (OtherError ''reference not found'')"
    by (simp add: NewApplication_def deref_home_def GetUserHome_def git_world_def NewGitRepository_def Let_def
        sample_no_chart_def andthen_def attempt_def)
  then obtain r' w' where u: "AddOrUpdateApplication sample_no_chart rest0 five_equal spec1 (repo0, git_world 1) =
       (Fail (OtherError ''reference not found''), (r', w'))"
    unfolding spec1_update
    by (cases "NewApplication sample_no_chart rest0 spec1 (git_world 1)")
      (simp add: andthen_def lock_repo_def defer_unlock_repo_def replace_app_def rebuild_app_def Let_def
        lock_app_def removed_nothing)
  have "fst (DeleteApplication sample_no_chart ''other'' (r', w')) = Panic NilDereference"
    using failed_update_breaks_repository[OF u, of 0] spec1_differs by (simp add: spec1_def removed_nothing)
  with u show ?thesis by blast
qed

subsection \<open>Deleting an application\<close>

text \<open>
  C33. When the application is found, deleting it takes exactly that application off the repository, and leaves the
  repository's mutex locked for good: every later operation that has to change the repository's
  applications spins.
\<close>

theorem DeleteApplication_locks_repository:
  assumes "DeleteApplication X name (r, w) = (Ret (), (r', w'))"
    and "find_app_last name (rc_Apps r) 0 None = Ret (Some i)" and "rc_Apps r ! i = Some a"
  shows "a_Name a = name \<and> rc_Mutex r' \<and>
    mset (live_apps (rc_Apps r)) = add_mset a (mset (live_apps (rc_Apps r'))) \<and>
    (\<forall>name' v j. find_app_last name' (rc_Apps r') 0 None = Ret (Some j) \<longrightarrow>
       fst (DeleteApplication X name' (r', v)) = Spin) \<and>
    (\<forall>cmp_equal app v n v'. find_app_first (a_Name app) (rc_Apps r') 0 = Ret None \<longrightarrow>
       NewApplication X K app v = (Ret n, v') \<longrightarrow>
       fst (AddOrUpdateApplication X K cmp_equal app (r', v)) = Spin)"
proof -
  from find_app_last_Some[OF assms(2)] assms(3) have i: "i < length (rc_Apps r)" and n: "a_Name a = name" by auto
  have r': "rc_Mutex r'" "rc_Apps r' = swap_remove ((rc_Apps r)[i := Some (a\<lparr>a_mutex := True\<rparr>)]) i"
    using assms
    by (cases "rc_Mutex r"; cases "a_mutex a"; auto simp: DeleteApplication_def pure_res_def andthen_def lock_repo_def
        defer_trylock_repo_def lock_app_def TryLock_def split: res.splits prod.splits)+
  have "swap_remove ((rc_Apps r)[i := x]) i = swap_remove (rc_Apps r) i" for x
    unfolding swap_remove_def using i
    by (cases "i = length (rc_Apps r) - 1") simp_all
  with r'(2) have "rc_Apps r' = swap_remove (rc_Apps r) i" by simp
  then have "mset (live_apps (rc_Apps r)) = add_mset a (mset (live_apps (rc_Apps r')))"
    using live_apps_swap_remove[OF i assms(3)] by simp
  with n r'(1) show ?thesis
    by (auto simp: DeleteApplication_def AddOrUpdateApplication_def pure_res_def andthen_def lock_repo_def)
qed

definition stored_repo :: repo_config where
  "stored_repo = repo0\<lparr>rc_Apps := [Some stored_app]\<rparr>"

lemma stored_repo_sel [simp]: "rc_Mutex stored_repo = False" "rc_Apps stored_repo = [Some stored_app]"
  by (simp_all add: stored_repo_def)

lemma stored_deleted:
  "DeleteApplication sample ''a'' (stored_repo, w) = (Ret (), (stored_repo\<lparr>rc_Mutex := True, rc_Apps := []\<rparr>, w))"
  by (simp add: DeleteApplication_def pure_res_def andthen_def lock_repo_def TryLock_def stored_app_mutex
      defer_trylock_repo_def lock_app_def uninstall_logged_def object_after_def attempt_def stored_provider swap_remove_def)

theorem DeleteApplication_locks_repository_witness:
  "\<exists>r' w'. DeleteApplication sample ''a'' (stored_repo, git_world 1) = (Ret (), (r', w')) \<and> rc_Mutex r' \<and>
     mset (live_apps (rc_Apps stored_repo)) = add_mset stored_app (mset (live_apps (rc_Apps r')))"
proof -
  have f: "find_app_last ''a'' (rc_Apps stored_repo) 0 None = Ret (Some 0)"
    by (simp add: stored_app_mutex)
  have a: "rc_Apps stored_repo ! 0 = Some stored_app" by simp
  from DeleteApplication_locks_repository[OF stored_deleted f a] stored_deleted show ?thesis by blast
qed

end
