(* ===== verification/ServerProofs.thy ===== *)
theory ServerProofs
  imports StoreProofs
begin

section \<open>The server's invariant, for every sequence of requests\<close>

definition handler_wf :: "handler \<Rightarrow> bool" where
  "handler_wf h \<longleftrightarrow> distinct (map repo_url (h_Repos h)) \<and> (\<forall>r\<in>set (h_Repos h). repo_wf r)"

definition server_inv :: "server \<times> 'w \<Rightarrow> bool" where
  "server_inv = (\<lambda>(s, w). handler_wf (sv_Handler s) \<and> \<not> h_Mutex (sv_Handler s))"

subsection \<open>The repository store\<close>

text \<open>
  What the server's RPCs need of the handler: a lookup by URL, and an addition that refuses a URL
  that is there. \<open>ensure\<close> of the locale is the check the RPC makes before it adds.
\<close>

locale repository_store =
  fixes urls :: "'h \<Rightarrow> string list"
    and lookup :: "'h \<Rightarrow> string \<Rightarrow> nat option"
    and add :: "'r \<Rightarrow> ('h, unit) comp"
    and url_of :: "'r \<Rightarrow> string"
    and fresh :: "'r \<Rightarrow> bool"
  assumes lookup_iff: "lookup h u = None \<longleftrightarrow> u \<notin> set (urls h)"
    and add_new: "fresh r \<Longrightarrow> url_of r \<notin> set (urls h) \<Longrightarrow>
       \<exists>h'. add r h = (Ret (), h') \<and> urls h' = urls h @ [url_of r]"
    and add_known: "fresh r \<Longrightarrow> url_of r \<in> set (urls h) \<Longrightarrow> add r h = (Fail ErrRepositoryAlreadyExist, h)"
begin

lemma add_urls:
  assumes "fresh r"
  shows "urls (snd (add r h)) = (if url_of r \<in> set (urls h) then urls h else urls h @ [url_of r])"
  using add_new[OF assms] add_known[OF assms] by fastforce

text \<open>Any sequence of additions, the refused ones included.\<close>

lemma adds_urls:
  assumes "\<forall>r\<in>set rs. fresh r" and "distinct (urls h)"
  shows "\<exists>h'. for_each (\<lambda>r. andthen (attempt (add r)) (\<lambda>_. ret ())) rs h = (Ret (), h') \<and>
    distinct (urls h') \<and> set (urls h') = set (urls h) \<union> url_of ` set rs"
  using assms
proof (induction rs arbitrary: h)
  case (Cons r rs)
  define h1 where "h1 = snd (add r h)"
  have "fresh r" using Cons.prems by simp
  then have step: "andthen (attempt (add r)) (\<lambda>_. ret ()) h = (Ret (), h1)"
    using add_new[of r h] add_known[of r h] by (cases "url_of r \<in> set (urls h)") (auto simp: h1_def)
  have u: "distinct (urls h1)" "set (urls h1) = insert (url_of r) (set (urls h))"
    using add_urls[OF \<open>fresh r\<close>, of h] Cons.prems(2) by (auto simp: h1_def)
  from Cons.IH[OF _ u(1)] Cons.prems(1) u(2) step show ?case
    by (auto simp del: ret_app andthen_assoc)
qed simp

end

lemma AddRepository_new:
  "\<not> rc_Mutex r \<Longrightarrow> repo_url r \<notin> repo_url ` set (h_Repos h) \<Longrightarrow>
     AddRepository r h = (Ret (), h\<lparr>h_Repos := h_Repos h @ [r]\<rparr>)"
  by (cases r) (auto simp: AddRepository_def list_ex_iff intro: rev_image_eqI)

lemma AddRepository_known:
  "\<not> rc_Mutex r \<Longrightarrow> repo_url r \<in> repo_url ` set (h_Repos h) \<Longrightarrow>
     AddRepository r h = (Fail ErrRepositoryAlreadyExist, h)"
  by (auto simp: AddRepository_def list_ex_iff)

interpretation store: repository_store
  "\<lambda>h. map repo_url (h_Repos h)" GetRepositoryConfig AddRepository repo_url "\<lambda>r. \<not> rc_Mutex r"
  by unfold_locales
    (auto simp: GetRepositoryConfig_def first_index_None AddRepository_new AddRepository_known)

subsection \<open>Operations on the handler\<close>

lemma handler_wf_repos: "handler_wf (h\<lparr>h_Mutex := m\<rparr>) = handler_wf h"
  by (simp add: handler_wf_def)

lemma AddRepository_wf:
  "AddRepository r h = (res, h') \<Longrightarrow> handler_wf h \<Longrightarrow> repo_wf r \<Longrightarrow> \<not> rc_Mutex r \<Longrightarrow>
     handler_wf h' \<and> h_Mutex h' = h_Mutex h"
  using AddRepository_new[of r h] AddRepository_known[of r h]
  by (cases "repo_url r \<in> repo_url ` set (h_Repos h)") (auto simp: handler_wf_def)

lemma repo_wf_new [simp]: "repo_wf (new_repository core)" "\<not> rc_Mutex (new_repository core)"
    "rc_Apps (new_repository core) = []" "rc_Settings (new_repository core) = rc_Settings core"
    "rc_Name (new_repository core) = rc_Name core"
  by (simp_all add: new_repository_def repo_core.defs repo_wf_def slots_wf_def)

lemma handler_wf_update:
  assumes "handler_wf h" and "i < length (h_Repos h)" and "repo_at (repo_url (h_Repos h ! i)) r"
  shows "handler_wf (h\<lparr>h_Repos := (h_Repos h)[i := r]\<rparr>)"
proof -
  have "map repo_url ((h_Repos h)[i := r]) = map repo_url (h_Repos h)"
    using assms(2,3) by (simp add: map_update repo_at_def) (metis list_update_id map_update nth_map)
  moreover have "\<forall>r\<in>set ((h_Repos h)[i := r]). repo_wf r"
    using assms(1,3) set_update_subset_insert[of "h_Repos h" i r] by (auto simp: handler_wf_def repo_at_def)
  ultimately show ?thesis using assms(1) by (simp add: handler_wf_def)
qed

lemma handler_wf_remove: "handler_wf h \<Longrightarrow> i < length (h_Repos h) \<Longrightarrow>
    handler_wf (h\<lparr>h_Repos := swap_remove (h_Repos h) i\<rparr>)"
  using distinct_map_swap_remove(1)[of i "h_Repos h" repo_url] set_swap_remove_subset[of i "h_Repos h"]
  by (auto simp: handler_wf_def)

definition handler_ok :: "handler \<times> 'w \<Rightarrow> bool" where
  "handler_ok = (\<lambda>(h, w). handler_wf h)"

lemma maintains_on_world_handler [maintains_intros]: "maintains handler_ok (on_world m)"
  unfolding handler_ok_def by (intro maintains_intros)

lemma DeleteRepository_ok [maintains_intros]: "maintains handler_ok (DeleteRepository X name)"
proof (rule maintainsI)
  fix s r s' assume I: "handler_ok s" and m: "DeleteRepository X name s = (r, s')" "returns r"
  obtain h w where s: "s = (h, w)" by (metis prod.exhaust)
  show "handler_ok s'"
  proof (cases "last_index (\<lambda>repo. rc_Name repo = name) (h_Repos h)")
    case None
    with m I s show ?thesis by (simp add: DeleteRepository_def)
  next
    case (Some i)
    then have i: "i < length (h_Repos h)" by (auto simp: last_index_Some)
    obtain r1 w1 where g: "for_each (uninstall_goroutine X) (rc_Apps (h_Repos h ! i)) w = (r1, w1)"
      by (metis prod.exhaust)
    show ?thesis
      using m I s Some g handler_wf_remove[OF _ i]
      by (cases "rc_Mutex (h_Repos h ! i)"; cases r1)
        (auto simp: DeleteRepository_def andthen_def handler_ok_def)
  qed
qed

lemma register_repository_ok [maintains_intros]: "maintains handler_ok (register_repository X K inm)"
proof (rule maintainsI)
  fix s r s' assume I: "handler_ok s" and m: "register_repository X K inm s = (r, s')" "returns r"
  obtain h w where s: "s = (h, w)" by (metis prod.exhaust)
  obtain r1 w1 where n: "NewRepositoryConfig X K (repository_GetName inm) (request_settings inm)
      (h_CurrentNamespace h) w = (r1, w1)" by (metis prod.exhaust)
  show "handler_ok s'"
  proof (cases r1)
    case (Ret core)
    obtain r2 h2 where a: "AddRepository (new_repository core) h = (r2, h2)" by (metis prod.exhaust)
    from AddRepository_wf[OF a] I s have "handler_wf h2" by (simp add: handler_ok_def)
    with m s n a Ret show ?thesis by (auto simp: register_repository_def andthen_def handler_ok_def)
  qed (use m s n I in \<open>auto simp: register_repository_def andthen_def handler_ok_def\<close>)
qed

subsection \<open>The RPCs\<close>

definition handler_idle :: "handler \<times> 'w \<Rightarrow> bool" where
  "handler_idle = (\<lambda>(h, w). handler_wf h \<and> \<not> h_Mutex h)"

lemma maintains_with_handler_lock [maintains_intros]:
  assumes "maintains handler_ok m"
  shows "maintains handler_idle (with_handler_lock m)"
proof (rule maintainsI)
  fix s r s' assume I: "handler_idle s" and m: "with_handler_lock m s = (r, s')" "returns r"
  obtain h w where s: "s = (h, w)" by (metis prod.exhaust)
  obtain r1 h1 w1 where m1: "m (h\<lparr>h_Mutex := True\<rparr>, w) = (r1, (h1, w1))" by (metis prod.exhaust)
  have free: "\<not> h_Mutex h" "handler_wf h" using I s by (simp_all add: handler_idle_def)
  have "returns r1 \<Longrightarrow> handler_wf h1"
    using maintainsD[OF assms m1] free by (simp add: handler_ok_def handler_wf_repos)
  with m s m1 free show "handler_idle s'"
    by (cases r1) (auto simp: with_handler_lock_def lock_handler_def defer_unlock_handler_def handler_idle_def
        handler_wf_repos andthen_def)
qed

lemma maintains_on_handler [maintains_intros]:
  assumes "maintains handler_idle m" shows "maintains server_inv (on_handler m)"
proof (rule maintainsI)
  fix s r s' assume I: "server_inv s" and m: "on_handler m s = (r, s')" "returns r"
  obtain sv w where s: "s = (sv, w)" by (metis prod.exhaust)
  obtain r1 h1 w1 where m1: "m (sv_Handler sv, w) = (r1, (h1, w1))" by (metis prod.exhaust)
  have "r1 = r" "s' = (sv\<lparr>sv_Handler := h1\<rparr>, w1)" using m s m1 by (simp_all add: on_handler_def)
  moreover have "handler_idle (sv_Handler sv, w)" using I s by (simp add: server_inv_def handler_idle_def)
  ultimately show "server_inv s'"
    using maintainsD[OF assms m1] m(2) by (simp add: server_inv_def handler_idle_def)
qed

lemma maintains_on_world_server [maintains_intros]: "maintains server_inv (on_world m)"
  unfolding server_inv_def by (intro maintains_intros)

lemma rpc_AddRepository_inv [maintains_intros]: "maintains server_inv (rpc_AddRepository X inm)"
  unfolding rpc_AddRepository_def by (intro maintains_intros)

lemma rpc_DeleteRepository_inv [maintains_intros]: "maintains server_inv (rpc_DeleteRepository X inm)"
  unfolding rpc_DeleteRepository_def by (intro maintains_intros)

text \<open>A method call on the repository found under a URL.\<close>

lemma on_repo_idle:
  assumes "on_repo i m (h, w) = (r, s')" and "returns r" and "handler_idle (h, w)" and "i < length (h_Repos h)"
    and "\<And>q v q' v'. m (q, v) = (r, (q', v')) \<Longrightarrow> repo_at (repo_url (h_Repos h ! i)) q \<Longrightarrow>
      repo_at (repo_url (h_Repos h ! i)) q'"
  shows "handler_idle s'"
proof -
  obtain r1 q w1 where m: "m (h_Repos h ! i, w) = (r1, (q, w1))" by (metis prod.exhaust)
  have s': "r1 = r" "s' = (h\<lparr>h_Repos := (h_Repos h)[i := q]\<rparr>, w1)"
    using assms(1) m by (simp_all add: on_repo_def)
  have wf: "handler_wf h" and "repo_at (repo_url (h_Repos h ! i)) (h_Repos h ! i)"
    using assms(3,4) by (auto simp: handler_idle_def handler_wf_def repo_at_def)
  then have "repo_at (repo_url (h_Repos h ! i)) q" using assms(5) m s'(1) by blast
  from handler_wf_update[OF wf assms(4) this] s'(2) assms(3) show ?thesis
    by (simp add: handler_idle_def)
qed

lemma GetRepositoryConfig_Some:
  "GetRepositoryConfig h u = Some i \<Longrightarrow> i < length (h_Repos h) \<and> repo_url (h_Repos h ! i) = u"
  by (simp add: GetRepositoryConfig_def first_index_Some)

lemma on_found_repo_inv:
  assumes "on_handler (on_repo i m) (s, w) = (r, s')" and "returns r" and "server_inv (s, w)"
    and "GetRepositoryConfig (sv_Handler s) u = Some i"
    and "\<And>q v q' v'. m (q, v) = (r, (q', v')) \<Longrightarrow> repo_at u q \<Longrightarrow> repo_at u q'"
  shows "server_inv s'"
proof -
  obtain r1 h1 w1 where m: "on_repo i m (sv_Handler s, w) = (r1, (h1, w1))" by (metis prod.exhaust)
  have s': "r1 = r" "s' = (s\<lparr>sv_Handler := h1\<rparr>, w1)" using assms(1) m by (simp_all add: on_handler_def)
  have "handler_idle (h1, w1)"
    by (rule on_repo_idle[OF m]) (use assms s' GetRepositoryConfig_Some[OF assms(4)] in
        \<open>auto simp: server_inv_def handler_idle_def\<close>)
  with s' show ?thesis by (simp add: server_inv_def handler_idle_def)
qed

lemma request_app_fields [simp]:
  "a_Name (request_app inm core) = application_GetName inm"
  "a_URL (request_app inm core) = application_GetUrl inm"
  "a_RepositoryConfig (request_app inm core) = core"
  "a_CurrentRevision (request_app inm core) = ZeroHash"
  by (simp_all add: request_app_def)

lemma rpc_DeleteApplication_inv [maintains_intros]: "maintains server_inv (rpc_DeleteApplication X inm)"
proof (rule maintainsI)
  fix s r s' assume I: "server_inv s" and m: "rpc_DeleteApplication X inm s = (r, s')" "returns r"
  obtain sv w where s: "s = (sv, w)" by (metis prod.exhaust)
  show "server_inv s'"
  proof (cases "GetRepositoryConfig (sv_Handler sv) (application_GetUrl inm)")
    case None
    with m I s show ?thesis by (simp add: rpc_DeleteApplication_def)
  next
    case (Some i)
    with m(1) s have "on_handler (on_repo i (DeleteApplication X (application_GetName inm))) (sv, w) = (r, s')"
      by (simp add: rpc_DeleteApplication_def)
    from on_found_repo_inv[OF this m(2) _ Some] I s show ?thesis
      using DeleteApplication_wf m(2) by blast
  qed
qed

lemma rpc_AddOrUpdateApplication_inv [maintains_intros]:
  "maintains server_inv (rpc_AddOrUpdateApplication X cmp_equal inm)"
proof (rule maintainsI)
  fix s r s' assume I: "server_inv s" and m: "rpc_AddOrUpdateApplication X cmp_equal inm s = (r, s')" "returns r"
  obtain sv w where s: "s = (sv, w)" by (metis prod.exhaust)
  show "server_inv s'"
  proof (cases "GetRepositoryConfig (sv_Handler sv) (application_GetUrl inm)")
    case None
    with m I s show ?thesis by (simp add: rpc_AddOrUpdateApplication_def)
  next
    case (Some i)
    let ?app = "request_app inm (repo_core.truncate (h_Repos (sv_Handler sv) ! i))"
    obtain r1 s1 where c: "on_handler (on_repo i (AddOrUpdateApplication X (sv_KubeConfig sv) cmp_equal ?app)) (sv, w) = (r1, s1)"
      by (metis prod.exhaust)
    have "returns r1 \<and> s1 = s'"
      using m s Some c
      by (cases r1) (auto simp: rpc_AddOrUpdateApplication_def andthen_def attempt_def split: if_splits)
    moreover have "server_inv s1" if "returns r1"
      using on_found_repo_inv[OF c that _ Some] I s AddOrUpdateApplication_wf[OF _ that]
      by (metis request_app_fields(2))
    ultimately show ?thesis by blast
  qed
qed

lemma list_apps_inv [maintains_intros]: "maintains server_inv (list_apps X apps)"
  unfolding list_apps_def by (intro maintains_intros)

lemma rpc_GetApplications_inv [maintains_intros]: "maintains server_inv (rpc_GetApplications X)"
  unfolding rpc_GetApplications_def by (intro maintains_intros)

lemma rpc_GetApplicationRevisions_inv [maintains_intros]:
  "maintains server_inv (rpc_GetApplicationRevisions X inm)"
proof -
  have "maintains server_inv (\<lambda>s. (GetApplication (sv_Handler (fst s)) n u, s))" for n u
    by (simp add: maintains_def)
  then show ?thesis
    unfolding rpc_GetApplicationRevisions_def by (intro maintains_intros)
qed

lemma serve_inv: "maintains server_inv (serve X cmp_equal req)"
  by (cases req)
    (simp_all only: serve.simps replying_def rpc_CheckoutApplicationRevision_def maintains_intros)

subsection \<open>A service and its requests\<close>

text \<open>
  A server answers requests one after the other; an error is an answer too. The locale lifts the
  invariant of one request to every sequence of them.
\<close>

locale service =
  fixes answer :: "'q \<Rightarrow> ('s, 'p) comp" and inv :: "'s \<Rightarrow> bool"
  assumes answer_inv: "maintains inv (answer q)"
begin

lemma answers_inv: "maintains inv (map_each (\<lambda>q. attempt (answer q)) qs)"
  by (intro maintains_intros answer_inv)

lemma answers_returned:
  "map_each (\<lambda>q. attempt (answer q)) qs s = (Ret replies, s') \<Longrightarrow> inv s \<Longrightarrow>
     inv s' \<and> length replies = length qs"
proof -
  assume m: "map_each (\<lambda>q. attempt (answer q)) qs s = (Ret replies, s')" and i: "inv s"
  have "length replies = length qs" using m
    by (induction qs arbitrary: s replies) (auto simp: andthen_eq_Ret)
  with maintainsD[OF answers_inv m _ i] show ?thesis by simp
qed

end

interpretation grpc: service "serve X cmp_equal" server_inv
  by unfold_locales (rule serve_inv)

lemma server_main_inv:
  assumes "server_main cfg0 listen port w = (Ret s, w')"
  shows "server_inv (s, w')" and "h_Repos (sv_Handler s) = []"
    and "Some (h_CurrentNamespace (sv_Handler s)) = ReadFile namespaceFile w'"
  using assms
  by (auto simp: server_main_def comp_inv server_inv_def handler_wf_def PanicOnError_def split: option.splits)

subsection \<open>The configuration of the clients\<close>

text \<open>No request writes the configuration the server was started with.\<close>

lemma keeps_config_on_handler [keeps_intros]: "keeps (\<lambda>(s, w). P (sv_KubeConfig s)) (on_handler m)"
  by (simp add: keeps_def on_handler_def split: prod.split)

lemma rpc_config:
  "keeps (\<lambda>(s, w). P (sv_KubeConfig s)) (rpc_AddRepository X rm)"
  "keeps (\<lambda>(s, w). P (sv_KubeConfig s)) (rpc_DeleteRepository X rm)"
  "keeps (\<lambda>(s, w). P (sv_KubeConfig s)) (rpc_AddOrUpdateApplication X cmp_equal am)"
  "keeps (\<lambda>(s, w). P (sv_KubeConfig s)) (rpc_DeleteApplication X am)"
  "keeps (\<lambda>(s, w). P (sv_KubeConfig s)) (rpc_GetApplications X)"
  "keeps (\<lambda>(s, w). P (sv_KubeConfig s)) (rpc_GetApplicationRevisions X am)"
proof -
  have g: "keeps (\<lambda>(s, w). P (sv_KubeConfig s)) (\<lambda>s. (GetApplication (sv_Handler (fst s)) n u, s))" for n u
    by (simp add: keeps_def)
  show "keeps (\<lambda>(s, w). P (sv_KubeConfig s)) (rpc_AddRepository X rm)"
    "keeps (\<lambda>(s, w). P (sv_KubeConfig s)) (rpc_DeleteRepository X rm)"
    "keeps (\<lambda>(s, w). P (sv_KubeConfig s)) (rpc_AddOrUpdateApplication X cmp_equal am)"
    "keeps (\<lambda>(s, w). P (sv_KubeConfig s)) (rpc_DeleteApplication X am)"
    "keeps (\<lambda>(s, w). P (sv_KubeConfig s)) (rpc_GetApplications X)"
    "keeps (\<lambda>(s, w). P (sv_KubeConfig s)) (rpc_GetApplicationRevisions X am)"
    unfolding rpc_AddRepository_def rpc_DeleteRepository_def rpc_AddOrUpdateApplication_def rpc_DeleteApplication_def
      rpc_GetApplications_def list_apps_def rpc_GetApplicationRevisions_def
    by (intro keeps_intros g)+
qed

lemma serve_config: "keeps (\<lambda>(s, w). P (sv_KubeConfig s)) (serve X cmp_equal q)"
  by (cases q)
    (simp_all only: serve.simps replying_def rpc_CheckoutApplicationRevision_def rpc_config keeps_intros)

lemma materialize_limits:
  assumes "materialize file data set_file target cfg w = (Ret cfg', w')"
    and "\<And>f c. rcfg_Insecure (set_file f c) = rcfg_Insecure c"
  shows "rcfg_Insecure cfg' = rcfg_Insecure cfg"
  using assms by (auto simp: materialize_def andthen_eq_Ret comp_defs split: if_splits)

lemma NewKubernetesConfig_secure:
  assumes "NewKubernetesConfig cfg0 w = (Ret cfg, w')"
  shows "\<not> rcfg_Insecure cfg"
  using assms
  by (auto simp: NewKubernetesConfig_def Let_def andthen_eq_Ret comp_defs dest!: materialize_limits split: if_splits)

lemma server_main_secure:
  assumes "server_main cfg0 listen port w = (Ret s, w')"
  shows "\<not> rcfg_Insecure (sv_KubeConfig s)"
  using assms NewKubernetesConfig_secure[of cfg0 w]
  by (auto simp: server_main_def comp_inv PanicOnError_def panic_on_error_def split: option.splits)

end
