(* ===== verification/ServiceProps.thy ===== *)
theory ServiceProps
  imports ServerProofs RepoProps
begin

section \<open>Properties of the handler and the server\<close>

subsection \<open>Every sequence of requests\<close>

lemma served_config:
  assumes "map_each (\<lambda>q. attempt (serve X cmp_equal q)) qs (s, w) = (Ret replies, (s', w'))"
  shows "sv_KubeConfig s' = sv_KubeConfig s"
proof -
  have "keeps (\<lambda>(t, v). sv_KubeConfig t = sv_KubeConfig s) (map_each (\<lambda>q. attempt (serve X cmp_equal q)) qs)"
    by (intro keeps_intros serve_config)
  from keepsD_eq[OF this assms] show ?thesis by simp
qed

text \<open>
  C3. From the start of the server on, whatever requests it answers, with values or errors, its
  repositories have distinct URLs; the applications of a repository carry its URL, have distinct names, a
  provider that can be called and that works under the application's name; the handler's mutex is
  free between requests; the configuration of the clients is the one of the start and checks
  certificates; and every request gets one answer.
\<close>

theorem server_invariant:
  assumes "server_main cfg0 listen port w0 = (Ret s, w)"
    and "map_each (\<lambda>q. attempt (serve X cmp_equal q)) qs (s, w) = (Ret replies, (s', w'))"
  shows "distinct (map repo_url (h_Repos (sv_Handler s'))) \<and> \<not> h_Mutex (sv_Handler s') \<and>
    length replies = length qs \<and>
    sv_KubeConfig s' = sv_KubeConfig s \<and> \<not> rcfg_Insecure (sv_KubeConfig s') \<and>
    (\<forall>r\<in>set (h_Repos (sv_Handler s')). distinct (map a_Name (live_apps (rc_Apps r))) \<and>
       (\<forall>a\<in>set (live_apps (rc_Apps r)). a_URL a = repo_url r \<and>
          provider_ready (a_deliveryProvider a) \<and> provider_release (a_deliveryProvider a) = a_Name a))"
  using grpc.answers_returned[OF assms(2) server_main_inv(1)[OF assms(1)]]
    served_config[OF assms(2)] server_main_secure[OF assms(1)]
  by (auto simp: server_inv_def handler_wf_def repo_wf_def slots_wf_def app_wf_def)

definition pod_world :: sample_world where
  "pod_world = (git_world 1)\<lparr>disk := Dir [(''var'', Dir [(''run'', Dir [(''secrets'', Dir [(''kubernetes.io'',
     Dir [(''serviceaccount'', Dir [(''namespace'', File ''prod'')])])])])])]\<rparr>"

definition server0 :: server where
  "server0 = \<lparr>sv_KubeConfig = rest0\<lparr>rcfg_Insecure := False, rcfg_QPS := 50, rcfg_Burst := 100\<rparr>,
     sv_Handler = \<lparr>h_Repos = [], h_Mutex = False, h_CurrentNamespace = ''prod''\<rparr>\<rparr>"

lemma server0_made: "server_main rest0 (\<lambda>port. ret ()) 50031 pod_world = (Ret server0, pod_world)"
proof -
  have pc: "path_comps namespaceFile =
      [''var'', ''run'', ''secrets'', ''kubernetes.io'', ''serviceaccount'', ''namespace'']"
    by code_simp
  have ns: "ReadFile namespaceFile pod_world = Some ''prod''"
    by (simp add: ReadFile_def pc pod_world_def)
  show ?thesis
    by (simp add: server_main_def panic_on_error_def NewKubernetesConfig_def Let_def rest0_def PanicOnError_def
        andthen_def attempt_def ns server0_def)
qed

definition repo_request :: "repository_msg option" where
  "repo_request = Some \<lparr>pr_Name = ''repo'', pr_Url = ''https://h/r'', pr_PrivateKeySecret = [],
     pr_InsecureIgnoreHostKey = False\<rparr>"

definition app_request :: "application_msg option" where
  "app_request = Some \<lparr>pa_Name = ''a'', pa_Namespace = ''default'', pa_Url = ''https://h/r'',
     pa_Reference = ''main'', pa_SparsePath = ''r'', pa_Revision = None, pa_Helm = None\<rparr>"

lemma repo_request_get [simp]: "repository_GetUrl repo_request = ''https://h/r''"
    "repository_GetName repo_request = ''repo''"
  by (simp_all add: repo_request_def getters)

lemma app_request_get [simp]: "application_GetUrl app_request = ''https://h/r''"
    "application_GetName app_request = ''a''"
  by (simp_all add: app_request_def getters)

lemma request_is_https: "\<not> is_ssh_url ''https://h/r''"
  by code_simp

definition server1 :: server where
  "server1 = server0\<lparr>sv_Handler := (sv_Handler server0)\<lparr>h_Repos := [new_repository
     \<lparr>rc_Name = ''repo'', rc_Settings = request_settings repo_request, rc_auth = None\<rparr>]\<rparr>\<rparr>"

lemma added_repository: "rpc_AddRepository X repo_request (server0, w) = (Ret (), (server1, w))"
proof -
  have c: "NewRepositoryConfig X K ''repo'' (request_settings repo_request) ns w =
      (Ret \<lparr>rc_Name = ''repo'', rc_Settings = request_settings repo_request, rc_auth = None\<rparr>, w)" for K ns
    using request_is_https by (simp add: NewRepositoryConfig_def request_settings_def)
  have a: "AddRepository (new_repository core) (h\<lparr>h_Repos := [], h_Mutex := True\<rparr>) =
      (Ret (), h\<lparr>h_Repos := [new_repository core], h_Mutex := True\<rparr>)" for core h
    by (simp add: AddRepository_new)
  show ?thesis
    by (simp add: rpc_AddRepository_def server0_def server1_def GetRepositoryConfig_def on_handler_def
        with_handler_lock_def lock_handler_def defer_unlock_handler_def register_repository_def c
        AddRepository_new andthen_def)
qed

theorem server_invariant_witness:
  "\<exists>replies s' w'. map_each (\<lambda>q. attempt (serve sample five_equal q))
       [AddRepositoryReq repo_request, DeleteApplicationReq app_request, GetApplicationsReq] (server0, pod_world)
     = (Ret replies, (s', w')) \<and> length replies = 3 \<and> map repo_url (h_Repos (sv_Handler s')) = [''https://h/r'']"
proof -
  have u: "repo_url (new_repository \<lparr>rc_Name = n, rc_Settings = request_settings repo_request, rc_auth = None\<rparr>) = ''https://h/r''" for n
    by (simp add: repo_url_def request_settings_def)
  have d: "rpc_DeleteApplication sample app_request (server1, w) = (Ret (), (server1, w))" for w
    by (simp add: rpc_DeleteApplication_def server1_def server0_def GetRepositoryConfig_def u on_handler_def on_repo_def
        DeleteApplication_def pure_res_def andthen_def)
  have g: "rpc_GetApplications sample (server1, w) = (Ret \<lparr>pas_Items = []\<rparr>, (server1, w))" for w
    by (simp add: rpc_GetApplications_def server1_def list_apps_def)
  obtain replies where m: "map_each (\<lambda>q. attempt (serve sample five_equal q))
       [AddRepositoryReq repo_request, DeleteApplicationReq app_request, GetApplicationsReq] (server0, pod_world)
     = (Ret replies, (server1, pod_world))"
    by (simp add: replying_def added_repository d g andthen_def attempt_def)
  from server_invariant[OF server0_made m] m u show ?thesis by (auto simp: server1_def)
qed

subsection \<open>Adding a repository\<close>

text \<open>
  A successful \<open>AddRepository\<close> leaves a repository with the requested URL in the handler, keeps all the others
  in place, and repeating the request changes nothing.
\<close>

lemma rpc_AddRepository_idempotent:
  assumes "rpc_AddRepository X inm (s, w) = (Ret (), (s', w'))"
  shows "(\<exists>i. GetRepositoryConfig (sv_Handler s') (repository_GetUrl inm) = Some i) \<and>
    take (length (h_Repos (sv_Handler s))) (h_Repos (sv_Handler s')) = h_Repos (sv_Handler s) \<and>
    (\<forall>v. rpc_AddRepository X inm (s', v) = (Ret (), (s', v)))"
proof (cases "GetRepositoryConfig (sv_Handler s) (repository_GetUrl inm)")
  case (Some i)
  with assms show ?thesis by (simp add: rpc_AddRepository_def)
next
  case None
  define h where "h = sv_Handler s"
  have free: "\<not> h_Mutex h" using assms None
    by (cases "h_Mutex h") (auto simp: rpc_AddRepository_def on_handler_def with_handler_lock_def lock_handler_def h_def andthen_def)
  obtain res core v where n: "NewRepositoryConfig X (sv_KubeConfig s) (repository_GetName inm) (request_settings inm)
      (h_CurrentNamespace h) w = (res, v)" "res = Ret core"
    using assms None free
    by (cases "fst (NewRepositoryConfig X (sv_KubeConfig s) (repository_GetName inm) (request_settings inm) (h_CurrentNamespace h) w)")
      (auto simp: rpc_AddRepository_def on_handler_def with_handler_lock_def lock_handler_def
        defer_unlock_handler_def register_repository_def h_def andthen_def split: prod.splits res.splits)
  have url: "repo_url (new_repository core) = repository_GetUrl inm"
    using NewRepositoryConfig_fields(2)[OF n(1)[unfolded n(2)]] by (simp add: repo_url_def request_settings_def)
  have new: "repo_url (new_repository core) \<notin> repo_url ` set (h_Repos h)"
    using None url by (auto simp: GetRepositoryConfig_def first_index_None h_def)
  have s': "sv_Handler s' = h\<lparr>h_Repos := h_Repos h @ [new_repository core], h_Mutex := False\<rparr>"
    using assms None free n new
    by (auto simp: rpc_AddRepository_def on_handler_def with_handler_lock_def lock_handler_def
        defer_unlock_handler_def register_repository_def h_def andthen_def AddRepository_new)
  then have "GetRepositoryConfig (sv_Handler s') (repository_GetUrl inm) \<noteq> None"
    using url by (simp add: GetRepositoryConfig_def first_index_None)
  with s' show ?thesis by (auto simp: rpc_AddRepository_def h_def)
qed

lemma rpc_AddRepository_idempotent_witness:
  "rpc_AddRepository sample repo_request (server0, pod_world) = (Ret (), (server1, pod_world)) \<and>
   rpc_AddRepository sample repo_request (server1, git_world 1) = (Ret (), (server1, git_world 1))"
  using rpc_AddRepository_idempotent[OF added_repository[of sample pod_world]] added_repository[of sample pod_world]
  by blast

subsection \<open>Deleting a repository\<close>

text \<open>
  Deleting a repository by name takes off exactly one repository of that name, the last one, and
  keeps every other; without one the handler is unchanged and the caller gets the error.
\<close>

lemma DeleteRepository_removes_one:
  assumes "DeleteRepository X name (h, w) = (Ret (), (h', w'))"
  shows "\<exists>i. last_index (\<lambda>r. rc_Name r = name) (h_Repos h) = Some i \<and> rc_Name (h_Repos h ! i) = name \<and>
    mset (h_Repos h) = add_mset (h_Repos h ! i) (mset (h_Repos h')) \<and>
    h_Mutex h' = h_Mutex h \<and> h_CurrentNamespace h' = h_CurrentNamespace h"
proof (cases "last_index (\<lambda>r. rc_Name r = name) (h_Repos h)")
  case None
  with assms show ?thesis by (simp add: DeleteRepository_def)
next
  case (Some i)
  then have i: "i < length (h_Repos h)" "rc_Name (h_Repos h ! i) = name" by (auto simp: last_index_Some)
  obtain res w1 where g: "for_each (uninstall_goroutine X) (rc_Apps (h_Repos h ! i)) w = (res, w1)"
    by (metis prod.exhaust)
  have "h' = h\<lparr>h_Repos := swap_remove (h_Repos h) i\<rparr>"
    using assms Some g
    by (cases "rc_Mutex (h_Repos h ! i)"; cases res) (auto simp: DeleteRepository_def andthen_def)
  with i Some mset_swap_remove[OF i(1)] show ?thesis by auto
qed

lemma DeleteRepository_removes_one_witness:
  "\<exists>h' i. DeleteRepository sample ''repo'' (sv_Handler server1, git_world 1) = (Ret (), (h', git_world 1)) \<and>
     mset (h_Repos (sv_Handler server1)) = add_mset (h_Repos (sv_Handler server1) ! i) (mset (h_Repos h'))"
proof -
  obtain h' where d: "DeleteRepository sample ''repo'' (sv_Handler server1, git_world 1) = (Ret (), (h', git_world 1))"
    by (simp add: DeleteRepository_def server1_def)
  from DeleteRepository_removes_one[OF d] d show ?thesis by blast
qed

subsection \<open>Authentication\<close>

text \<open>
  A repository is given SSH credentials exactly when its URL has the scheme ssh or does not parse,
  which takes in every scp-like address; clone, fetch and pull all use them; and the host key is
  not checked only if the settings ask for that.
\<close>

lemma NewRepositoryConfig_auth:
  assumes "NewRepositoryConfig X K name settings ns w = (Ret c, w')"
    and "\<And>p v k v'. x_known_hosts X p v = (Ret k, v') \<Longrightarrow> k \<noteq> InsecureIgnoreHostKey"
  shows "(rc_auth c = None \<longleftrightarrow> (\<exists>scheme. url_parse (rs_URL settings) = Some scheme \<and> scheme \<noteq> ''ssh'')) \<and>
    co_Auth (GetCloneOptions c ref) = rc_auth c \<and> fo_Auth (GetFetchOptions c) = rc_auth c \<and>
    po_Auth (GetPullOptions c ref) = rc_auth c \<and>
    (\<forall>a. rc_auth c = Some a \<longrightarrow> (sa_callback a = InsecureIgnoreHostKey \<longleftrightarrow> rs_InsecureIgnoreHostKey settings))"
proof -
  have "rc_auth c = None \<longleftrightarrow> (\<exists>scheme. url_parse (rs_URL settings) = Some scheme \<and> scheme \<noteq> ''ssh'')"
    using NewRepositoryConfig_fields(3)[OF assms(1)] by (auto simp: is_ssh_url_def split: option.splits)
  moreover have "sa_callback a = InsecureIgnoreHostKey \<longleftrightarrow> rs_InsecureIgnoreHostKey settings" if auth: "rc_auth c = Some a" for a
  proof -
    obtain v v' where a: "NewSSHRepositoryAuth X K settings ns v = (Ret a, v')"
      using assms(1) auth by (auto simp: NewRepositoryConfig_def andthen_eq_Ret split: if_splits)
    show ?thesis
    proof (cases "rs_InsecureIgnoreHostKey settings")
      case True
      with a show ?thesis by (auto simp: NewSSHRepositoryAuth_def andthen_eq_Ret split: prod.splits)
    next
      case False
      with NewSSHRepositoryAuth_callback[OF a False assms(2)] show ?thesis by simp
    qed
  qed
  moreover have "co_Auth (GetCloneOptions c ref) = rc_auth c" "fo_Auth (GetFetchOptions c) = rc_auth c"
    "po_Auth (GetPullOptions c ref) = rc_auth c"
    by (cases "rc_auth c"; simp add: GetCloneOptions_def GetFetchOptions_def GetPullOptions_def)+
  ultimately show ?thesis by blast
qed

definition ssh_settings :: repository_settings where
  "ssh_settings = \<lparr>rs_URL = ''git@github.com:o/r.git'', rs_PrivateKeySecret = ''key'',
     rs_InsecureIgnoreHostKey = False\<rparr>"

lemma NewRepositoryConfig_auth_witness:
  "\<exists>c w'. NewRepositoryConfig sample rest0 ''repo'' ssh_settings ''prod'' (git_world 1) = (Ret c, w') \<and>
     co_Auth (GetCloneOptions c ''refs/heads/main'') = rc_auth c \<and> rc_auth c \<noteq> None"
proof -
  have ssh: "url_parse (rs_URL ssh_settings) = None"
    using url_parse_scp[of "''git''" "''github.com''" "''o/r.git''"] by (simp add: ssh_settings_def is_alpha_def)
  have hm: "deref_home (git_world 1) = (Ret ''/root'', git_world 1)"
    by (simp add: deref_home_def GetUserHome_def git_world_def)
  obtain c w' where n: "NewRepositoryConfig sample rest0 ''repo'' ssh_settings ''prod'' (git_world 1) = (Ret c, w')"
    using hm by (simp add: NewRepositoryConfig_def is_ssh_url_def ssh NewSSHRepositoryAuth_def)
      (simp add: sample_def ssh_settings_def)
  have k: "x_known_hosts sample p v = (Ret k, v') \<Longrightarrow> k \<noteq> InsecureIgnoreHostKey" for p v k v'
    by (auto simp: sample_def)
  from NewRepositoryConfig_auth[OF n k, where ref = "''refs/heads/main''"] n ssh show ?thesis by auto
qed

subsection \<open>The Kubernetes configuration\<close>

lemma materialize_Ret:
  "materialize file data set_file target cfg w = (Ret cfg', w') \<Longrightarrow>
     (if file cfg = [] \<and> data cfg \<noteq> [] then WriteFile target (data cfg) w = (Ret (), w') \<and> cfg' = set_file target cfg
      else w' = w \<and> cfg' = cfg)"
  by (auto simp: materialize_def andthen_eq_Ret split: if_splits)

definition account_file :: "string list \<Rightarrow> string \<Rightarrow> string" where
  "account_file hs n = abs_path (hs @ [''.dummycd'', ''storage'', ''serviceaccount'', n])"

lemma account_file_path:
  assumes "\<forall>x\<in>set hs. plain_comp x" and "hs \<noteq> []" and "plain_comp n"
  shows "Join [Join [Workspace (abs_path hs), ''serviceaccount''], n] = account_file hs n"
    and "path_comps (account_file hs n) = hs @ [''.dummycd'', ''storage'', ''serviceaccount'', n]"
proof -
  have p: "plain_comp ''.dummycd''" "plain_comp ''storage''" "plain_comp ''serviceaccount''"
    by (simp_all add: plain_comp_def)
  show "Join [Join [Workspace (abs_path hs), ''serviceaccount''], n] = account_file hs n"
    using Join_abs_paths[of hs "[''.dummycd'', ''storage'']"] assms p
      Join_abs_paths[of "hs @ [''.dummycd'', ''storage'']" "[''serviceaccount'']"]
      Join_abs_paths[of "hs @ [''.dummycd'', ''storage'', ''serviceaccount'']" "[n]"]
    by (simp add: Workspace_def account_file_def)
  show "path_comps (account_file hs n) = hs @ [''.dummycd'', ''storage'', ''serviceaccount'', n]"
    unfolding account_file_def using assms p by (intro path_comps_abs_path) auto
qed

lemma ReadFile_account:
  assumes "\<forall>x\<in>set hs. plain_comp x" and "hs \<noteq> []" and "plain_comp n" and "plain_comp m"
    and "WriteFile (account_file hs n) d w = (Ret (), w')"
  shows "ReadFile (account_file hs m) w' = (if m = n then Some d else ReadFile (account_file hs m) w)"
  using WriteFile_ReadFile[OF assms(5), of "account_file hs m"]
    account_file_path(2)[OF assms(1-3)] account_file_path(2)[OF assms(1,2,4)] by simp

lemma materialize_read:
  assumes "materialize file data set_file (account_file hs n) cfg w = (Ret cfg', w')"
    and "\<forall>x\<in>set hs. plain_comp x" and "hs \<noteq> []" and "plain_comp n" and "plain_comp k"
  shows "ReadFile (account_file hs k) w' =
    (if file cfg = [] \<and> data cfg \<noteq> [] \<and> k = n then Some (data cfg) else ReadFile (account_file hs k) w)"
  using materialize_Ret[OF assms(1)] ReadFile_account[OF assms(2-5)] by (auto split: if_splits)

text \<open>The three blocks one after the other, in the directory of the account.\<close>

lemma materialize_three:
  assumes "\<forall>x\<in>set hs. plain_comp x" and "hs \<noteq> []"
    and m1: "materialize rcfg_CertFile rcfg_CertData (\<lambda>f c. c\<lparr>rcfg_CertFile := f\<rparr>) (account_file hs ''cert.crt'') c w0 = (Ret c1, w1)"
    and m2: "materialize rcfg_CAFile rcfg_CAData (\<lambda>f c. c\<lparr>rcfg_CAFile := f\<rparr>) (account_file hs ''ca.crt'') c1 w1 = (Ret c2, w2)"
    and m3: "materialize rcfg_KeyFile rcfg_KeyData (\<lambda>f c. c\<lparr>rcfg_KeyFile := f\<rparr>) (account_file hs ''private.key'') c2 w2 = (Ret cfg, w')"
  shows "rcfg_CertFile c = [] \<Longrightarrow> rcfg_CertData c \<noteq> [] \<Longrightarrow> ReadFile (rcfg_CertFile cfg) w' = Some (rcfg_CertData c)"
    and "rcfg_CAFile c = [] \<Longrightarrow> rcfg_CAData c \<noteq> [] \<Longrightarrow> ReadFile (rcfg_CAFile cfg) w' = Some (rcfg_CAData c)"
    and "rcfg_KeyFile c = [] \<Longrightarrow> rcfg_KeyData c \<noteq> [] \<Longrightarrow> ReadFile (rcfg_KeyFile cfg) w' = Some (rcfg_KeyData c)"
    and "(rcfg_Insecure cfg, rcfg_QPS cfg, rcfg_Burst cfg) = (rcfg_Insecure c, rcfg_QPS c, rcfg_Burst c)"
proof -
  have p: "plain_comp ''cert.crt''" "plain_comp ''ca.crt''" "plain_comp ''private.key''"
    by (simp_all add: plain_comp_def)
  note m = materialize_Ret[OF m1] materialize_Ret[OF m2] materialize_Ret[OF m3]
  have rd: "ReadFile (account_file hs k) w1 =
        (if rcfg_CertFile c = [] \<and> rcfg_CertData c \<noteq> [] \<and> k = ''cert.crt'' then Some (rcfg_CertData c) else ReadFile (account_file hs k) w0)"
      "ReadFile (account_file hs k) w2 =
        (if rcfg_CAFile c1 = [] \<and> rcfg_CAData c1 \<noteq> [] \<and> k = ''ca.crt'' then Some (rcfg_CAData c1) else ReadFile (account_file hs k) w1)"
      "ReadFile (account_file hs k) w' =
        (if rcfg_KeyFile c2 = [] \<and> rcfg_KeyData c2 \<noteq> [] \<and> k = ''private.key'' then Some (rcfg_KeyData c2) else ReadFile (account_file hs k) w2)"
    if "plain_comp k" for k
    by (rule materialize_read[OF m1 assms(1,2) p(1) that] materialize_read[OF m2 assms(1,2) p(2) that]
        materialize_read[OF m3 assms(1,2) p(3) that])+
  show "ReadFile (rcfg_CertFile cfg) w' = Some (rcfg_CertData c)" if "rcfg_CertFile c = []" "rcfg_CertData c \<noteq> []"
    using m that rd[OF p(1)] by (auto split: if_splits)
  show "ReadFile (rcfg_CAFile cfg) w' = Some (rcfg_CAData c)" if "rcfg_CAFile c = []" "rcfg_CAData c \<noteq> []"
    using m that rd[OF p(2)] by (auto split: if_splits)
  show "ReadFile (rcfg_KeyFile cfg) w' = Some (rcfg_KeyData c)" if "rcfg_KeyFile c = []" "rcfg_KeyData c \<noteq> []"
    using m that rd[OF p(3)] by (auto split: if_splits)
  show "(rcfg_Insecure cfg, rcfg_QPS cfg, rcfg_Burst cfg) = (rcfg_Insecure c, rcfg_QPS c, rcfg_Burst c)"
    using m by (auto split: if_splits)
qed

text \<open>
  C28. The configuration the server starts with checks certificates and has the raised limits; and
  where it named no certificate, authority or key file although it carries the data, the flags Helm is
  initialised with, which have room for file names only, name a file that holds this data, also when all
  three are written.
\<close>

theorem NewKubernetesConfig_materializes:
  assumes "NewKubernetesConfig cfg0 w = (Ret cfg, w')" and "home w = Some (abs_path hs)"
    and "\<forall>x\<in>set hs. plain_comp x" and "hs \<noteq> []"
  shows "\<not> cf_Insecure (NewHelmKubernetesConfig cfg ns) \<and> rcfg_QPS cfg = 50 \<and> rcfg_Burst cfg = 100 \<and>
    (rcfg_CertFile cfg0 = [] \<and> rcfg_CertData cfg0 \<noteq> [] \<longrightarrow> 
       ReadFile (cf_CertFile (NewHelmKubernetesConfig cfg ns)) w' = Some (rcfg_CertData cfg0)) \<and>
    (rcfg_CAFile cfg0 = [] \<and> rcfg_CAData cfg0 \<noteq> [] \<longrightarrow> 
       ReadFile (cf_CAFile (NewHelmKubernetesConfig cfg ns)) w' = Some (rcfg_CAData cfg0)) \<and>
    (rcfg_KeyFile cfg0 = [] \<and> rcfg_KeyData cfg0 \<noteq> [] \<longrightarrow> 
       ReadFile (cf_KeyFile (NewHelmKubernetesConfig cfg ns)) w' = Some (rcfg_KeyData cfg0))"
proof -
  define c where "c = cfg0\<lparr>rcfg_Insecure := False, rcfg_QPS := 50, rcfg_Burst := 100\<rparr>"
  have c: "\<not> rcfg_Insecure c" "rcfg_QPS c = 50" "rcfg_Burst c = 100"
    "rcfg_CertFile c = rcfg_CertFile cfg0" "rcfg_CertData c = rcfg_CertData cfg0"
    "rcfg_CAFile c = rcfg_CAFile cfg0" "rcfg_CAData c = rcfg_CAData cfg0"
    "rcfg_KeyFile c = rcfg_KeyFile cfg0" "rcfg_KeyData c = rcfg_KeyData cfg0" by (simp_all add: c_def)
  have p: "plain_comp ''cert.crt''" "plain_comp ''ca.crt''" "plain_comp ''private.key''"
    by (simp_all add: plain_comp_def)
  note path = account_file_path(1)[OF assms(3,4) p(1)] account_file_path(1)[OF assms(3,4) p(2)]
    account_file_path(1)[OF assms(3,4) p(3)]
  show ?thesis
  proof (cases "rcfg_CertFile c = [] \<or> rcfg_CAFile c = [] \<or> rcfg_KeyFile c = []")
    case False
    with assms(1) have "cfg = c" by (simp add: NewKubernetesConfig_def Let_def flip: c_def)
    with c False show ?thesis by (auto simp: NewHelmKubernetesConfig_def)
  next
    case True
    have "deref_home w = (Ret (abs_path hs), w)" using assms(2) by (simp add: deref_home_def GetUserHome_def)
    with assms(1) True obtain w0 c1 w1 c2 w2 where
      m1: "materialize rcfg_CertFile rcfg_CertData (\<lambda>f c. c\<lparr>rcfg_CertFile := f\<rparr>) (account_file hs ''cert.crt'') c w0 = (Ret c1, w1)"
      and m2: "materialize rcfg_CAFile rcfg_CAData (\<lambda>f c. c\<lparr>rcfg_CAFile := f\<rparr>) (account_file hs ''ca.crt'') c1 w1 = (Ret c2, w2)"
      and m3: "materialize rcfg_KeyFile rcfg_KeyData (\<lambda>f c. c\<lparr>rcfg_KeyFile := f\<rparr>) (account_file hs ''private.key'') c2 w2 = (Ret cfg, w')"
      by (auto simp: NewKubernetesConfig_def Let_def andthen_eq_Ret path simp flip: c_def)
    from materialize_three[OF assms(3,4) m1 m2 m3] c show ?thesis by (simp add: NewHelmKubernetesConfig_def)
  qed
qed

definition kube_world :: sample_world where
  "kube_world = (git_world 1)\<lparr>disk := Dir [(''root'', Dir [])]\<rparr>"

theorem NewKubernetesConfig_materializes_witness:
  "\<exists>cfg w'. NewKubernetesConfig (rest0\<lparr>rcfg_CertFile := [], rcfg_CertData := ''pem'', rcfg_KeyFile := [],
       rcfg_KeyData := ''key''\<rparr>) kube_world = (Ret cfg, w') \<and>
     ReadFile (rcfg_CertFile cfg) w' = Some ''pem'' \<and> ReadFile (rcfg_KeyFile cfg) w' = Some ''key''"
proof -
  let ?c = "rest0\<lparr>rcfg_CertFile := [], rcfg_CertData := ''pem'', rcfg_KeyFile := [], rcfg_KeyData := ''key''\<rparr>"
  have "case NewKubernetesConfig ?c kube_world of (Ret cfg, w') \<Rightarrow> True | _ \<Rightarrow> False" by code_simp
  then obtain cfg w' where n: "NewKubernetesConfig ?c kube_world = (Ret cfg, w')"
    by (auto split: prod.splits res.splits)
  have "home kube_world = Some (abs_path [''root''])" by code_simp
  from NewKubernetesConfig_materializes[OF n this] n show ?thesis
    by (simp add: plain_comp_def NewHelmKubernetesConfig_def)
qed

end
