(* ===== verification/Rpc.thy ===== *)
theory Rpc
  imports Server
begin

section \<open>The generated gRPC code\<close>

text \<open>
  \<^verbatim>\<open>server/pkg/pb/handler_grpc.pb.go\<close>: the client stub, the server interface, the handlers and the service
  description. The code passes messages as \<^verbatim>\<open>interface{}\<close>: \<open>any_request\<close> and \<open>rpc_reply\<close> are what it puts
  there. \<^verbatim>\<open>Invoke\<close> fills \<^verbatim>\<open>out\<close> and \<^verbatim>\<open>dec\<close> fills \<^verbatim>\<open>in\<close>, each a fresh message of a type the caller fixes, so
  a connection and a decoder have one field for each of these types. Encoding and transport belong to
  libraries; what they are relied on for is stated in the last section.
\<close>

datatype any_request =
    RepositoryPtr "repository_msg option"
  | ApplicationPtr "application_msg option"
  | EmptyPtr "unit option"

subsection \<open>Method names\<close>

definition Dummycd_AddRepository_FullMethodName :: string where
  "Dummycd_AddRepository_FullMethodName = ''/pb.dummycd/AddRepository''"

definition Dummycd_DeleteRepository_FullMethodName :: string where
  "Dummycd_DeleteRepository_FullMethodName = ''/pb.dummycd/DeleteRepository''"

definition Dummycd_AddOrUpdateApplication_FullMethodName :: string where
  "Dummycd_AddOrUpdateApplication_FullMethodName = ''/pb.dummycd/AddOrUpdateApplication''"

definition Dummycd_DeleteApplication_FullMethodName :: string where
  "Dummycd_DeleteApplication_FullMethodName = ''/pb.dummycd/DeleteApplication''"

definition Dummycd_GetApplications_FullMethodName :: string where
  "Dummycd_GetApplications_FullMethodName = ''/pb.dummycd/GetApplications''"

definition Dummycd_GetApplicationRevisions_FullMethodName :: string where
  "Dummycd_GetApplicationRevisions_FullMethodName = ''/pb.dummycd/GetApplicationRevisions''"

definition Dummycd_CheckoutApplicationRevision_FullMethodName :: string where
  "Dummycd_CheckoutApplicationRevision_FullMethodName = ''/pb.dummycd/CheckoutApplicationRevision''"

lemmas FullMethodName_defs =
  Dummycd_AddRepository_FullMethodName_def Dummycd_DeleteRepository_FullMethodName_def
  Dummycd_AddOrUpdateApplication_FullMethodName_def Dummycd_DeleteApplication_FullMethodName_def
  Dummycd_GetApplications_FullMethodName_def Dummycd_GetApplicationRevisions_FullMethodName_def
  Dummycd_CheckoutApplicationRevision_FullMethodName_def

subsection \<open>The client\<close>

text \<open>\<^verbatim>\<open>grpc.ClientConnInterface\<close>: \<^verbatim>\<open>Invoke\<close>, by the type of \<^verbatim>\<open>out\<close>.\<close>

record 's client_conn =
  cc_Invoke_Empty :: "string \<Rightarrow> any_request \<Rightarrow> ('s, unit) comp"
  cc_Invoke_Applications :: "string \<Rightarrow> any_request \<Rightarrow> ('s, applications_msg) comp"
  cc_Invoke_Revisions :: "string \<Rightarrow> any_request \<Rightarrow> ('s, revisions_msg) comp"

record 's dummycd_client =
  dc_AddRepository :: "repository_msg option \<Rightarrow> ('s, unit) comp"
  dc_DeleteRepository :: "repository_msg option \<Rightarrow> ('s, unit) comp"
  dc_AddOrUpdateApplication :: "application_msg option \<Rightarrow> ('s, unit) comp"
  dc_DeleteApplication :: "application_msg option \<Rightarrow> ('s, unit) comp"
  dc_GetApplications :: "unit option \<Rightarrow> ('s, applications_msg) comp"
  dc_GetApplicationRevisions :: "application_msg option \<Rightarrow> ('s, revisions_msg) comp"
  dc_CheckoutApplicationRevision :: "application_msg option \<Rightarrow> ('s, unit) comp"

text \<open>An error of \<^verbatim>\<open>Invoke\<close> is returned with a nil message, which is what \<open>Fail\<close> is.\<close>

definition client_AddRepository :: "'s client_conn \<Rightarrow> repository_msg option \<Rightarrow> ('s, unit) comp" where
  "client_AddRepository cc inm =
     cc_Invoke_Empty cc Dummycd_AddRepository_FullMethodName (RepositoryPtr inm)"

definition client_DeleteRepository :: "'s client_conn \<Rightarrow> repository_msg option \<Rightarrow> ('s, unit) comp" where
  "client_DeleteRepository cc inm =
     cc_Invoke_Empty cc Dummycd_DeleteRepository_FullMethodName (RepositoryPtr inm)"

definition client_AddOrUpdateApplication :: "'s client_conn \<Rightarrow> application_msg option \<Rightarrow> ('s, unit) comp" where
  "client_AddOrUpdateApplication cc inm =
     cc_Invoke_Empty cc Dummycd_AddOrUpdateApplication_FullMethodName (ApplicationPtr inm)"

definition client_DeleteApplication :: "'s client_conn \<Rightarrow> application_msg option \<Rightarrow> ('s, unit) comp" where
  "client_DeleteApplication cc inm =
     cc_Invoke_Empty cc Dummycd_DeleteApplication_FullMethodName (ApplicationPtr inm)"

definition client_GetApplications :: "'s client_conn \<Rightarrow> unit option \<Rightarrow> ('s, applications_msg) comp" where
  "client_GetApplications cc inm =
     cc_Invoke_Applications cc Dummycd_GetApplications_FullMethodName (EmptyPtr inm)"

definition client_GetApplicationRevisions ::
    "'s client_conn \<Rightarrow> application_msg option \<Rightarrow> ('s, revisions_msg) comp" where
  "client_GetApplicationRevisions cc inm =
     cc_Invoke_Revisions cc Dummycd_GetApplicationRevisions_FullMethodName (ApplicationPtr inm)"

definition client_CheckoutApplicationRevision :: "'s client_conn \<Rightarrow> application_msg option \<Rightarrow> ('s, unit) comp" where
  "client_CheckoutApplicationRevision cc inm =
     cc_Invoke_Empty cc Dummycd_CheckoutApplicationRevision_FullMethodName (ApplicationPtr inm)"

definition NewDummycdClient :: "'s client_conn \<Rightarrow> 's dummycd_client" where
  "NewDummycdClient cc =
     \<lparr>dc_AddRepository = client_AddRepository cc,
      dc_DeleteRepository = client_DeleteRepository cc,
      dc_AddOrUpdateApplication = client_AddOrUpdateApplication cc,
      dc_DeleteApplication = client_DeleteApplication cc,
      dc_GetApplications = client_GetApplications cc,
      dc_GetApplicationRevisions = client_GetApplicationRevisions cc,
      dc_CheckoutApplicationRevision = client_CheckoutApplicationRevision cc\<rparr>"

lemmas client_defs =
  client_AddRepository_def client_DeleteRepository_def client_AddOrUpdateApplication_def
  client_DeleteApplication_def client_GetApplications_def client_GetApplicationRevisions_def
  client_CheckoutApplicationRevision_def

subsection \<open>The server interface\<close>

record 's dummycd_server =
  ds_AddRepository :: "repository_msg option \<Rightarrow> ('s, unit) comp"
  ds_DeleteRepository :: "repository_msg option \<Rightarrow> ('s, unit) comp"
  ds_AddOrUpdateApplication :: "application_msg option \<Rightarrow> ('s, unit) comp"
  ds_DeleteApplication :: "application_msg option \<Rightarrow> ('s, unit) comp"
  ds_GetApplications :: "unit option \<Rightarrow> ('s, applications_msg) comp"
  ds_GetApplicationRevisions :: "application_msg option \<Rightarrow> ('s, revisions_msg) comp"
  ds_CheckoutApplicationRevision :: "application_msg option \<Rightarrow> ('s, unit) comp"

definition unimplemented :: "string \<Rightarrow> ('s, 'a) comp" where
  "unimplemented method = failc (OtherError (''method '' @ method @ '' not implemented''))"

definition UnimplementedDummycdServer :: "'s dummycd_server" where
  "UnimplementedDummycdServer =
     \<lparr>ds_AddRepository = (\<lambda>_. unimplemented ''AddRepository''),
      ds_DeleteRepository = (\<lambda>_. unimplemented ''DeleteRepository''),
      ds_AddOrUpdateApplication = (\<lambda>_. unimplemented ''AddOrUpdateApplication''),
      ds_DeleteApplication = (\<lambda>_. unimplemented ''DeleteApplication''),
      ds_GetApplications = (\<lambda>_. unimplemented ''GetApplications''),
      ds_GetApplicationRevisions = (\<lambda>_. unimplemented ''GetApplicationRevisions''),
      ds_CheckoutApplicationRevision = (\<lambda>_. unimplemented ''CheckoutApplicationRevision'')\<rparr>"

text \<open>
  The struct \<^verbatim>\<open>Server\<close> of \<^verbatim>\<open>server.go\<close> as an implementation of the interface. It embeds
  \<^verbatim>\<open>UnimplementedDummycdServer\<close> and has a method of its own for each of the seven.
\<close>

definition Server_methods :: "'e externals \<Rightarrow> app_cmp \<Rightarrow> (server \<times> 'e world) dummycd_server" where
  "Server_methods X cmp_equal = UnimplementedDummycdServer
     \<lparr>ds_AddRepository := rpc_AddRepository X,
      ds_DeleteRepository := rpc_DeleteRepository X,
      ds_AddOrUpdateApplication := rpc_AddOrUpdateApplication X cmp_equal,
      ds_DeleteApplication := rpc_DeleteApplication X,
      ds_GetApplications := (\<lambda>_. rpc_GetApplications X),
      ds_GetApplicationRevisions := rpc_GetApplicationRevisions X,
      ds_CheckoutApplicationRevision := rpc_CheckoutApplicationRevision\<rparr>"

subsection \<open>The handlers\<close>

record 's decoder =
  de_Repository :: "('s, repository_msg) comp"
  de_Application :: "('s, application_msg) comp"
  de_Empty :: "('s, unit) comp"

record 's unary_info =
  ui_Server :: "'s dummycd_server"
  ui_FullMethod :: string

type_synonym 's unary_handler = "any_request \<Rightarrow> ('s, rpc_reply) comp"
type_synonym 's interceptor = "any_request \<Rightarrow> 's unary_info \<Rightarrow> 's unary_handler \<Rightarrow> ('s, rpc_reply) comp"
type_synonym 's method_handler =
  "'s dummycd_server \<Rightarrow> 's decoder \<Rightarrow> 's interceptor option \<Rightarrow> ('s, rpc_reply) comp"

text \<open>The type assertions \<^verbatim>\<open>req.(*T)\<close>, which panic on a value of another type.\<close>

fun as_Repository :: "any_request \<Rightarrow> ('s, repository_msg option) comp" where
  "as_Repository (RepositoryPtr m) = ret m"
| "as_Repository _ = panicc (OtherPanic ''interface conversion'')"

fun as_Application :: "any_request \<Rightarrow> ('s, application_msg option) comp" where
  "as_Application (ApplicationPtr m) = ret m"
| "as_Application _ = panicc (OtherPanic ''interface conversion'')"

fun as_Empty :: "any_request \<Rightarrow> ('s, unit option) comp" where
  "as_Empty (EmptyPtr m) = ret m"
| "as_Empty _ = panicc (OtherPanic ''interface conversion'')"

text \<open>
  The seven generated handlers have one shape: decode into \<^verbatim>\<open>in\<close>, then call the method, directly or
  through the interceptor.
\<close>

definition unary ::
    "('s, 'm) comp \<Rightarrow> ('m option \<Rightarrow> any_request) \<Rightarrow> (any_request \<Rightarrow> ('s, 'm option) comp) \<Rightarrow>
     ('m option \<Rightarrow> ('s, rpc_reply) comp) \<Rightarrow> 's unary_info \<Rightarrow> 's interceptor option \<Rightarrow> ('s, rpc_reply) comp" where
  "unary dec box unbox call info interceptor =
     andthen dec (\<lambda>inm.
       (case interceptor of
          None \<Rightarrow> call (Some inm)
        | Some ic \<Rightarrow> ic (box (Some inm)) info (\<lambda>req. andthen (unbox req) call)))"

definition Dummycd_AddRepository_Handler :: "'s method_handler" where
  "Dummycd_AddRepository_Handler srv dec =
     unary (de_Repository dec) RepositoryPtr as_Repository
       (\<lambda>inm. replying (\<lambda>_. EmptyReply) (ds_AddRepository srv inm))
       \<lparr>ui_Server = srv, ui_FullMethod = Dummycd_AddRepository_FullMethodName\<rparr>"

definition Dummycd_DeleteRepository_Handler :: "'s method_handler" where
  "Dummycd_DeleteRepository_Handler srv dec =
     unary (de_Repository dec) RepositoryPtr as_Repository
       (\<lambda>inm. replying (\<lambda>_. EmptyReply) (ds_DeleteRepository srv inm))
       \<lparr>ui_Server = srv, ui_FullMethod = Dummycd_DeleteRepository_FullMethodName\<rparr>"

definition Dummycd_AddOrUpdateApplication_Handler :: "'s method_handler" where
  "Dummycd_AddOrUpdateApplication_Handler srv dec =
     unary (de_Application dec) ApplicationPtr as_Application
       (\<lambda>inm. replying (\<lambda>_. EmptyReply) (ds_AddOrUpdateApplication srv inm))
       \<lparr>ui_Server = srv, ui_FullMethod = Dummycd_AddOrUpdateApplication_FullMethodName\<rparr>"

definition Dummycd_DeleteApplication_Handler :: "'s method_handler" where
  "Dummycd_DeleteApplication_Handler srv dec =
     unary (de_Application dec) ApplicationPtr as_Application
       (\<lambda>inm. replying (\<lambda>_. EmptyReply) (ds_DeleteApplication srv inm))
       \<lparr>ui_Server = srv, ui_FullMethod = Dummycd_DeleteApplication_FullMethodName\<rparr>"

definition Dummycd_GetApplications_Handler :: "'s method_handler" where
  "Dummycd_GetApplications_Handler srv dec =
     unary (de_Empty dec) EmptyPtr as_Empty
       (\<lambda>inm. replying ApplicationsReply (ds_GetApplications srv inm))
       \<lparr>ui_Server = srv, ui_FullMethod = Dummycd_GetApplications_FullMethodName\<rparr>"

definition Dummycd_GetApplicationRevisions_Handler :: "'s method_handler" where
  "Dummycd_GetApplicationRevisions_Handler srv dec =
     unary (de_Application dec) ApplicationPtr as_Application
       (\<lambda>inm. replying RevisionsReply (ds_GetApplicationRevisions srv inm))
       \<lparr>ui_Server = srv, ui_FullMethod = Dummycd_GetApplicationRevisions_FullMethodName\<rparr>"

definition Dummycd_CheckoutApplicationRevision_Handler :: "'s method_handler" where
  "Dummycd_CheckoutApplicationRevision_Handler srv dec =
     unary (de_Application dec) ApplicationPtr as_Application
       (\<lambda>inm. replying (\<lambda>_. EmptyReply) (ds_CheckoutApplicationRevision srv inm))
       \<lparr>ui_Server = srv, ui_FullMethod = Dummycd_CheckoutApplicationRevision_FullMethodName\<rparr>"

lemmas Handler_defs =
  Dummycd_AddRepository_Handler_def Dummycd_DeleteRepository_Handler_def
  Dummycd_AddOrUpdateApplication_Handler_def Dummycd_DeleteApplication_Handler_def
  Dummycd_GetApplications_Handler_def Dummycd_GetApplicationRevisions_Handler_def
  Dummycd_CheckoutApplicationRevision_Handler_def

subsection \<open>The service description\<close>

record 's service_desc =
  sd_ServiceName :: string
  sd_Methods :: "(string \<times> 's method_handler) list"

definition Dummycd_ServiceDesc :: "'s service_desc" where
  "Dummycd_ServiceDesc =
     \<lparr>sd_ServiceName = ''pb.dummycd'',
      sd_Methods =
       [(''AddRepository'', Dummycd_AddRepository_Handler),
        (''DeleteRepository'', Dummycd_DeleteRepository_Handler),
        (''AddOrUpdateApplication'', Dummycd_AddOrUpdateApplication_Handler),
        (''DeleteApplication'', Dummycd_DeleteApplication_Handler),
        (''GetApplications'', Dummycd_GetApplications_Handler),
        (''GetApplicationRevisions'', Dummycd_GetApplicationRevisions_Handler),
        (''CheckoutApplicationRevision'', Dummycd_CheckoutApplicationRevision_Handler)]\<rparr>"

text \<open>\<open>register\<close> is \<^verbatim>\<open>RegisterService\<close> of a \<^verbatim>\<open>grpc.ServiceRegistrar\<close>.\<close>

definition RegisterDummycdServer ::
    "('s service_desc \<Rightarrow> 's dummycd_server \<Rightarrow> 'g) \<Rightarrow> 's dummycd_server \<Rightarrow> 'g" where
  "RegisterDummycdServer register srv = register Dummycd_ServiceDesc srv"

subsection \<open>Documented behaviour of gRPC\<close>

text \<open>
  A codec turns messages into \<open>'b\<close>, the bytes on the wire, or refuses them (protobuf refuses a string that is
  not UTF-8). What it encodes it decodes to the same message, a nil request to the empty one, and it
  encodes the empty reply.
\<close>

record 'b codec =
  wi_marshal_request :: "any_request \<Rightarrow> error + 'b"
  wi_Repository :: "'b \<Rightarrow> error + repository_msg"
  wi_Application :: "'b \<Rightarrow> error + application_msg"
  wi_Empty :: "'b \<Rightarrow> error + unit"
  wi_marshal_reply :: "rpc_reply \<Rightarrow> error + 'b"
  wi_Applications :: "'b \<Rightarrow> error + applications_msg"
  wi_Revisions :: "'b \<Rightarrow> error + revisions_msg"

definition empty_repository_msg :: repository_msg where
  "empty_repository_msg =
     \<lparr>pr_Name = [], pr_Url = [], pr_PrivateKeySecret = [], pr_InsecureIgnoreHostKey = False\<rparr>"

definition empty_application_msg :: application_msg where
  "empty_application_msg =
     \<lparr>pa_Name = [], pa_Namespace = [], pa_Url = [], pa_Reference = [], pa_SparsePath = [],
      pa_Revision = None, pa_Helm = None\<rparr>"

definition contents :: "'m \<Rightarrow> 'm option \<Rightarrow> 'm" where
  "contents z p = (case p of None \<Rightarrow> z | Some m \<Rightarrow> m)"

definition faithful_codec :: "'b codec \<Rightarrow> bool" where
  "faithful_codec W \<longleftrightarrow>
     (\<forall>p b. wi_marshal_request W (RepositoryPtr p) = Inr b \<longrightarrow>
        wi_Repository W b = Inr (contents empty_repository_msg p)) \<and>
     (\<forall>p b. wi_marshal_request W (ApplicationPtr p) = Inr b \<longrightarrow>
        wi_Application W b = Inr (contents empty_application_msg p)) \<and>
     (\<forall>p b. wi_marshal_request W (EmptyPtr p) = Inr b \<longrightarrow> wi_Empty W b = Inr ()) \<and>
     (\<exists>b. wi_marshal_reply W EmptyReply = Inr b \<and> wi_Empty W b = Inr ()) \<and>
     (\<forall>m b. wi_marshal_reply W (ApplicationsReply m) = Inr b \<longrightarrow> wi_Applications W b = Inr m) \<and>
     (\<forall>m b. wi_marshal_reply W (RevisionsReply m) = Inr b \<longrightarrow> wi_Revisions W b = Inr m)"

text \<open>
  A connection to a server with the service \<open>srv\<close> registered under \<open>desc\<close>, without interceptors
  (\<^verbatim>\<open>grpc.NewServer()\<close>): a call encodes its request; the server looks the method up by its full name and
  runs its handler, \<^verbatim>\<open>dec\<close> decoding the request; the reply comes back encoded, an error of the server as a
  status \<open>st\<close> of it.
\<close>

definition checked :: "error + 'a \<Rightarrow> ('s, 'a) comp" where
  "checked x = (case x of Inl e \<Rightarrow> failc e | Inr a \<Rightarrow> ret a)"

definition on_error :: "(error \<Rightarrow> error) \<Rightarrow> ('s, 'a) comp \<Rightarrow> ('s, 'a) comp" where
  "on_error st m s = (case m s of (Fail e, s') \<Rightarrow> (Fail (st e), s') | (r, s') \<Rightarrow> (r, s'))"

definition decoding :: "'b codec \<Rightarrow> 'b \<Rightarrow> 's decoder" where
  "decoding W b =
     \<lparr>de_Repository = checked (wi_Repository W b), de_Application = checked (wi_Application W b),
      de_Empty = checked (wi_Empty W b)\<rparr>"

definition find_method :: "'s service_desc \<Rightarrow> string \<Rightarrow> 's method_handler option" where
  "find_method desc method =
     map_option snd (List.find (\<lambda>(name, h). ''/'' @ sd_ServiceName desc @ ''/'' @ name = method) (sd_Methods desc))"

definition remote_call ::
    "'b codec \<Rightarrow> (error \<Rightarrow> error) \<Rightarrow> 's service_desc \<Rightarrow> 's dummycd_server \<Rightarrow> string \<Rightarrow> any_request \<Rightarrow> ('s, 'b) comp" where
  "remote_call W st desc srv method args =
     andthen (checked (wi_marshal_request W args)) (\<lambda>b.
       on_error st
         (case find_method desc method of
            None \<Rightarrow> failc (OtherError ''unknown method'')
          | Some h \<Rightarrow> andthen (h srv (decoding W b) None) (\<lambda>reply. checked (wi_marshal_reply W reply))))"

definition delivers ::
    "'b codec \<Rightarrow> (error \<Rightarrow> error) \<Rightarrow> 's service_desc \<Rightarrow> 's dummycd_server \<Rightarrow> 's client_conn \<Rightarrow> bool" where
  "delivers W st desc srv cc \<longleftrightarrow>
     (\<forall>method args.
        cc_Invoke_Empty cc method args =
          andthen (remote_call W st desc srv method args) (\<lambda>b. checked (wi_Empty W b)) \<and>
        cc_Invoke_Applications cc method args =
          andthen (remote_call W st desc srv method args) (\<lambda>b. checked (wi_Applications W b)) \<and>
        cc_Invoke_Revisions cc method args =
          andthen (remote_call W st desc srv method args) (\<lambda>b. checked (wi_Revisions W b)))"

end
