(* ===== verification/Operator.thy ===== *)
theory Operator
  imports Rpc
begin

section \<open>The operator\<close>

text \<open>
  The custom resources of \<^verbatim>\<open>operator/api/v1alpha1\<close> and the two reconcilers of
  \<^verbatim>\<open>operator/controllers\<close>. A reconciler's state is a pair: the cluster it reads and writes through
  controller-runtime's client, and what lies behind the gRPC client. The cluster client and the
  finalizer helpers of \<^verbatim>\<open>controllerutil\<close> are the fields of \<open>kube\<close>; the gRPC client is the
  interface \<^verbatim>\<open>DummycdClient\<close> of theory \<open>Rpc\<close>.
\<close>

subsection \<open>Custom resources\<close>

record object_meta =
  om_Name :: string
  om_Namespace :: string
  om_Deleted :: bool  \<comment> \<open>\<^verbatim>\<open>!DeletionTimestamp.IsZero()\<close>\<close>
  om_Finalizers :: "string list"

record application_helm_spec =
  hs_CheckValuesEqual :: bool
  hs_ReInstallRelease :: bool
  hs_CreateNamespace :: bool
  hs_Atomic :: bool
  hs_IncludeCRDs :: bool
  hs_ValuesFiles :: "string list"

record application_spec =
  as_URL :: string
  as_Namespace :: string
  as_Reference :: string
  as_SparsePath :: string
  as_Helm :: application_helm_spec

record repository_spec =
  ps_URL :: string
  ps_PrivateKeySecret :: string
  ps_InsecureIgnoreHostKey :: bool

record 'sp custom_resource =
  cr_meta :: object_meta
  cr_Spec :: 'sp

type_synonym application_cr = "application_spec custom_resource"
type_synonym repository_cr = "repository_spec custom_resource"

subsection \<open>Clients\<close>

text \<open>\<^verbatim>\<open>Update\<close> writes the server's answer into the object it is given.\<close>

type_synonym ns_name = "string \<times> string"

record ('k, 'sp) kube =
  ku_Get :: "ns_name \<Rightarrow> ('k, 'sp custom_resource) comp"
  ku_Update :: "'sp custom_resource \<Rightarrow> ('k, 'sp custom_resource) comp"
  ku_ContainsFinalizer :: "string list \<Rightarrow> string \<Rightarrow> bool"
  ku_AddFinalizer :: "string list \<Rightarrow> string \<Rightarrow> string list"
  ku_RemoveFinalizer :: "string list \<Rightarrow> string \<Rightarrow> string list"

subsection \<open>Reconciling\<close>

text \<open>\<open>requeue_after\<close> of the result, in nanoseconds; zero is no requeue.\<close>

definition requeue_minute :: int where
  "requeue_minute = 1 * 60 * 1000000000"

definition set_finalizers :: "string list \<Rightarrow> 'sp custom_resource \<Rightarrow> 'sp custom_resource" where
  "set_finalizers fs c = c\<lparr>cr_meta := (cr_meta c)\<lparr>om_Finalizers := fs\<rparr>\<rparr>"

text \<open>
  The two \<^verbatim>\<open>Reconcile\<close> functions have the same shape. \<open>reconcile\<close> is that shape, for the
  finalizer's name and the two calls of the gRPC client: \<open>delete_call\<close> for an object marked for
  deletion, \<open>sync_call\<close> otherwise.
\<close>

definition reconcile ::
    "('k, 'sp) kube \<Rightarrow> string \<Rightarrow> ('sp custom_resource \<Rightarrow> ('s, unit) comp) \<Rightarrow>
     ('sp custom_resource \<Rightarrow> ('s, unit) comp) \<Rightarrow> ns_name \<Rightarrow> ('k \<times> 's, int) comp" where
  "reconcile K finalizerName delete_call sync_call req =
     andthen (attempt (on_obj (ku_Get K req))) (\<lambda>got.
       (case got of
          Inl err \<Rightarrow> if IsNotFound err then ret 0 else failc err
        | Inr obj \<Rightarrow>
            let finalizers = om_Finalizers (cr_meta obj) in
            if \<not> om_Deleted (cr_meta obj) then
              andthen
                (if \<not> ku_ContainsFinalizer K finalizers finalizerName then
                   on_obj (ku_Update K (set_finalizers (ku_AddFinalizer K finalizers finalizerName) obj))
                 else ret obj) (\<lambda>obj'.
              andthen (on_world (sync_call obj')) (\<lambda>_.
                ret requeue_minute))
            else if ku_ContainsFinalizer K finalizers finalizerName then
              andthen (on_world (delete_call obj)) (\<lambda>_.
              andthen (on_obj (ku_Update K (set_finalizers (ku_RemoveFinalizer K finalizers finalizerName) obj))) (\<lambda>_.
                ret 0))
            else ret 0))"

definition app_finalizer :: string where
  "app_finalizer = ''app.dummy.cd/finalizer''"

definition repo_finalizer :: string where
  "repo_finalizer = ''repo.dummy.cd/finalizer''"

definition app_delete_msg :: "string \<Rightarrow> application_cr \<Rightarrow> application_msg" where
  "app_delete_msg name app =
     \<lparr>pa_Name = name, pa_Namespace = [], pa_Url = as_URL (cr_Spec app), pa_Reference = [],
      pa_SparsePath = [], pa_Revision = None, pa_Helm = None\<rparr>"

definition app_sync_msg :: "string \<Rightarrow> application_cr \<Rightarrow> application_msg" where
  "app_sync_msg name app = (let sp = cr_Spec app; hs = as_Helm sp in
     \<lparr>pa_Name = name, pa_Namespace = as_Namespace sp, pa_Url = as_URL sp,
      pa_Reference = as_Reference sp, pa_SparsePath = as_SparsePath sp, pa_Revision = None,
      pa_Helm = Some
        \<lparr>ph_CheckValuesEqual = hs_CheckValuesEqual hs, ph_ReInstallRelease = hs_ReInstallRelease hs,
         ph_CreateNamespace = hs_CreateNamespace hs, ph_Atomic = hs_Atomic hs,
         ph_IncludeCRDs = hs_IncludeCRDs hs, ph_ValuesFiles = hs_ValuesFiles hs\<rparr>\<rparr>)"

definition repo_delete_msg :: "string \<Rightarrow> repository_msg" where
  "repo_delete_msg name =
     \<lparr>pr_Name = name, pr_Url = [], pr_PrivateKeySecret = [], pr_InsecureIgnoreHostKey = False\<rparr>"

definition repo_sync_msg :: "string \<Rightarrow> repository_cr \<Rightarrow> repository_msg" where
  "repo_sync_msg name repo =
     \<lparr>pr_Name = name, pr_Url = ps_URL (cr_Spec repo),
      pr_PrivateKeySecret = ps_PrivateKeySecret (cr_Spec repo),
      pr_InsecureIgnoreHostKey = ps_InsecureIgnoreHostKey (cr_Spec repo)\<rparr>"

definition ApplicationReconcile ::
    "('k, application_spec) kube \<Rightarrow> 's dummycd_client \<Rightarrow> ns_name \<Rightarrow> ('k \<times> 's, int) comp" where
  "ApplicationReconcile K C req =
     reconcile K app_finalizer
       (\<lambda>app. dc_DeleteApplication C (Some (app_delete_msg (snd req) app)))
       (\<lambda>app. dc_AddOrUpdateApplication C (Some (app_sync_msg (snd req) app))) req"

definition RepositoryReconcile ::
    "('k, repository_spec) kube \<Rightarrow> 's dummycd_client \<Rightarrow> ns_name \<Rightarrow> ('k \<times> 's, int) comp" where
  "RepositoryReconcile K C req =
     reconcile K repo_finalizer
       (\<lambda>repo. dc_DeleteRepository C (Some (repo_delete_msg (snd req))))
       (\<lambda>repo. dc_AddRepository C (Some (repo_sync_msg (snd req) repo))) req"

subsection \<open>The client whose calls reach the server\<close>

text \<open>
  A client call as the server's RPC itself. What the generated client, the connection and the service's
  handlers add to it is in theory \<open>RpcProps\<close>.
\<close>

definition server_client :: "'e externals \<Rightarrow> app_cmp \<Rightarrow> (server \<times> 'e world) dummycd_client" where
  "server_client X cmp_equal =
     \<lparr>dc_AddRepository = rpc_AddRepository X,
      dc_DeleteRepository = rpc_DeleteRepository X,
      dc_AddOrUpdateApplication = rpc_AddOrUpdateApplication X cmp_equal,
      dc_DeleteApplication = rpc_DeleteApplication X,
      dc_GetApplications = (\<lambda>_. rpc_GetApplications X),
      dc_GetApplicationRevisions = rpc_GetApplicationRevisions X,
      dc_CheckoutApplicationRevision = rpc_CheckoutApplicationRevision\<rparr>"

end
