(* ===== verification/OperatorProps.thy ===== *)
theory OperatorProps
  imports ServiceProps Operator
begin

section \<open>Properties of the operator\<close>

subsection \<open>Documented behaviour of the cluster client\<close>

text \<open>
  \<open>view k\<close> is the set of custom resources, by namespace and name. A read gives the stored object (the
  manager's client reads from its cache). An update of a stored object is either answered, and has then written
  its specification and finalizers, where an object marked for deletion is gone once its last finalizer is;
  or it is refused with an error, such as a conflict, and has then changed no object.
\<close>

definition cr_key :: "'sp custom_resource \<Rightarrow> ns_name" where
  "cr_key c = (om_Namespace (cr_meta c), om_Name (cr_meta c))"

definition kube_reads :: "('k, 'sp) kube \<Rightarrow> ('k \<Rightarrow> ns_name \<rightharpoonup> 'sp custom_resource) \<Rightarrow> bool" where
  "kube_reads K view \<longleftrightarrow>
     (\<forall>k n. ku_Get K n k = (case view k n of None \<Rightarrow> (Fail K8sNotFound, k) | Some c \<Rightarrow> (Ret c, k)) \<and>
        (\<forall>c. view k n = Some c \<longrightarrow> cr_key c = n))"

definition stored_update ::
    "('k \<Rightarrow> ns_name \<rightharpoonup> 'sp custom_resource) \<Rightarrow> 'k \<Rightarrow> 'sp custom_resource \<Rightarrow> 'sp custom_resource \<Rightarrow>
     'sp custom_resource \<Rightarrow> 'k \<Rightarrow> bool" where
  "stored_update view k old c c' k' \<longleftrightarrow>
     cr_Spec c' = cr_Spec c \<and> om_Finalizers (cr_meta c') = om_Finalizers (cr_meta c) \<and>
     om_Deleted (cr_meta c') = om_Deleted (cr_meta old) \<and>
     view k' = (view k)(cr_key c :=
       if om_Deleted (cr_meta old) \<and> om_Finalizers (cr_meta c) = [] then None else Some c')"

definition kube_updates :: "('k, 'sp) kube \<Rightarrow> ('k \<Rightarrow> ns_name \<rightharpoonup> 'sp custom_resource) \<Rightarrow> bool" where
  "kube_updates K view \<longleftrightarrow>
     (\<forall>k c old. view k (cr_key c) = Some old \<longrightarrow>
        (\<exists>c' k'. ku_Update K c k = (Ret c', k') \<and> stored_update view k old c c' k') \<or>
        (\<exists>e k'. ku_Update K c k = (Fail e, k') \<and> view k' = view k))"

definition finalizer_helpers :: "('k, 'sp) kube \<Rightarrow> bool" where
  "finalizer_helpers K \<longleftrightarrow>
     (\<forall>fs f. (ku_ContainsFinalizer K fs f \<longleftrightarrow> f \<in> set fs) \<and>
        set (ku_AddFinalizer K fs f) = insert f (set fs) \<and> set (ku_RemoveFinalizer K fs f) = set fs - {f})"

lemma set_finalizers_sel [simp]:
  "cr_key (set_finalizers fs c) = cr_key c" "cr_Spec (set_finalizers fs c) = cr_Spec c"
  "om_Finalizers (cr_meta (set_finalizers fs c)) = fs"
  by (simp_all add: set_finalizers_def cr_key_def)

lemma kube_get: "kube_reads K view \<Longrightarrow> view k n = Some c \<Longrightarrow> ku_Get K n k = (Ret c, k) \<and> cr_key c = n"
  by (cases n) (auto simp: kube_reads_def)

lemma kube_update:
  assumes "kube_reads K view" and "kube_updates K view" and "view k n = Some c"
  obtains (stored) c' k' where "ku_Update K (set_finalizers fs c) k = (Ret c', k')" "cr_Spec c' = cr_Spec c"
      "om_Finalizers (cr_meta c') = fs" "om_Deleted (cr_meta c') = om_Deleted (cr_meta c)"
      "view k' = (view k)(n := if om_Deleted (cr_meta c) \<and> fs = [] then None else Some c')"
    | (refused) e k' where "ku_Update K (set_finalizers fs c) k = (Fail e, k')" "view k' = view k"
proof -
  have n: "cr_key c = n" using kube_get[OF assms(1,3)] by blast
  then consider (a) c' k' where "ku_Update K (set_finalizers fs c) k = (Ret c', k')"
      "stored_update view k c (set_finalizers fs c) c' k'"
    | (b) e k' where "ku_Update K (set_finalizers fs c) k = (Fail e, k')" "view k' = view k"
    using assms(2,3) unfolding kube_updates_def by (metis set_finalizers_sel(1))
  then show thesis
  proof cases
    case a
    with n stored show thesis by (simp add: stored_update_def)
  qed (rule refused)
qed

subsection \<open>The shape of a reconciliation\<close>

text \<open>A call on \<open>s\<close>, then an answer \<open>res\<close> with the cluster \<open>ok\<close>; the cluster is \<open>failed\<close> where the call fails.\<close>

definition after :: "('s, unit) comp \<Rightarrow> 's \<Rightarrow> 'k \<Rightarrow> int res \<Rightarrow> 'k \<Rightarrow> int res \<times> ('k \<times> 's)" where
  "after call s ok res failed =
     (case call s of
        (Ret _, s') \<Rightarrow> (res, (ok, s'))
      | (Fail e, s') \<Rightarrow> (Fail e, (failed, s'))
      | (Panic q, s') \<Rightarrow> (Panic q, (failed, s'))
      | (Spin, s') \<Rightarrow> (Spin, (failed, s')))"

lemma andthen_on_world_after:
  "andthen (on_world m) (\<lambda>_. ret x) (k, s) = after m s k (Ret x) k"
  by (simp add: after_def andthen_def split: prod.split res.split)

lemma reconcile_live:
  assumes K: "kube_reads K view" "kube_updates K view" "finalizer_helpers K"
    and c: "view k req = Some c" "\<not> om_Deleted (cr_meta c)"
  obtains (synced) c' k' where "view k' = (view k)(req \<mapsto> c')" "cr_Spec c' = cr_Spec c"
      "set (om_Finalizers (cr_meta c')) = insert f (set (om_Finalizers (cr_meta c)))"
      "f \<in> set (om_Finalizers (cr_meta c)) \<longrightarrow> k' = k"
      "reconcile K f del sync req (k, s) = after (sync c') s k' (Ret requeue_minute) k'"
    | (refused) e k' where "f \<notin> set (om_Finalizers (cr_meta c))" "view k' = view k"
      "reconcile K f del sync req (k, s) = (Fail e, (k', s))"
proof (cases "f \<in> set (om_Finalizers (cr_meta c))")
  case True
  then have "ku_ContainsFinalizer K (om_Finalizers (cr_meta c)) f" using K(3) by (simp add: finalizer_helpers_def)
  then have "reconcile K f del sync req (k, s) = after (sync c) s k (Ret requeue_minute) k"
    using kube_get[OF K(1) c(1)] c(2) by (simp add: reconcile_def andthen_on_world_after)
  with True c show thesis by (intro synced[of k c]) (auto simp: insert_absorb)
next
  case False
  have n: "\<not> ku_ContainsFinalizer K (om_Finalizers (cr_meta c)) f" using K(3) False by (simp add: finalizer_helpers_def)
  show thesis
  proof (rule kube_update[OF K(1,2) c(1), of "ku_AddFinalizer K (om_Finalizers (cr_meta c)) f"], goal_cases)
    case (1 c' k')
    then have "reconcile K f del sync req (k, s) = after (sync c') s k' (Ret requeue_minute) k'"
      using n kube_get[OF K(1) c(1)] c(2) by (simp add: reconcile_def andthen_on_world_after)
    moreover have "set (om_Finalizers (cr_meta c')) = insert f (set (om_Finalizers (cr_meta c)))"
      using K(3) 1(3) by (simp add: finalizer_helpers_def)
    ultimately show thesis using 1 c(2) False by (intro synced[of k' c']) simp_all
  next
    case (2 e k')
    then have "reconcile K f del sync req (k, s) = (Fail e, (k', s))"
      using n kube_get[OF K(1) c(1)] c(2) by (simp add: reconcile_def)
    with 2 False show thesis by (intro refused) simp_all
  qed
qed

lemma reconcile_deleted:
  assumes K: "kube_reads K view" "kube_updates K view" "finalizer_helpers K"
    and c: "view k req = Some c" "om_Deleted (cr_meta c)" "f \<in> set (om_Finalizers (cr_meta c))"
  obtains (removed) k' where "\<forall>n. n \<noteq> req \<longrightarrow> view k' n = view k n"
      "view k' req = None \<longleftrightarrow> set (om_Finalizers (cr_meta c)) = {f}"
      "\<forall>c'. view k' req = Some c' \<longrightarrow> set (om_Finalizers (cr_meta c')) = set (om_Finalizers (cr_meta c)) - {f}"
      "reconcile K f del sync req (k, s) = after (del c) s k' (Ret 0) k"
    | (refused) e k' where "view k' = view k" "reconcile K f del sync req (k, s) = after (del c) s k' (Fail e) k"
proof -
  let ?fs = "ku_RemoveFinalizer K (om_Finalizers (cr_meta c)) f"
  have m: "ku_ContainsFinalizer K (om_Finalizers (cr_meta c)) f" using K(3) c(3) by (simp add: finalizer_helpers_def)
  have fs: "set ?fs = set (om_Finalizers (cr_meta c)) - {f}" using K(3) by (simp add: finalizer_helpers_def)
  then have "?fs = [] \<longleftrightarrow> set (om_Finalizers (cr_meta c)) - {f} = {}" by (metis set_empty)
  also have "\<dots> \<longleftrightarrow> set (om_Finalizers (cr_meta c)) = {f}" using c(3) by blast
  finally have e: "?fs = [] \<longleftrightarrow> set (om_Finalizers (cr_meta c)) = {f}" .
  show thesis
  proof (rule kube_update[OF K(1,2) c(1), of ?fs], goal_cases)
    case (1 c' k')
    then have "reconcile K f del sync req (k, s) = after (del c) s k' (Ret 0) k"
      using m kube_get[OF K(1) c(1)] c(2)
      by (simp add: reconcile_def after_def andthen_def split: prod.split res.split)
    with 1 fs e c(2) show thesis by (intro removed[of k']) simp_all
  next
    case (2 e k')
    then have "reconcile K f del sync req (k, s) = after (del c) s k' (Fail e) k"
      using m kube_get[OF K(1) c(1)] c(2)
      by (simp add: reconcile_def after_def andthen_def split: prod.split res.split)
    with 2 show thesis by (intro refused)
  qed
qed

text \<open>The two for the reconciler of applications.\<close>

lemmas app_reconcile_live = reconcile_live[where f = app_finalizer
  and del = "\<lambda>app. dc_DeleteApplication C (Some (app_delete_msg (snd req) app))"
  and sync = "\<lambda>app. dc_AddOrUpdateApplication C (Some (app_sync_msg (snd req) app))" and req = req] for C req

lemmas app_reconcile_deleted = reconcile_deleted[where f = app_finalizer
  and del = "\<lambda>app. dc_DeleteApplication C (Some (app_delete_msg (snd req) app))"
  and sync = "\<lambda>app. dc_AddOrUpdateApplication C (Some (app_sync_msg (snd req) app))" and req = req] for C req

subsection \<open>A concrete cluster of custom resources\<close>

definition l_view :: "'sp custom_resource list \<Rightarrow> ns_name \<rightharpoonup> 'sp custom_resource" where
  "l_view k n = List.find (\<lambda>c. cr_key c = n) k"

definition l_update ::
    "'sp custom_resource \<Rightarrow> ('sp custom_resource list, 'sp custom_resource) comp" where
  "l_update c k =
     (case l_view k (cr_key c) of
        None \<Rightarrow> (Fail K8sNotFound, k)
      | Some old \<Rightarrow>
          let c' = c\<lparr>cr_meta := (cr_meta c)\<lparr>om_Deleted := om_Deleted (cr_meta old)\<rparr>\<rparr>;
              rest = filter (\<lambda>x. cr_key x \<noteq> cr_key c) k in
          (Ret c', if om_Deleted (cr_meta old) \<and> om_Finalizers (cr_meta c) = [] then rest else c' # rest))"

definition list_kube :: "('sp custom_resource list, 'sp) kube" where
  "list_kube =
     \<lparr>ku_Get = (\<lambda>n k. case l_view k n of None \<Rightarrow> (Fail K8sNotFound, k) | Some c \<Rightarrow> (Ret c, k)),
      ku_Update = l_update,
      ku_ContainsFinalizer = (\<lambda>fs f. f \<in> set fs),
      ku_AddFinalizer = (\<lambda>fs f. if f \<in> set fs then fs else fs @ [f]),
      ku_RemoveFinalizer = (\<lambda>fs f. filter (\<lambda>x. x \<noteq> f) fs)\<rparr>"

lemma list_kube_reads: "kube_reads list_kube l_view"
  by (auto simp: kube_reads_def list_kube_def l_view_def find_Some_iff)

lemma list_kube_finalizers: "finalizer_helpers list_kube"
  by (auto simp: finalizer_helpers_def list_kube_def)

lemma l_view_filter: "l_view (filter (\<lambda>x. cr_key x \<noteq> m) k) n = (if n = m then None else l_view k n)"
  by (induction k) (auto simp: l_view_def)

lemma list_kube_updates: "kube_updates list_kube l_view"
proof -
  have key: "cr_key (c\<lparr>cr_meta := (cr_meta c)\<lparr>om_Deleted := b\<rparr>\<rparr>) = cr_key c" for c :: "'a custom_resource" and b
    by (simp add: cr_key_def)
  have cons: "l_view (c # k) n = (if cr_key c = n then Some c else l_view k n)" for c :: "'a custom_resource" and k n
    by (simp add: l_view_def)
  have "stored_update l_view k old c (fst_res) k'"
    if "l_view k (cr_key c) = Some old" "l_update c k = (Ret fst_res, k')"
    for k k' :: "'a custom_resource list" and c old fst_res
    using that by (auto simp: stored_update_def l_update_def Let_def fun_eq_iff cons key l_view_filter)
  moreover have "\<exists>c' k'. l_update c k = (Ret c', k')" if "l_view k (cr_key c) = Some old"
    for k :: "'a custom_resource list" and c old
    using that by (simp add: l_update_def Let_def)
  moreover have "ku_Update list_kube = l_update" by (simp add: list_kube_def)
  ultimately show ?thesis unfolding kube_updates_def by metis
qed

definition helm_spec0 :: application_helm_spec where
  "helm_spec0 = \<lparr>hs_CheckValuesEqual = False, hs_ReInstallRelease = False, hs_CreateNamespace = False,
     hs_Atomic = False, hs_IncludeCRDs = False, hs_ValuesFiles = []\<rparr>"

definition app_cr :: "bool \<Rightarrow> string list \<Rightarrow> application_cr" where
  "app_cr deleted fs =
     \<lparr>cr_meta = \<lparr>om_Name = ''a'', om_Namespace = ''ops'', om_Deleted = deleted, om_Finalizers = fs\<rparr>,
      cr_Spec = \<lparr>as_URL = ''https://h/r'', as_Namespace = ''default'', as_Reference = ''main'',
        as_SparsePath = ''r'', as_Helm = helm_spec0\<rparr>\<rparr>"

lemma app_cr_sel [simp]: "om_Deleted (cr_meta (app_cr b fs)) = b" "om_Finalizers (cr_meta (app_cr b fs)) = fs"
    "cr_key (app_cr b fs) = (''ops'', ''a'')" "as_URL (cr_Spec (app_cr b fs)) = ''https://h/r''"
  by (simp_all add: app_cr_def cr_key_def)

lemma l_view_one [simp]: "l_view [c] n = (if cr_key c = n then Some c else None)"
  by (simp add: l_view_def)

text \<open>A gRPC client that acknowledges everything, and counts the calls.\<close>

definition ack_client :: "nat dummycd_client" where
  "ack_client = \<lparr>dc_AddRepository = (\<lambda>m. modify Suc), dc_DeleteRepository = (\<lambda>m. modify Suc),
     dc_AddOrUpdateApplication = (\<lambda>m. modify Suc), dc_DeleteApplication = (\<lambda>m. modify Suc),
     dc_GetApplications = (\<lambda>m. ret \<lparr>pas_Items = []\<rparr>),
     dc_GetApplicationRevisions = (\<lambda>m. ret \<lparr>pvs_Items = []\<rparr>),
     dc_CheckoutApplicationRevision = (\<lambda>m. modify Suc)\<rparr>"

lemma deleted_run:
  "ApplicationReconcile list_kube ack_client (''ops'', ''a'') ([app_cr True [app_finalizer]], 0) = (Ret 0, ([], 1))"
  by (simp add: ApplicationReconcile_def reconcile_def list_kube_def l_update_def set_finalizers_def ack_client_def
      app_cr_def cr_key_def Let_def)

lemma synced_run:
  "ApplicationReconcile list_kube ack_client (''ops'', ''a'') ([app_cr False []], 0) =
     (Ret requeue_minute, ([app_cr False [app_finalizer]], 1))"
  by (simp add: ApplicationReconcile_def reconcile_def list_kube_def l_update_def set_finalizers_def ack_client_def
      app_cr_def cr_key_def Let_def)

subsection \<open>Finalizers\<close>

text \<open>
  C9. An application object that the operator is asked to reconcile loses its finalizer, or disappears
  from the cluster, only when it is marked for deletion and the server has acknowledged the deletion of the
  application of that name and URL.
\<close>

theorem application_finalizer_guards_deletion:
  assumes "kube_reads K view" and "kube_updates K view" and "finalizer_helpers K"
    and "view k req = Some c" and "app_finalizer \<in> set (om_Finalizers (cr_meta c))"
    and "ApplicationReconcile K C req (k, s) = (r, (k', s'))"
    and "\<forall>c'. view k' req = Some c' \<longrightarrow> app_finalizer \<notin> set (om_Finalizers (cr_meta c'))"
  shows "om_Deleted (cr_meta c) \<and> r = Ret 0 \<and>
    dc_DeleteApplication C (Some (app_delete_msg (snd req) c)) s = (Ret (), s')"
proof (cases "om_Deleted (cr_meta c)")
  case False
  then show ?thesis
  proof (rule app_reconcile_live[OF assms(1-4), where C = C and s = s], goal_cases)
    case (1 c' k1)
    then have "k' = k1" using assms(6) by (auto simp: ApplicationReconcile_def after_def split: prod.splits res.splits)
    with 1 assms(7) show ?thesis by simp
  qed (use assms(5) in simp)
next
  case True
  note A = ApplicationReconcile_def
  from True show ?thesis
  proof (rule app_reconcile_deleted[OF assms(1-4) _ assms(5), where C = C and s = s], goal_cases)
    case (1 k1)
    with True assms(4-7) show ?thesis by (auto simp: A after_def split: prod.splits res.splits)
  next
    case (2 e k1)
    with assms(4-7) show ?thesis by (auto simp: A after_def split: prod.splits res.splits)
  qed
qed

theorem application_finalizer_guards_deletion_witness:
  "om_Deleted (cr_meta (app_cr True [app_finalizer])) \<and>
   ApplicationReconcile list_kube ack_client (''ops'', ''a'') ([app_cr True [app_finalizer]], 0) = (Ret 0, ([], 1)) \<and>
   dc_DeleteApplication ack_client (Some (app_delete_msg ''a'' (app_cr True [app_finalizer]))) 0 = (Ret (), 1)"
  using application_finalizer_guards_deletion[OF list_kube_reads list_kube_updates list_kube_finalizers _ _ deleted_run]
    deleted_run by (simp add: l_view_def)

text \<open>
  C27. The operator reports an application as synchronised, asking to be called again in a minute, only when
  the stored object carries the finalizer and the server has accepted the object's specification.
\<close>

theorem application_sync_protected:
  assumes "kube_reads K view" and "kube_updates K view" and "finalizer_helpers K"
    and "view k req = Some c"
    and "ApplicationReconcile K C req (k, s) = (Ret requeue_minute, (k', s'))"
  shows "\<exists>c'. view k' = (view k)(req \<mapsto> c') \<and> cr_Spec c' = cr_Spec c \<and>
    app_finalizer \<in> set (om_Finalizers (cr_meta c')) \<and>
    dc_AddOrUpdateApplication C (Some (app_sync_msg (snd req) c)) s = (Ret (), s')"
proof (cases "om_Deleted (cr_meta c)")
  case False
  then show ?thesis
  proof (rule app_reconcile_live[OF assms(1-4), where C = C and s = s], goal_cases)
    case (1 c' k1)
    have "app_sync_msg (snd req) c' = app_sync_msg (snd req) c" using 1(2) by (simp add: app_sync_msg_def)
    with 1 assms(5) show ?thesis by (auto simp: ApplicationReconcile_def after_def split: prod.splits res.splits)
  qed (use assms(5) in \<open>simp add: ApplicationReconcile_def\<close>)
next
  case True
  have z: "requeue_minute \<noteq> 0" by (simp add: requeue_minute_def)
  show ?thesis
  proof (cases "app_finalizer \<in> set (om_Finalizers (cr_meta c))")
    case f: True
    show ?thesis
      using assms(5) z
      by - (rule app_reconcile_deleted[OF assms(1-4) True f, where C = C and s = s],
        auto simp: ApplicationReconcile_def after_def split: prod.splits res.splits)
  next
    case False
    then have "\<not> ku_ContainsFinalizer K (om_Finalizers (cr_meta c)) app_finalizer"
      using assms(3) by (simp add: finalizer_helpers_def)
    with assms(5) True z kube_get[OF assms(1,4)] show ?thesis
      by (simp add: ApplicationReconcile_def reconcile_def)
  qed
qed

theorem application_sync_protected_witness:
  "\<exists>c'. l_view [app_cr False [app_finalizer]] = (l_view [app_cr False []])((''ops'', ''a'') \<mapsto> c') \<and>
     app_finalizer \<in> set (om_Finalizers (cr_meta c')) \<and>
     dc_AddOrUpdateApplication ack_client (Some (app_sync_msg ''a'' (app_cr False []))) 0 = (Ret (), 1)"
  using application_sync_protected[OF list_kube_reads list_kube_updates list_kube_finalizers _ synced_run]
  by (auto simp del: fun_upd_apply)

text \<open>A refused update ends the reconciliation with its error, before the server is called.\<close>

definition conflict_kube :: "('sp custom_resource list, 'sp) kube" where
  "conflict_kube = list_kube\<lparr>ku_Update := (\<lambda>c k. (Fail (OtherError ''conflict''), k))\<rparr>"

lemma conflict_kube_documented:
  "kube_reads conflict_kube l_view" "kube_updates conflict_kube l_view" "finalizer_helpers conflict_kube"
  using list_kube_reads list_kube_finalizers
  by (simp_all add: conflict_kube_def kube_reads_def kube_updates_def finalizer_helpers_def)

lemma refused_update_not_synced:
  "ApplicationReconcile conflict_kube ack_client (''ops'', ''a'') ([app_cr False []], 0) =
     (Fail (OtherError ''conflict''), ([app_cr False []], 0))"
  by (simp add: ApplicationReconcile_def reconcile_def conflict_kube_def list_kube_def Let_def)

subsection \<open>The operator and the server together\<close>

text \<open>
  C37. Two repository objects with the same URL: once one is registered, the second is acknowledged at every
  synchronisation without any effect on the server, and when it is deleted the server does not
  know its name, so its finalizer is never removed and the object stays forever.
\<close>

theorem second_repository_never_deleted:
  assumes "kube_reads K view" and "kube_updates K view" and "finalizer_helpers K"
    and "view k req = Some c" and "repo_finalizer \<in> set (om_Finalizers (cr_meta c))"
    and "GetRepositoryConfig (sv_Handler s) (ps_URL (cr_Spec c)) = Some i"
    and "\<forall>r\<in>set (h_Repos (sv_Handler s)). rc_Name r \<noteq> snd req" and "\<not> h_Mutex (sv_Handler s)"
  shows "RepositoryReconcile K (server_client X cmp_equal) req (k, (s, w)) =
    (if om_Deleted (cr_meta c) then (Fail ErrRepositoryConfigNotFound, (k, (s, w)))
     else (Ret requeue_minute, (k, (s, w))))"
proof (cases "om_Deleted (cr_meta c)")
  case False
  from reconcile_live[OF assms(1-4) False, of repo_finalizer
      "\<lambda>repo. rpc_DeleteRepository X (Some (repo_delete_msg (snd req)))"
      "\<lambda>repo. rpc_AddRepository X (Some (repo_sync_msg (snd req) repo))" "(s, w)"] assms(5)
  obtain c' k1 where l: "cr_Spec c' = cr_Spec c" "repo_finalizer \<in> set (om_Finalizers (cr_meta c)) \<longrightarrow> k1 = k"
    "RepositoryReconcile K (server_client X cmp_equal) req (k, (s, w)) =
       after (rpc_AddRepository X (Some (repo_sync_msg (snd req) c'))) (s, w) k1 (Ret requeue_minute) k1"
    unfolding RepositoryReconcile_def server_client_def dummycd_client.simps by metis
  have "repository_GetUrl (Some (repo_sync_msg (snd req) c')) = ps_URL (cr_Spec c)"
    using l(1) by (simp add: repo_sync_msg_def repository_GetUrl_def)
  then have "rpc_AddRepository X (Some (repo_sync_msg (snd req) c')) (s, w) = (Ret (), (s, w))"
    using assms(6) by (simp add: rpc_AddRepository_def)
  with l assms(5) False show ?thesis by (simp add: after_def)
next
  case True
  obtain k1 r where d: "RepositoryReconcile K (server_client X cmp_equal) req (k, (s, w)) =
      after (rpc_DeleteRepository X (Some (repo_delete_msg (snd req)))) (s, w) k1 r k"
    using reconcile_deleted[OF assms(1-4) True assms(5), of
        "\<lambda>repo. rpc_DeleteRepository X (Some (repo_delete_msg (snd req)))"
        "\<lambda>repo. rpc_AddRepository X (Some (repo_sync_msg (snd req) repo))" "(s, w)"]
    unfolding RepositoryReconcile_def server_client_def dummycd_client.simps by metis
  have "repository_GetName (Some (repo_delete_msg (snd req))) = snd req"
    by (simp add: repo_delete_msg_def repository_GetName_def)
  moreover have "last_index (\<lambda>r. rc_Name r = snd req) (h_Repos (sv_Handler s)) = None"
    using assms(7) by (simp add: last_index_None)
  moreover have "sv_Handler s\<lparr>h_Mutex := False\<rparr> = sv_Handler s" using assms(8) by simp
  ultimately have "rpc_DeleteRepository X (Some (repo_delete_msg (snd req))) (s, w) = (Fail ErrRepositoryConfigNotFound, (s, w))"
    using assms(8)
    by (simp add: rpc_DeleteRepository_def on_handler_def with_handler_lock_def lock_handler_def
        defer_unlock_handler_def DeleteRepository_def)
  with d True show ?thesis by (simp add: after_def)
qed

definition repo_cr :: "bool \<Rightarrow> repository_cr" where
  "repo_cr deleted =
     \<lparr>cr_meta = \<lparr>om_Name = ''copy'', om_Namespace = ''ops'', om_Deleted = deleted, om_Finalizers = [repo_finalizer]\<rparr>,
      cr_Spec = \<lparr>ps_URL = ''https://h/r'', ps_PrivateKeySecret = [], ps_InsecureIgnoreHostKey = False\<rparr>\<rparr>"

theorem second_repository_never_deleted_witness:
  "RepositoryReconcile list_kube (server_client sample five_equal) (''ops'', ''copy'') ([repo_cr True], (server1, pod_world))
     = (Fail ErrRepositoryConfigNotFound, ([repo_cr True], (server1, pod_world)))"
proof -
  have g: "GetRepositoryConfig (sv_Handler server1) (ps_URL (cr_Spec (repo_cr True))) = Some 0"
    by (simp add: GetRepositoryConfig_def server1_def repo_url_def request_settings_def repo_cr_def)
  have v: "l_view [repo_cr True] (''ops'', ''copy'') = Some (repo_cr True)"
    by (simp add: repo_cr_def cr_key_def)
  have "RepositoryReconcile list_kube (server_client sample five_equal) (''ops'', ''copy'') ([repo_cr True], (server1, pod_world))
    = (if om_Deleted (cr_meta (repo_cr True))
       then (Fail ErrRepositoryConfigNotFound, ([repo_cr True], (server1, pod_world)))
       else (Ret requeue_minute, ([repo_cr True], (server1, pod_world))))"
  proof (rule second_repository_never_deleted[where view = l_view])
    show "repo_finalizer \<in> set (om_Finalizers (cr_meta (repo_cr True)))" by (simp add: repo_cr_def)
    show "\<forall>r\<in>set (h_Repos (sv_Handler server1)). rc_Name r \<noteq> snd (''ops'', ''copy'')" by (simp add: server1_def)
    show "\<not> h_Mutex (sv_Handler server1)" by (simp add: server1_def server0_def)
  qed (rule list_kube_reads list_kube_updates list_kube_finalizers v g)+
  then show ?thesis by (simp add: repo_cr_def)
qed

end
