(* ===== verification/SyncProps.thy ===== *)
theory SyncProps
  imports AppProps RawProps
begin

section \<open>Applications and the cluster\<close>

text \<open>
  What a life cycle and an uninstall of an application delivered from manifests come to, from the git fetch to the
  deletion goroutines: the properties of the application composed with those of its provider.
\<close>

subsection \<open>A life cycle brings the cluster in step\<close>

text \<open>The objects a manifest has to be written for: missing, or carrying another revision.\<close>

definition outdated :: "string \<Rightarrow> manifest option \<Rightarrow> bool" where
  "outdated rvs was = (case was of
     None \<Rightarrow> True | Some m \<Rightarrow> m_labels m revision_label \<noteq> None \<and> m_labels m revision_label \<noteq> Some rvs)"

lemma delivered_outdated:
  "delivered ls ob was now \<Longrightarrow> ls revision_label = Some rvs \<Longrightarrow>
   (if outdated rvs was then \<exists>rv. now = Some (ob\<lparr>m_labels := ls, m_resourceVersion := rv\<rparr>) else now = was)"
  by (auto simp: delivered_def outdated_def split: option.splits if_splits)

lemma app_call_Raw:
  assumes "a_deliveryProvider a = Raw p" and "raw_Delivery X (a_CurrentRevision a) (p, w) = (r, (p', w'))"
  shows "app_Delivery X (a, w) = (r, (a\<lparr>a_deliveryProvider := Raw p'\<rparr>, w'))"
  using assms by (simp add: app_Delivery_def app_call_def provider_Delivery_def on_raw_def)

text \<open>A cleanup of a delivered application, started at once; its goroutines run in any order.\<close>

lemma delivered_then_cleaned:
  assumes X: "cluster_reads X view" "cluster_writes X view" "discovery X groups kinds"
    and acc: "accepts_label X (rp_appName p)" "accepts_label X (x_hash_string X revision)"
    and rv: "\<not> IsZero revision" and p: "\<not> rp_mutex p"
    and rs: "delivery_resources X p w = Ret rs" "distinct (map (resource_key (rp_namespace p)) rs)"
  shows "\<exists>p' w' q ts. raw_Delivery X revision (p, w) = (Ret (), (p', w')) \<and>
    rp_labels p' = (rp_labels p)(revision_label \<mapsto> x_hash_string X revision) \<and>
    cleanup_goroutine X revision (p', w') = (Ret (), (q, w'\<lparr>spawned := spawned w' @ ts\<rparr>)) \<and>
    \<not> rp_mutex q \<and> rp_cleanups q = rp_cleanups p \<and>
    (\<forall>r\<in>set rs. delivered (rp_labels p') (r_obj r)
       (view w (resource_key (rp_namespace p) r)) (view w' (resource_key (rp_namespace p) r))) \<and>
    (\<forall>k. k \<notin> resource_key (rp_namespace p) ` set rs \<longrightarrow> view w' k = view w k) \<and>
    (\<forall>ts'. mset ts' = mset ts \<longrightarrow> (\<exists>v. for_each (run_clean_task X) ts' w' = (Ret (), v) \<and>
       view v = (\<lambda>k. if stale False (discovered groups kinds) p (x_hash_string X revision) (view w') k
                     then None else view w' k)))"
proof -
  from raw_Delivery_spec[OF X(1,2) rs, of revision] p obtain p' w' where
    d: "raw_Delivery X revision (p, w) = (Ret (), (p', w'))"
      "rp_labels p' = (rp_labels p)(revision_label \<mapsto> x_hash_string X revision)"
    and same: "rp_namespace p' = rp_namespace p" "rp_appName p' = rp_appName p" "rp_mutex p'"
      "rp_cleanups p' = Suc (rp_cleanups p)"
    and objs: "\<forall>k. k \<notin> resource_key (rp_namespace p) ` set rs \<longrightarrow> view w' k = view w k"
      "\<forall>r\<in>set rs. delivered (rp_labels p') (r_obj r)
         (view w (resource_key (rp_namespace p) r)) (view w' (resource_key (rp_namespace p) r))" by auto
  from cleanResources_spawns[OF X(3) _ acc(2) rv same(3), of False w'] acc(1) same(1,2) obtain ts where
    ts: "cleanResources X False revision (p', w') = (Ret (), (p'\<lparr>rp_mutex := False\<rparr>, w'\<lparr>spawned := spawned w' @ ts\<rparr>))"
      "ct_gvr ` set ts = discovered groups kinds"
      "\<forall>t\<in>set ts. ct_namespace t = rp_namespace p \<and>
         ct_selector t = stale_selector False (rp_appName p) (x_hash_string X revision)" by auto
  have "\<exists>q. cleanup_goroutine X revision (p', w') = (Ret (), (q, w'\<lparr>spawned := spawned w' @ ts\<rparr>)) \<and>
      \<not> rp_mutex q \<and> rp_cleanups q = rp_cleanups p"
    by (simp add: cleanup_goroutine_def ts(1) same(4))
  then obtain q where "cleanup_goroutine X revision (p', w') = (Ret (), (q, w'\<lparr>spawned := spawned w' @ ts\<rparr>))"
    "\<not> rp_mutex q" "rp_cleanups q = rp_cleanups p" by blast
  moreover have "\<forall>ts'. mset ts' = mset ts \<longrightarrow> (\<exists>v. for_each (run_clean_task X) ts' w' = (Ret (), v) \<and>
      view v = (\<lambda>k. if stale False (discovered groups kinds) p (x_hash_string X revision) (view w') k
                    then None else view w' k))"
    using stale_tasks_run[OF X(1,2) ts(2,3)] by blast
  ultimately show ?thesis using d objs by blast
qed

text \<open>What is left of the cluster when the objects of the manifests were delivered and the stale ones deleted.\<close>

lemma in_step:
  assumes ls: "ls revision_label = Some rvs" "ls app_label = Some (rp_appName p)"
    and del: "\<forall>r\<in>set rs. delivered ls (r_obj r) (was (resource_key ns r)) (mid (resource_key ns r))"
    and frame: "\<forall>k. k \<notin> resource_key ns ` set rs \<longrightarrow> mid k = was k"
    and now: "now = (\<lambda>k. if stale False kinds p rvs mid k then None else mid k)" and ns: "ns = rp_namespace p"
  shows "\<forall>r\<in>set rs. outdated rvs (was (resource_key ns r)) \<longrightarrow>
      (\<exists>rv. now (resource_key ns r) = Some ((r_obj r)\<lparr>m_labels := ls, m_resourceVersion := rv\<rparr>))"
    and "\<forall>k m. now k = Some m \<longrightarrow> fst k \<in> kinds \<longrightarrow> fst (snd k) = ns \<longrightarrow> m_labels m app_label = Some (rp_appName p) \<longrightarrow>
      m_labels m revision_label = Some rvs"
    and "\<forall>k. (\<forall>r\<in>set rs. k = resource_key ns r \<longrightarrow> \<not> outdated rvs (was k)) \<longrightarrow>
      now k = (if stale False kinds p rvs was k then None else was k)"
proof -
  show "\<forall>r\<in>set rs. outdated rvs (was (resource_key ns r)) \<longrightarrow>
      (\<exists>rv. now (resource_key ns r) = Some ((r_obj r)\<lparr>m_labels := ls, m_resourceVersion := rv\<rparr>))"
  proof (intro ballI impI)
    fix r assume r: "r \<in> set rs" and o: "outdated rvs (was (resource_key ns r))"
    with del have "delivered ls (r_obj r) (was (resource_key ns r)) (mid (resource_key ns r))" by blast
    from delivered_outdated[OF this ls(1)] o obtain rv where
      m: "mid (resource_key ns r) = Some ((r_obj r)\<lparr>m_labels := ls, m_resourceVersion := rv\<rparr>)" by auto
    have "\<not> stale False kinds p rvs mid (resource_key ns r)" using ls(1) by (simp add: stale_def m)
    with m have "now (resource_key ns r) = Some ((r_obj r)\<lparr>m_labels := ls, m_resourceVersion := rv\<rparr>)"
      by (simp add: now)
    then show "\<exists>rv. now (resource_key ns r) = Some ((r_obj r)\<lparr>m_labels := ls, m_resourceVersion := rv\<rparr>)" by blast
  qed
  show "\<forall>k m. now k = Some m \<longrightarrow> fst k \<in> kinds \<longrightarrow> fst (snd k) = ns \<longrightarrow> m_labels m app_label = Some (rp_appName p) \<longrightarrow>
      m_labels m revision_label = Some rvs"
    by (auto simp: now stale_def ns split: if_splits)
  show "\<forall>k. (\<forall>r\<in>set rs. k = resource_key ns r \<longrightarrow> \<not> outdated rvs (was k)) \<longrightarrow>
      now k = (if stale False kinds p rvs was k then None else was k)"
  proof (intro allI impI)
    fix k assume k: "\<forall>r\<in>set rs. k = resource_key ns r \<longrightarrow> \<not> outdated rvs (was k)"
    have "mid k = was k"
    proof (cases "k \<in> resource_key ns ` set rs")
      case True
      then obtain r where r: "r \<in> set rs" "k = resource_key ns r" by blast
      with del have "delivered ls (r_obj r) (was k) (mid k)" by blast
      from delivered_outdated[OF this ls(1)] k r show ?thesis by auto
    qed (use frame in blast)
    then show "now k = (if stale False kinds p rvs was k then None else was k)" by (simp add: now stale_def)
  qed
qed

text \<open>
  C22. With a revision set and nothing new to fetch, a life cycle of an application delivered from manifests brings
  the cluster back in step. It returns, nothing of the application changes but its provider, and the cleanup it
  starts unlocks the provider again. When the deletion goroutines have run, in whatever order, every object of the
  manifests that was missing or carried another revision is there as the manifest has it, labelled with the current
  revision; every object of the namespace that is labelled as the application's, of a kind discovery lists, carries
  the current revision; and every object that no manifest had to be written for is as it was, or gone where it was
  one of the application's without the current revision.
\<close>

theorem RunLifeCycle_converges:
  assumes "cluster_reads X view" and "cluster_writes X view" and "discovery X groups kinds"
    and "accepts_label X (rp_appName p)" and "accepts_label X (x_hash_string X (a_CurrentRevision a))"
    and "x_fetch X (a_repo a) (a_fetchOptions a) w = (Fail GitNoErrAlreadyUpToDate, w1)" and "view w1 = view w"
    and "\<not> IsZero (a_CurrentRevision a)" and "a_deliveryProvider a = Raw p" and "\<not> rp_mutex p"
    and "rp_labels p app_label = Some (rp_appName p)"
    and "delivery_resources X p w1 = Ret rs" and "distinct (map (resource_key (rp_namespace p)) rs)"
  shows "\<exists>p' w2 q ts. RunLifeCycle X (a, w) = (Ret (), (a\<lparr>a_deliveryProvider := Raw p'\<rparr>, w2)) \<and>
    cleanup_goroutine X (a_CurrentRevision a) (p', w2) = (Ret (), (q, w2\<lparr>spawned := spawned w2 @ ts\<rparr>)) \<and>
    \<not> rp_mutex q \<and> rp_cleanups q = rp_cleanups p \<and>
    (\<forall>ts'. mset ts' = mset ts \<longrightarrow> (\<exists>v. for_each (run_clean_task X) ts' w2 = (Ret (), v) \<and>
       (\<forall>r\<in>set rs. outdated (x_hash_string X (a_CurrentRevision a)) (view w (resource_key (rp_namespace p) r)) \<longrightarrow>
          (\<exists>rv. view v (resource_key (rp_namespace p) r) = Some ((r_obj r)\<lparr>
             m_labels := (rp_labels p)(revision_label \<mapsto> x_hash_string X (a_CurrentRevision a)),
             m_resourceVersion := rv\<rparr>))) \<and>
       (\<forall>k m. view v k = Some m \<longrightarrow> fst k \<in> discovered groups kinds \<longrightarrow> fst (snd k) = rp_namespace p \<longrightarrow>
          m_labels m app_label = Some (rp_appName p) \<longrightarrow>
          m_labels m revision_label = Some (x_hash_string X (a_CurrentRevision a))) \<and>
       (\<forall>k. (\<forall>r\<in>set rs. k = resource_key (rp_namespace p) r \<longrightarrow>
            \<not> outdated (x_hash_string X (a_CurrentRevision a)) (view w k)) \<longrightarrow>
          view v k = (if stale False (discovered groups kinds) p (x_hash_string X (a_CurrentRevision a)) (view w) k
                      then None else view w k))))"
proof -
  define rvs ns where "rvs = x_hash_string X (a_CurrentRevision a)" and "ns = rp_namespace p"
  define ls where "ls = (rp_labels p)(revision_label \<mapsto> rvs)"
  have ls: "ls revision_label = Some rvs" "ls app_label = Some (rp_appName p)"
    using assms(11) by (simp_all add: ls_def app_label_def revision_label_def)
  from delivered_then_cleaned[OF assms(1-5,8,10,12,13), unfolded assms(7),
      folded rvs_def ns_def, folded ls_def] obtain p' w2 q ts where
    d: "raw_Delivery X (a_CurrentRevision a) (p, w1) = (Ret (), (p', w2))" "rp_labels p' = ls"
    and c: "cleanup_goroutine X (a_CurrentRevision a) (p', w2) = (Ret (), (q, w2\<lparr>spawned := spawned w2 @ ts\<rparr>))"
      "\<not> rp_mutex q" "rp_cleanups q = rp_cleanups p"
    and o': "\<forall>r\<in>set rs. delivered (rp_labels p') (r_obj r) (view w (resource_key ns r)) (view w2 (resource_key ns r))"
      "\<forall>k. k \<notin> resource_key ns ` set rs \<longrightarrow> view w2 k = view w k"
    and t: "\<forall>ts'. mset ts' = mset ts \<longrightarrow> (\<exists>v. for_each (run_clean_task X) ts' w2 = (Ret (), v) \<and>
       view v = (\<lambda>k. if stale False (discovered groups kinds) p rvs (view w2) k then None else view w2 k))"
    by blast
  note o = o'[unfolded d(2)]
  have "RunLifeCycle X (a, w) = (Ret (), (a\<lparr>a_deliveryProvider := Raw p'\<rparr>, w2))"
    using RunLifeCycle_steady[OF assms(6,8)] app_call_Raw[OF assms(9) d(1)] by simp
  moreover have "\<exists>v. for_each (run_clean_task X) ts' w2 = (Ret (), v) \<and>
       (\<forall>r\<in>set rs. outdated rvs (view w (resource_key ns r)) \<longrightarrow>
          (\<exists>rv. view v (resource_key ns r) = Some ((r_obj r)\<lparr>m_labels := ls, m_resourceVersion := rv\<rparr>))) \<and>
       (\<forall>k m. view v k = Some m \<longrightarrow> fst k \<in> discovered groups kinds \<longrightarrow> fst (snd k) = ns \<longrightarrow>
          m_labels m app_label = Some (rp_appName p) \<longrightarrow> m_labels m revision_label = Some rvs) \<and>
       (\<forall>k. (\<forall>r\<in>set rs. k = resource_key ns r \<longrightarrow> \<not> outdated rvs (view w k)) \<longrightarrow>
          view v k = (if stale False (discovered groups kinds) p rvs (view w) k then None else view w k))" if "mset ts' = mset ts" for ts'
  proof -
    from t that obtain v where v: "for_each (run_clean_task X) ts' w2 = (Ret (), v)"
      "view v = (\<lambda>k. if stale False (discovered groups kinds) p rvs (view w2) k then None else view w2 k)" by blast
    from v(1) in_step[OF ls o(1,2) v(2) ns_def] show ?thesis by blast
  qed
  ultimately show ?thesis using c unfolding rvs_def ls_def ns_def by blast
qed

text \<open>
  At revision 2, with the clone up to date: the cluster holds an object of revision 1 that the manifests no longer
  have, and lacks the one they have.
\<close>

definition drifted_app :: application where
  "drifted_app = app0\<lparr>a_CurrentRevision := 2, a_deliveryProvider := Raw raw1,
     a_storagePath := storage_path (abs_path [''root'']) ''a''\<rparr>"

lemma drifted_app_sel [simp]:
  "a_CurrentRevision drifted_app = 2" "a_deliveryProvider drifted_app = Raw raw1" "a_repo drifted_app = 0"
  "a_Name drifted_app = ''a''" "a_storagePath drifted_app = storage_path (abs_path [''root'']) ''a''"
  by (simp_all add: drifted_app_def) (simp_all add: app0_def spec0_def app_spec.defs)

lemma two_nonzero: "\<not> IsZero (2 :: hash)"
  by (simp add: IsZero_def ZeroHash_def)

theorem RunLifeCycle_converges_witness:
  "\<exists>p' w2 q ts v. RunLifeCycle sample (drifted_app, world0) = (Ret (), (drifted_app\<lparr>a_deliveryProvider := Raw p'\<rparr>, w2)) \<and>
     cleanup_goroutine sample 2 (p', w2) = (Ret (), (q, w2\<lparr>spawned := spawned w2 @ ts\<rparr>)) \<and>
     for_each (run_clean_task sample) (rev ts) w2 = (Ret (), v) \<and>
     map_option (\<lambda>m. m_labels m revision_label) (s_view v (cm_gvr, ''default'', ''c'')) = Some (Some (s_hash_string 2)) \<and>
     s_view v (cm_gvr, ''default'', ''old'') = None"
proof -
  let ?old = "(cm_gvr, ''default'', ''old'') :: obj_key" and ?c = "(cm_gvr, ''default'', ''c'') :: obj_key"
  have f: "x_fetch sample (a_repo drifted_app) (a_fetchOptions drifted_app) world0 = (Fail GitNoErrAlreadyUpToDate, world0)"
    by (simp add: s_fetch_def world0_def ext0_def)
  have m: "\<not> rp_mutex raw1" "rp_labels raw1 app_label = Some (rp_appName raw1)"
    by (simp_all add: raw1_def raw0_def app_label_def revision_label_def)
  have k: "resource_key (rp_namespace raw1) (cm_resource ''c'') = ?c"
    by (simp add: resource_key_def resource_gvr_def cm_resource_def cm_gvr_def cm_def raw1_def raw0_def)
  have nz: "\<not> IsZero (a_CurrentRevision drifted_app)" using two_nonzero by simp
  have o: "outdated (s_hash_string 2) (s_view world0 ?c)"
    by (simp add: outdated_def s_view_def world0_def ext0_def)
  have st: "stale False (discovered sample_groups sample_kinds) raw1 (s_hash_string 2) (s_view world0) ?old"
    using sample_discovered s_hash_two
    by (simp add: stale_def cm_gvr_def raw1_def raw0_def s_view_def world0_def ext0_def cm_def)
  note base = RunLifeCycle_converges[OF sample_reads sample_writes sample_discovery sample_accepts sample_accepts f refl nz
      drifted_app_sel(2) m raw1_resources]
  have single: "distinct (map (resource_key (rp_namespace raw1)) [cm_resource ''c''])" by simp
  from base[OF single] show ?thesis
  proof (elim exE conjE, goal_cases)
    case (1 p' w2 q ts)
    have "mset (rev ts) = mset ts" by simp
    from 1(5)[THEN spec, THEN mp, OF this] show ?case
    proof (elim exE conjE, goal_cases)
      case inner: (1 v)
      from inner(2) o have "map_option (\<lambda>m. m_labels m revision_label) (s_view v ?c) = Some (Some (s_hash_string 2))"
        by (auto simp: k)
      moreover have "s_view v ?old = None"
        using inner(4)[THEN spec, of ?old] st k by simp
      moreover have "cleanup_goroutine sample 2 (p', w2) = (Ret (), (q, w2\<lparr>spawned := spawned w2 @ ts\<rparr>))"
        using 1(2) by simp
      ultimately show ?case using 1(1) inner(1) by blast
    qed
  qed
qed

subsection \<open>An uninstall leaves nothing behind\<close>

lemma lookup_below_None: "lookup_node n p = None \<Longrightarrow> lookup_node n (p @ q) = None"
  by (induction n p rule: lookup_node.induct) (auto split: option.splits if_splits)

lemma rm_all_present: "lookup_node n p = Some m \<Longrightarrow> p \<noteq> [] \<Longrightarrow> \<exists>n'. rm_all p n = Some n'"
  by (induction p n rule: rm_all.induct) (auto split: option.splits)

lemma map_of_filter_other: "y \<noteq> x \<Longrightarrow> map_of (filter (\<lambda>e. fst e \<noteq> x) es) y = map_of es y"
  by (induction es) auto

lemma lookup_rm_all_other:
  "rm_all p n = Some n' \<Longrightarrow> take (length p) q \<noteq> p \<Longrightarrow>
   lookup_node n' q = Some (File b) \<longleftrightarrow> lookup_node n q = Some (File b)"
proof (induction p n arbitrary: n' q rule: rm_all.induct)
  case (3 x es)
  then show ?case by (cases q) (auto simp: map_of_filter_other)
next
  case (4 x y xs es)
  then show ?case by (cases q) (auto split: option.splits if_splits)
qed auto

lemma RemoveAll_files:
  assumes "RemoveAll p w = (Ret (), w')" and "p \<noteq> []"
  shows "\<forall>q. lookup_node (disk w') (path_comps p @ q) = None"
    and "\<forall>f. take (length (path_comps p)) (path_comps f) \<noteq> path_comps p \<longrightarrow> ReadFile f w' = ReadFile f w"
proof -
  from assms obtain n where n: "rm_all (path_comps p) (disk w) = Some n" "w' = w\<lparr>disk := n\<rparr>"
    by (auto simp: RemoveAll_def split: option.splits)
  show "\<forall>q. lookup_node (disk w') (path_comps p @ q) = None"
    using lookup_below_None[OF lookup_rm_all[OF n(1)]] n(2) by simp
  show "\<forall>f. take (length (path_comps p)) (path_comps f) \<noteq> path_comps p \<longrightarrow> ReadFile f w' = ReadFile f w"
  proof (intro allI impI)
    fix f assume f: "take (length (path_comps p)) (path_comps f) \<noteq> path_comps p"
    have "ReadFile f w' = Some b \<longleftrightarrow> ReadFile f w = Some b" for b
      using lookup_rm_all_other[OF n(1) f] by (simp add: ReadFile_eq_Some n(2))
    then show "ReadFile f w' = ReadFile f w" by (metis not_None_eq)
  qed
qed

text \<open>
  C31. Uninstalling a synchronised application that was delivered from manifests returns, removes the application's
  whole storage directory and no file outside it, and, once the deletion goroutines it started have run in whatever
  order, no object of the namespace that is labelled as the application's is left, of any kind discovery lists; every
  other object is as it was.
\<close>

theorem Uninstall_leaves_nothing:
  assumes "cluster_reads X view" and "cluster_writes X view" and "discovery X groups kinds"
    and "accepts_label X (rp_appName p)" and "accepts_label X (x_hash_string X (a_CurrentRevision a))"
    and "\<not> IsZero (a_CurrentRevision a)" and "a_deliveryProvider a = Raw p" and "\<not> rp_mutex p"
    and "\<forall>x\<in>set hs. plain_comp x" and "hs \<noteq> []" and "plain_comp (a_Name a)"
    and "a_storagePath a = storage_path (abs_path hs) (a_Name a)"
    and "lookup_node (disk w) (path_comps (a_storagePath a)) \<noteq> None"
  shows "\<exists>w' ts. Uninstall X (a, w) = (Ret (), (a, w')) \<and> spawned w' = spawned w @ ts \<and>
    (\<forall>q. lookup_node (disk w') (path_comps (a_storagePath a) @ q) = None) \<and>
    (\<forall>f. take (length (path_comps (a_storagePath a))) (path_comps f) \<noteq> path_comps (a_storagePath a) \<longrightarrow>
       ReadFile f w' = ReadFile f w) \<and>
    (\<forall>ts' v. mset ts' = mset ts \<longrightarrow> (\<exists>v'. for_each (run_clean_task X) ts' v = (Ret (), v') \<and>
       (\<forall>k. view v' k =
          (if fst k \<in> discovered groups kinds \<and> fst (snd k) = rp_namespace p \<and>
              map_option (\<lambda>m. m_labels m app_label) (view v k) = Some (Some (rp_appName p))
           then None else view v k))))"
proof -
  define q where "q = p\<lparr>rp_mutex := True\<rparr>"
  have q: "rp_mutex q" "rp_appName q = rp_appName p" "rp_namespace q = rp_namespace p" "q\<lparr>rp_mutex := False\<rparr> = p"
    using assms(8) by (simp_all add: q_def)
  from cleanResources_spawns[OF assms(3) _ assms(5,6) q(1), of True w] assms(4) q obtain ts where ts:
    "cleanResources X True (a_CurrentRevision a) (q, w) = (Ret (), (p, w\<lparr>spawned := spawned w @ ts\<rparr>))"
    "ct_gvr ` set ts = discovered groups kinds"
    "\<forall>t\<in>set ts. ct_namespace t = rp_namespace p \<and>
       ct_selector t = stale_selector True (rp_appName p) (x_hash_string X (a_CurrentRevision a))" by auto
  let ?w = "w\<lparr>spawned := spawned w @ ts\<rparr>"
  have "raw_Uninstall X (a_CurrentRevision a) (p, w) = (Ret (), (p, ?w))"
    using ts(1) assms(8) by (simp add: raw_Uninstall_def raw_lock_def q_def)
  then have u: "app_provider_Uninstall X (a, w) = (Ret (), (a, ?w))"
    using assms(7) by (simp add: app_provider_Uninstall_def app_call_def provider_Uninstall_def on_raw_def)
  have ne: "path_comps (a_storagePath a) \<noteq> []" "a_storagePath a \<noteq> []"
    using storage_paths_separate[OF assms(9-11,11)] storage_path_abs[OF assms(9-11)]
    by (simp_all add: assms(12) abs_path_def)
  from assms(13) obtain m where "lookup_node (disk w) (path_comps (a_storagePath a)) = Some m" by blast
  from rm_all_present[OF this ne(1)] obtain n where n: "rm_all (path_comps (a_storagePath a)) (disk w) = Some n" by blast
  then have rm: "RemoveAll (a_storagePath a) w = (Ret (), w\<lparr>disk := n\<rparr>)"
    and rm': "RemoveAll (a_storagePath a) ?w = (Ret (), ?w\<lparr>disk := n\<rparr>)" using ne(2) by (simp_all add: RemoveAll_def)
  have run: "Uninstall X (a, w) = (Ret (), (a, ?w\<lparr>disk := n\<rparr>))"
    using u rm' by (simp add: Uninstall_def)
  have files: "\<forall>q. lookup_node (disk (?w\<lparr>disk := n\<rparr>)) (path_comps (a_storagePath a) @ q) = None"
    "\<forall>f. take (length (path_comps (a_storagePath a))) (path_comps f) \<noteq> path_comps (a_storagePath a) \<longrightarrow>
       ReadFile f (?w\<lparr>disk := n\<rparr>) = ReadFile f w"
    using RemoveAll_files[OF rm ne(2)] by (simp_all add: ReadFile_def)
  have objs: "\<forall>ts' v. mset ts' = mset ts \<longrightarrow> (\<exists>v'. for_each (run_clean_task X) ts' v = (Ret (), v') \<and>
       (\<forall>k. view v' k =
          (if fst k \<in> discovered groups kinds \<and> fst (snd k) = rp_namespace p \<and>
              map_option (\<lambda>m. m_labels m app_label) (view v k) = Some (Some (rp_appName p))
           then None else view v k)))"
    using stale_tasks_run[OF assms(1,2) ts(2,3)] by (fastforce simp: stale_all)
  show ?thesis
    by (intro exI[of _ "?w\<lparr>disk := n\<rparr>"] exI[of _ ts] conjI run files objs) simp
qed

definition drifted_world :: sample_world where
  "drifted_world = world0\<lparr>disk := Dir [(''root'', Dir [(''.dummycd'', Dir [(''storage'',
     Dir [(''a'', Dir [(''x'', File [])]), (''b'', File ''b'')])])])]\<rparr>"

theorem Uninstall_leaves_nothing_witness:
  "\<exists>w' ts v. Uninstall sample (drifted_app, drifted_world) = (Ret (), (drifted_app, w')) \<and>
     spawned w' = spawned drifted_world @ ts \<and>
     lookup_node (disk w') [''root'', ''.dummycd'', ''storage'', ''a'', ''x''] = None \<and>
     ReadFile ''/root/.dummycd/storage/b'' w' = Some ''b'' \<and>
     for_each (run_clean_task sample) (rev ts) drifted_world = (Ret (), v) \<and>
     s_view drifted_world (cm_gvr, ''default'', ''old'') \<noteq> None \<and> s_view v (cm_gvr, ''default'', ''old'') = None"
proof -
  let ?old = "(cm_gvr, ''default'', ''old'') :: obj_key"
  have m: "\<not> rp_mutex raw1" by (simp add: raw1_def raw0_def)
  have nz: "\<not> IsZero (a_CurrentRevision drifted_app)" using two_nonzero by simp
  have pc: "path_comps (storage_path (abs_path [''root'']) ''a'') = [''root'', ''.dummycd'', ''storage'', ''a'']"
    "path_comps ''/root/.dummycd/storage/b'' = [''root'', ''.dummycd'', ''storage'', ''b'']" by code_simp+
  have hs: "\<forall>x\<in>set [''root'']. plain_comp x" "plain_comp (a_Name drifted_app)" by (simp_all add: plain_comp_def)
  have dir: "lookup_node (disk drifted_world) (path_comps (a_storagePath drifted_app)) \<noteq> None"
    by (simp add: pc drifted_world_def)
  have st: "a_storagePath drifted_app = storage_path (abs_path [''root'']) (a_Name drifted_app)" by simp
  have old: "map_option (\<lambda>m. m_labels m app_label) (s_view drifted_world ?old) = Some (Some (rp_appName raw1))"
    "fst ?old \<in> discovered sample_groups sample_kinds" "fst (snd ?old) = rp_namespace raw1"
    using sample_discovered
    by (simp_all add: cm_gvr_def raw1_def raw0_def s_view_def drifted_world_def world0_def ext0_def cm_def)
  have b: "ReadFile ''/root/.dummycd/storage/b'' drifted_world = Some ''b''"
    by (simp add: ReadFile_def pc drifted_world_def)
  from Uninstall_leaves_nothing[OF sample_reads sample_writes sample_discovery sample_accepts sample_accepts nz
      drifted_app_sel(2) m hs(1) _ hs(2) st dir]
  show ?thesis
  proof (elim exE conjE meta_impE, goal_cases)
    case (2 w' ts)
    have "mset (rev ts) = mset ts" by simp
    from 2(5)[THEN spec, THEN spec, THEN mp, OF this, of drifted_world] obtain v where
      v: "for_each (run_clean_task sample) (rev ts) drifted_world = (Ret (), v)" "s_view v ?old = None"
      using old by auto
    moreover have "lookup_node (disk w') [''root'', ''.dummycd'', ''storage'', ''a'', ''x''] = None"
      using 2(3)[THEN spec, of "[''x'']"] by (simp add: pc)
    moreover have "ReadFile ''/root/.dummycd/storage/b'' w' = Some ''b''"
      using 2(4) b by (simp add: pc)
    moreover have "s_view drifted_world ?old \<noteq> None" using old(1) by auto
    ultimately show ?case using 2(1,2) by blast
  qed simp
qed

end
