(* ===== verification/Ticker.thy ===== *)
theory Ticker
  imports Server
begin

section \<open>The ticker loop and the goroutines of the server process\<close>

text \<open>
  \<^verbatim>\<open>Handle\<close> of \<^verbatim>\<open>server/pkg/instance/handler.go\<close> runs beside the RPCs: at a tick it goes over the
  repositories and applications, starts a goroutine for every application whose mutex it gets, and
  waits for them. Here the loop makes one step per mutex it tries, a goroutine one step for the life
  cycle and one for each of its two deferred calls, and an RPC, a provider's cleanup or a deletion
  goroutine is one step; \<open>act\<close> is the step of one actor, and \<open>running\<close> holds of every state some
  interleaving of the actors reaches. A step that would wait for a mutex or for the \<^verbatim>\<open>WaitGroup\<close> is
  not enabled (\<open>None\<close>). A panic of any goroutine ends the process.

  A goroutine holds a pointer to its application, here the URL of the repository and the name of the
  application: it holds the application's mutex, without which no RPC replaces or removes the
  application, so these find it again. The channel \<^verbatim>\<open>done\<close> is never sent to.
\<close>

datatype loop_pc = Idle | AtRepo nat | AtApp nat nat | AtWait

datatype go_phase = Started | Returned | Counted

type_synonym app_key = "string \<times> string"

record goroutine =
  go_app :: app_key
  go_phase :: go_phase

text \<open>
  \<open>k_orphans\<close> holds the cleanup goroutines of providers the store no longer has: a successful update of an application
  replaces it without waiting for the cleanup its provider has started, which goes on with the old provider and
  the revision of the old application.

  Two fields record what has happened: \<open>k_busy\<close> counts the applications the loop has found busy, which
  the code logs, and \<open>k_started\<close> lists the applications for which it has started a goroutine.
\<close>

record 'e process =
  k_server :: server
  k_world :: "'e world"
  k_loop :: loop_pc
  k_wg :: int
  k_gos :: "goroutine list"
  k_orphans :: "(hash \<times> raw_provider) list"
  k_busy :: nat
  k_started :: "app_key list"
  k_crash :: "panic option"

abbreviation k_handler :: "'e process \<Rightarrow> handler" where
  "k_handler k \<equiv> sv_Handler (k_server k)"

definition set_handler :: "handler \<Rightarrow> 'e process \<Rightarrow> 'e process" where
  "set_handler h k = k\<lparr>k_server := (k_server k)\<lparr>sv_Handler := h\<rparr>\<rparr>"

definition crash :: "panic \<Rightarrow> 'e process \<Rightarrow> 'e process" where
  "crash q k = k\<lparr>k_crash := Some q\<rparr>"

text \<open>\<^verbatim>\<open>wg.Add(delta)\<close>; \<^verbatim>\<open>wg.Done()\<close> is \<^verbatim>\<open>wg.Add(-1)\<close>.\<close>

definition wg_Add :: "int \<Rightarrow> 'e process \<Rightarrow> 'e process" where
  "wg_Add delta k =
     (let k' = k\<lparr>k_wg := k_wg k + delta\<rparr> in if k_wg k' < 0 then crash NegativeWaitGroup k' else k')"

subsection \<open>The loop\<close>

definition set_repo_mutex :: "nat \<Rightarrow> mutex \<Rightarrow> handler \<Rightarrow> handler" where
  "set_repo_mutex i m h = h\<lparr>h_Repos := (h_Repos h)[i := (h_Repos h ! i)\<lparr>rc_Mutex := m\<rparr>]\<rparr>"

definition put_app :: "nat \<Rightarrow> nat \<Rightarrow> application \<Rightarrow> handler \<Rightarrow> handler" where
  "put_app i j a h =
     h\<lparr>h_Repos := (h_Repos h)[i := (h_Repos h ! i)\<lparr>rc_Apps := (rc_Apps (h_Repos h ! i))[j := Some a]\<rparr>]\<rparr>"

text \<open>A tick arrives; nothing happens where the handler is busy.\<close>

definition start_tick :: "'e process \<Rightarrow> 'e process" where
  "start_tick k =
     (case TryLock (h_Mutex (k_handler k)) of
        (True, m) \<Rightarrow> (set_handler ((k_handler k)\<lparr>h_Mutex := m\<rparr>) k)\<lparr>k_loop := AtRepo 0\<rparr>
      | (False, m) \<Rightarrow> k)"

definition visit_repo :: "nat \<Rightarrow> 'e process \<Rightarrow> 'e process" where
  "visit_repo i k =
     (let repos = h_Repos (k_handler k) in
      if i < length repos then
        (case TryLock (rc_Mutex (repos ! i)) of
           (True, m) \<Rightarrow> (set_handler (set_repo_mutex i m (k_handler k)) k)\<lparr>k_loop := AtApp i 0\<rparr>
         | (False, m) \<Rightarrow> k\<lparr>k_loop := AtRepo (Suc i)\<rparr>)
      else k\<lparr>k_loop := AtWait\<rparr>)"

text \<open>
  The body of the inner loop. The goroutine is started after \<^verbatim>\<open>wg.Add(1)\<close>; for a busy application the
  code calls \<^verbatim>\<open>wg.Done()\<close>. After the last application the repository is unlocked.
\<close>

definition visit_app :: "nat \<Rightarrow> nat \<Rightarrow> 'e process \<Rightarrow> 'e process" where
  "visit_app i j k =
     (let h = k_handler k; r = h_Repos h ! i in
      if j < length (rc_Apps r) then
        (case rc_Apps r ! j of
           None \<Rightarrow> crash NilDereference k
         | Some a \<Rightarrow>
             (case TryLock (a_mutex a) of
                (True, m) \<Rightarrow>
                  (let k' = wg_Add 1 (set_handler (put_app i j (a\<lparr>a_mutex := m\<rparr>) h) k) in
                   k'\<lparr>k_gos := k_gos k' @ [\<lparr>go_app = (repo_url r, a_Name a), go_phase = Started\<rparr>],
                      k_started := k_started k' @ [(repo_url r, a_Name a)],
                      k_loop := AtApp i (Suc j)\<rparr>)
              | (False, m) \<Rightarrow>
                  wg_Add (- 1) (k\<lparr>k_busy := Suc (k_busy k), k_loop := AtApp i (Suc j)\<rparr>)))
      else
        (case Unlock (rc_Mutex r) of
           (Ret _, m) \<Rightarrow> (set_handler (set_repo_mutex i m h) k)\<lparr>k_loop := AtRepo (Suc i)\<rparr>
         | (_, m) \<Rightarrow> crash UnlockOfUnlockedMutex k))"

definition end_tick :: "'e process \<Rightarrow> 'e process" where
  "end_tick k =
     (case Unlock (h_Mutex (k_handler k)) of
        (Ret _, m) \<Rightarrow> (set_handler ((k_handler k)\<lparr>h_Mutex := m\<rparr>) k)\<lparr>k_loop := Idle\<rparr>
      | (_, m) \<Rightarrow> crash UnlockOfUnlockedMutex k)"

definition Handle_step :: "'e process \<Rightarrow> 'e process option" where
  "Handle_step k =
     (case k_loop k of
        Idle \<Rightarrow> Some (start_tick k)
      | AtRepo i \<Rightarrow> Some (visit_repo i k)
      | AtApp i j \<Rightarrow> Some (visit_app i j k)
      | AtWait \<Rightarrow> if k_wg k = 0 then Some (end_tick k) else None)"

subsection \<open>The application goroutines\<close>

definition has_name :: "string \<Rightarrow> application option \<Rightarrow> bool" where
  "has_name n slot \<longleftrightarrow> (case slot of None \<Rightarrow> False | Some a \<Rightarrow> a_Name a = n)"

text \<open>Where the application of a key is.\<close>

definition locate :: "handler \<Rightarrow> app_key \<Rightarrow> (nat \<times> nat) option" where
  "locate h key =
     (case GetRepositoryConfig h (fst key) of
        None \<Rightarrow> None
      | Some i \<Rightarrow> map_option (Pair i) (first_index (has_name (snd key)) (rc_Apps (h_Repos h ! i))))"

definition app_at :: "handler \<Rightarrow> nat \<times> nat \<Rightarrow> application" where
  "app_at h ij = the (rc_Apps (h_Repos h ! fst ij) ! snd ij)"

text \<open>Run a method of the application of a key; its error is logged, its panic ends the process.\<close>

definition on_app ::
    "(application \<times> 'e world, unit) comp \<Rightarrow> app_key \<Rightarrow> 'e process \<Rightarrow> 'e process option" where
  "on_app m key k =
     (case locate (k_handler k) key of
        None \<Rightarrow> None
      | Some (i, j) \<Rightarrow>
          (case m (app_at (k_handler k) (i, j), k_world k) of
             (Panic q, (a, w)) \<Rightarrow> Some (crash q k)
           | (Spin, (a, w)) \<Rightarrow> None
           | (_, (a, w)) \<Rightarrow> Some ((set_handler (put_app i j a (k_handler k)) k)\<lparr>k_world := w\<rparr>)))"

definition unlock_app :: "(application \<times> 'w, unit) comp" where
  "unlock_app s =
     (case Unlock (a_mutex (fst s)) of (r, m) \<Rightarrow> (r, ((fst s)\<lparr>a_mutex := m\<rparr>, snd s)))"

text \<open>
  The closure of \<^verbatim>\<open>Handle\<close>. Deferred calls run last in, first out: \<^verbatim>\<open>wg.Done()\<close>, then the unlocking.
\<close>

definition go_step :: "'e externals \<Rightarrow> nat \<Rightarrow> 'e process \<Rightarrow> 'e process option" where
  "go_step X n k =
     (if n < length (k_gos k) then
        (let g = k_gos k ! n in
         case go_phase g of
           Started \<Rightarrow>
             map_option (\<lambda>k'. k'\<lparr>k_gos := (k_gos k')[n := g\<lparr>go_phase := Returned\<rparr>]\<rparr>)
               (on_app (RunLifeCycle X) (go_app g) k)
         | Returned \<Rightarrow> Some (wg_Add (- 1) (k\<lparr>k_gos := (k_gos k)[n := g\<lparr>go_phase := Counted\<rparr>]\<rparr>))
         | Counted \<Rightarrow>
             map_option (\<lambda>k'. k'\<lparr>k_gos := take n (k_gos k') @ drop (Suc n) (k_gos k')\<rparr>)
               (on_app unlock_app (go_app g) k))
      else None)"

subsection \<open>The other actors\<close>

text \<open>The cleanup goroutines of the store's raw providers, each with the revision it is to keep.\<close>

definition outstanding :: "handler \<Rightarrow> (hash \<times> raw_provider) list" where
  "outstanding h = concat (map (\<lambda>r. concat (map (\<lambda>slot.
     (case slot of
        None \<Rightarrow> []
      | Some a \<Rightarrow>
          (case a_deliveryProvider a of
             Helm hp \<Rightarrow> []
           | Raw p \<Rightarrow> replicate (rp_cleanups p) (a_CurrentRevision a, p)))) (rc_Apps r))) (h_Repos h))"

text \<open>An RPC starts no cleanup: those of before that the store has no longer are left over.\<close>

definition rpc_step :: "'e externals \<Rightarrow> app_cmp \<Rightarrow> rpc_request \<Rightarrow> 'e process \<Rightarrow> 'e process option" where
  "rpc_step X cmp_equal q k =
     (case serve X cmp_equal q (k_server k, k_world k) of
        (Panic p, (s, w)) \<Rightarrow> Some (crash p k)
      | (Spin, (s, w)) \<Rightarrow> None
      | (_, (s, w)) \<Rightarrow>
          Some (k\<lparr>k_server := s, k_world := w,
            k_orphans := k_orphans k @ fold remove1 (outstanding (sv_Handler s)) (outstanding (k_handler k))\<rparr>))"

text \<open>The cleanup goroutine of an application's raw provider, if it has one.\<close>

definition provider_cleanup :: "'e externals \<Rightarrow> (application \<times> 'e world, unit) comp" where
  "provider_cleanup X s =
     (case a_deliveryProvider (fst s) of
        Helm hp \<Rightarrow> spinc s
      | Raw p \<Rightarrow>
          if rp_cleanups p = 0 then spinc s
          else
            (case cleanup_goroutine X (a_CurrentRevision (fst s)) (p, snd s) of
               (r, (p', w)) \<Rightarrow> (r, ((fst s)\<lparr>a_deliveryProvider := Raw p'\<rparr>, w))))"

definition orphan_step :: "'e externals \<Rightarrow> nat \<Rightarrow> 'e process \<Rightarrow> 'e process option" where
  "orphan_step X n k =
     (if n < length (k_orphans k) then
        (case k_orphans k ! n of (revision, p) \<Rightarrow>
           (case cleanup_goroutine X revision (p, k_world k) of
              (Panic q, (p', w)) \<Rightarrow> Some (crash q k)
            | (Spin, (p', w)) \<Rightarrow> None
            | (_, (p', w)) \<Rightarrow>
                Some (k\<lparr>k_world := w, k_orphans := take n (k_orphans k) @ drop (Suc n) (k_orphans k)\<rparr>)))
      else None)"

definition deletion_step :: "'e externals \<Rightarrow> nat \<Rightarrow> 'e process \<Rightarrow> 'e process option" where
  "deletion_step X n k =
     (let ts = spawned (k_world k) in
      if n < length ts then
        (case run_clean_task X (ts ! n) ((k_world k)\<lparr>spawned := take n ts @ drop (Suc n) ts\<rparr>) of
           (Panic p, w) \<Rightarrow> Some (crash p k)
         | (Spin, w) \<Rightarrow> None
         | (_, w) \<Rightarrow> Some (k\<lparr>k_world := w\<rparr>))
      else None)"

datatype actor =
    TheLoop
  | Goroutine nat
  | Rpc rpc_request
  | Cleanup app_key
  | Orphan nat
  | Deletion nat

fun act :: "'e externals \<Rightarrow> app_cmp \<Rightarrow> actor \<Rightarrow> 'e process \<Rightarrow> 'e process option" where
  "act X cmp_equal TheLoop k = Handle_step k"
| "act X cmp_equal (Goroutine n) k = go_step X n k"
| "act X cmp_equal (Rpc q) k = rpc_step X cmp_equal q k"
| "act X cmp_equal (Cleanup key) k = on_app (provider_cleanup X) key k"
| "act X cmp_equal (Orphan n) k = orphan_step X n k"
| "act X cmp_equal (Deletion n) k = deletion_step X n k"

subsection \<open>Runs\<close>

text \<open>The process as \<^verbatim>\<open>main\<close> leaves it when it has started the loop.\<close>

definition started :: "server \<Rightarrow> 'e world \<Rightarrow> 'e process" where
  "started s w = \<lparr>k_server = s, k_world = w, k_loop = Idle, k_wg = 0, k_gos = [], k_orphans = [],
     k_busy = 0, k_started = [], k_crash = None\<rparr>"

inductive running :: "'e externals \<Rightarrow> app_cmp \<Rightarrow> 'e process \<Rightarrow> 'e process \<Rightarrow> bool" for X cmp_equal k0 where
  start: "running X cmp_equal k0 k0"
| step: "running X cmp_equal k0 k \<Longrightarrow> k_crash k = None \<Longrightarrow> act X cmp_equal actor k = Some k' \<Longrightarrow>
    running X cmp_equal k0 k'"

text \<open>A schedule: the actors in the order in which they step.\<close>

fun schedule :: "'e externals \<Rightarrow> app_cmp \<Rightarrow> actor list \<Rightarrow> 'e process \<Rightarrow> 'e process option" where
  "schedule X cmp_equal [] k = Some k"
| "schedule X cmp_equal (actor # actors) k =
     (if k_crash k = None then
        (case act X cmp_equal actor k of None \<Rightarrow> None | Some k' \<Rightarrow> schedule X cmp_equal actors k')
      else None)"

end
