(* ===== verification/TickerProofs.thy ===== *)
theory TickerProofs
  imports Ticker ServerProofs
begin

section \<open>Locks and the store under interleaving\<close>

text \<open>
  What the RPCs do to the locks the loop and its goroutines hold: nothing. From this the invariant of
  the process follows, actor by actor.
\<close>

subsection \<open>Locked applications\<close>

definition locked_names :: "application option list \<Rightarrow> string set" where
  "locked_names slots = {a_Name a |a. Some a \<in> set slots \<and> a_mutex a}"

definition locked_keys :: "handler \<Rightarrow> app_key set" where
  "locked_keys h = (\<Union>r\<in>set (h_Repos h). Pair (repo_url r) ` locked_names (rc_Apps r))"

definition free_slot :: "application option \<Rightarrow> bool" where
  "free_slot slot \<longleftrightarrow> (\<forall>a. slot = Some a \<longrightarrow> \<not> a_mutex a)"

lemma locked_names_free: "\<forall>slot\<in>set slots. free_slot slot \<Longrightarrow> locked_names slots = {}"
  by (auto simp: locked_names_def free_slot_def)

lemma locked_names_simps [simp]:
  "locked_names [] = {}"
  "free_slot slot \<Longrightarrow> locked_names (slot # slots) = locked_names slots"
  "locked_names (xs @ ys) = locked_names xs \<union> locked_names ys"
  by (auto simp: locked_names_def free_slot_def)

lemma locked_names_split:
  "i < length slots \<Longrightarrow>
     locked_names slots = locked_names (take i slots) \<union> locked_names [slots ! i] \<union> locked_names (drop (Suc i) slots)"
  by (metis (no_types) Cons_eq_appendI append_Nil id_take_nth_drop locked_names_simps(3) sup_assoc)

lemma locked_names_update:
  "i < length slots \<Longrightarrow>
     locked_names (slots[i := x]) = locked_names (take i slots) \<union> locked_names [x] \<union> locked_names (drop (Suc i) slots)"
  by (metis (no_types) Cons_eq_appendI append_Nil upd_conv_take_nth_drop locked_names_simps(3) sup_assoc)

lemma locked_names_update_free:
  "i < length slots \<Longrightarrow> free_slot (slots ! i) \<Longrightarrow> free_slot x \<Longrightarrow> locked_names (slots[i := x]) = locked_names slots"
  by (simp add: locked_names_split[of i slots] locked_names_update)

lemma swap_remove_update: "swap_remove (xs[i := x]) i = swap_remove xs i"
proof (cases "i < length xs - 1")
  case True
  then show ?thesis by (simp add: swap_remove_def)
next
  case False
  then show ?thesis
    by (simp add: swap_remove_def)
qed

lemma locked_names_swap_remove:
  assumes "i < length slots" and "free_slot (slots ! i)"
  shows "locked_names (swap_remove slots i) = locked_names slots"
proof -
  have "set slots = insert (slots ! i) (set (swap_remove slots i))" by (rule set_swap_remove[OF assms(1)])
  with assms(2) show ?thesis by (auto simp: locked_names_def free_slot_def)
qed

subsection \<open>Operations of a repository\<close>

text \<open>An operation that returns keeps the URL and the locked applications, and needs the mutex to change anything.\<close>

definition repo_frame :: "repo_config \<Rightarrow> repo_config \<Rightarrow> bool" where
  "repo_frame r r' \<longleftrightarrow>
     repo_url r' = repo_url r \<and> locked_names (rc_Apps r') = locked_names (rc_Apps r) \<and> (rc_Mutex r \<longrightarrow> r' = r)"

lemma repo_frame_refl [simp]: "repo_frame r r"
  by (simp add: repo_frame_def)

lemma repo_url_updates [simp]:
  "repo_url (r\<lparr>rc_Apps := slots\<rparr>) = repo_url r" "repo_url (r\<lparr>rc_Mutex := m\<rparr>) = repo_url r"
  by (simp_all add: repo_url_def)

lemma replace_app_frame:
  assumes m: "replace_app X K i app (r, w) = (res, (r', w'))" "returns res" and i: "i < length (rc_Apps r)"
  shows "repo_url r' = repo_url r \<and> locked_names (rc_Apps r') = locked_names (rc_Apps r)"
proof -
  obtain res1 s1 where l: "lock_app i (r, w) = (res1, s1)" by (metis prod.exhaust)
  show ?thesis
  proof (cases res1)
    case (Ret old)
    with l obtain b where b: "rc_Apps r ! i = Some b" "\<not> a_mutex b" "old = b\<lparr>a_mutex := True\<rparr>"
      "s1 = (r\<lparr>rc_Apps := (rc_Apps r)[i := Some old]\<rparr>, w)"
      by (metis lock_app_Ret)
    have fr: "free_slot (rc_Apps r ! i)" using b by (simp add: free_slot_def)
    have new: "locked_names ((rc_Apps r)[i := Some n]) = locked_names (rc_Apps r)"
      if "NewApplication X K app v = (Ret n, v')" for n v v'
      using locked_names_update_free[OF i fr] NewApplication_fields(4)[OF that] by (simp add: free_slot_def)
    have clr: "locked_names ((rc_Apps r)[i := None]) = locked_names (rc_Apps r)"
      "locked_names ((rc_Apps r)[i := Some (old\<lparr>a_mutex := False\<rparr>)]) = locked_names (rc_Apps r)"
      using locked_names_update_free[OF i fr] by (simp_all add: free_slot_def)
    show ?thesis
      using m l Ret clr unfolding replace_app_def rebuild_app_def Let_def b(4)
      by (auto simp: new split: prod.splits res.splits)
  qed (use m l lock_app_not_Fail[of i "(r, w)"] in \<open>auto simp: replace_app_def rebuild_app_def Let_def\<close>)
qed

lemma AddOrUpdateApplication_new:
  assumes "find_app_first (a_Name app) (rc_Apps r) 0 = Ret None" and "NewApplication X K app w = (Ret a, v)"
  shows "AddOrUpdateApplication X K cmp_equal app (r, w) =
    (if rc_Mutex r then (Spin, (r\<lparr>rc_Mutex := True\<rparr>, v))
     else (Ret (), (r\<lparr>rc_Mutex := False, rc_Apps := rc_Apps r @ [Some a]\<rparr>, v)))"
  using assms
  by (simp add: AddOrUpdateApplication_def pure_res_def andthen_def lock_repo_def defer_unlock_repo_def)

lemma AddOrUpdateApplication_frame:
  assumes m: "AddOrUpdateApplication X K cmp_equal app (r, w) = (res, (r', w'))" "returns res"
  shows "repo_frame r r'"
proof -
  obtain found where f: "find_app_first (a_Name app) (rc_Apps r) 0 = found" by blast
  show ?thesis
  proof (cases found)
    case (Ret slot)
    show ?thesis
    proof (cases slot)
      case None
      obtain n v where n: "NewApplication X K app w = (n, v)" by (metis prod.exhaust)
      show ?thesis
      proof (cases n)
        case (Ret a)
        have e: "locked_names [Some a] = {}"
          using NewApplication_fields(4)[OF n[unfolded Ret]] by (simp add: free_slot_def)
        note c = AddOrUpdateApplication_new[OF f[unfolded \<open>found = Ret slot\<close> None] n[unfolded Ret], of cmp_equal]
        have "\<not> rc_Mutex r" "r' = r\<lparr>rc_Mutex := False, rc_Apps := rc_Apps r @ [Some a]\<rparr>"
          using m unfolding c by (simp_all split: if_splits)
        with e show ?thesis by (simp add: repo_frame_def)
      qed (use m f \<open>found = Ret slot\<close> None n in
          \<open>auto simp: AddOrUpdateApplication_def pure_res_def andthen_def\<close>)
    next
      case (Some i)
      from find_app_first_Some[OF f[unfolded Ret Some]] have i: "i < length (rc_Apps r)" by auto
      obtain res1 r1 w1 where p: "replace_app X K i app (r\<lparr>rc_Mutex := True\<rparr>, w) = (res1, (r1, w1))"
        by (metis prod.exhaust)
      have fr: "returns res1 \<Longrightarrow> repo_url r1 = repo_url r \<and> locked_names (rc_Apps r1) = locked_names (rc_Apps r)"
        using replace_app_frame[OF p] i by simp
      show ?thesis
      proof (cases "cmp_equal (app_spec.truncate (the (rc_Apps r ! i))) app")
        case True
        with m f Ret Some show ?thesis by (simp add: AddOrUpdateApplication_def pure_res_def andthen_def)
      next
        case False
        with m f Ret Some have "andthen (on_obj lock_repo) (\<lambda>_. defer_unlock_repo (replace_app X K i app)) (r, w) = (res, (r', w'))"
          by (simp add: AddOrUpdateApplication_def pure_res_def)
        with m(2) p have "\<not> rc_Mutex r \<and> returns res1 \<and> r' = r1\<lparr>rc_Mutex := False\<rparr>"
          by (cases "rc_Mutex r"; cases res1) (auto simp: lock_repo_def defer_unlock_repo_def andthen_def)
        with fr show ?thesis by (simp add: repo_frame_def)
      qed
    qed
  qed (use m f in \<open>auto simp: AddOrUpdateApplication_def pure_res_def andthen_def\<close>)
qed

lemma DeleteApplication_found:
  assumes "find_app_last name (rc_Apps r) 0 None = Ret (Some i)" and "rc_Apps r ! i = Some a"
    and m: "DeleteApplication X name (r, w) = (res, (r', w'))" "returns res"
  shows "\<not> rc_Mutex r \<and> \<not> a_mutex a \<and> rc_Apps r' = swap_remove ((rc_Apps r)[i := Some (a\<lparr>a_mutex := True\<rparr>)]) i \<and>
    repo_url r' = repo_url r"
proof -
  obtain r1 w1 where u: "uninstall_logged X (a\<lparr>a_mutex := True\<rparr>) w = (r1, w1)" by (metis prod.exhaust)
  moreover have "r1 \<noteq> Fail e" for e
    using u by (auto simp: uninstall_logged_def andthen_eq_Fail) (metis attempt_never_fails fst_conv)
  ultimately show ?thesis
    using m assms(1,2)
    by (cases "rc_Mutex r"; cases "a_mutex a"; cases r1)
      (auto simp: DeleteApplication_def pure_res_def andthen_def lock_repo_def defer_trylock_repo_def lock_app_def)
qed

lemma DeleteApplication_frame:
  assumes m: "DeleteApplication X name (r, w) = (res, (r', w'))" "returns res"
  shows "repo_frame r r'"
proof -
  obtain found where f: "find_app_last name (rc_Apps r) 0 None = found" by blast
  show ?thesis
  proof (cases found)
    case (Ret slot)
    show ?thesis
    proof (cases slot)
      case None
      then show ?thesis using m f Ret by (auto simp: DeleteApplication_def pure_res_def andthen_def)
    next
      case (Some i)
      from find_app_last_Some[OF f[unfolded Ret Some]] obtain a where
        a: "i < length (rc_Apps r)" "rc_Apps r ! i = Some a" by auto
      have "\<not> a_mutex a \<Longrightarrow> locked_names (swap_remove ((rc_Apps r)[i := Some (a\<lparr>a_mutex := True\<rparr>)]) i) =
          locked_names (rc_Apps r)"
        using locked_names_swap_remove[OF a(1)] a(2) by (simp add: swap_remove_update free_slot_def)
      moreover have "\<not> rc_Mutex r \<and> \<not> a_mutex a \<and> rc_Apps r' = swap_remove ((rc_Apps r)[i := Some (a\<lparr>a_mutex := True\<rparr>)]) i \<and>
          repo_url r' = repo_url r"
        using DeleteApplication_found[OF f[unfolded Ret Some] a(2) m] .
      ultimately show ?thesis by (simp add: repo_frame_def)
    qed
  qed (use m f in \<open>auto simp: DeleteApplication_def pure_res_def andthen_def\<close>)
qed

subsection \<open>Requests\<close>

text \<open>
  What a request that returns may change of the handler while the loop is under way: the data stays
  well formed, the locks stay as they are, and while the handler's mutex is locked the repositories stay
  in their places, those with a locked mutex entirely.
\<close>

definition handler_frame :: "handler \<Rightarrow> handler \<Rightarrow> bool" where
  "handler_frame h h' \<longleftrightarrow>
     handler_wf h' \<and> h_Mutex h' = h_Mutex h \<and> locked_keys h' = locked_keys h \<and>
     (h_Mutex h \<longrightarrow> length (h_Repos h') = length (h_Repos h) \<and>
        (\<forall>i<length (h_Repos h). repo_url (h_Repos h' ! i) = repo_url (h_Repos h ! i) \<and>
           (rc_Mutex (h_Repos h ! i) \<longrightarrow> h_Repos h' ! i = h_Repos h ! i)))"

lemma handler_frame_refl [simp]: "handler_frame h h = handler_wf h"
  by (simp add: handler_frame_def)

lemma locked_keys_split:
  "i < length (h_Repos h) \<Longrightarrow> locked_keys h =
     (\<Union>r\<in>set (take i (h_Repos h) @ drop (Suc i) (h_Repos h)). Pair (repo_url r) ` locked_names (rc_Apps r)) \<union>
     Pair (repo_url (h_Repos h ! i)) ` locked_names (rc_Apps (h_Repos h ! i))"
  unfolding locked_keys_def by (subst id_take_nth_drop[of i "h_Repos h"]) auto

lemma locked_keys_update:
  "i < length (h_Repos h) \<Longrightarrow> repo_frame (h_Repos h ! i) r \<Longrightarrow>
     locked_keys (h\<lparr>h_Repos := (h_Repos h)[i := r]\<rparr>) = locked_keys h"
  using locked_keys_split[of i "h\<lparr>h_Repos := (h_Repos h)[i := r]\<rparr>"] locked_keys_split[of i h]
  by (simp add: repo_frame_def)

lemma handler_frame_update:
  assumes "handler_wf h" and i: "i < length (h_Repos h)" and fr: "repo_frame (h_Repos h ! i) r"
    and "repo_at (repo_url (h_Repos h ! i)) r"
  shows "handler_frame h (h\<lparr>h_Repos := (h_Repos h)[i := r]\<rparr>)"
  using handler_wf_update[OF assms(1,2,4)] locked_keys_update[OF i fr] fr i
  by (auto simp: handler_frame_def repo_frame_def nth_list_update)

text \<open>An operation on the repository found under a URL.\<close>

lemma on_found_repo_frame:
  assumes "on_handler (on_repo i m) (s, w) = (r, (s', w'))" and "returns r" and "handler_wf (sv_Handler s)"
    and "GetRepositoryConfig (sv_Handler s) u = Some i"
    and "\<And>q v q' v'. m (q, v) = (r, (q', v')) \<Longrightarrow> repo_at u q \<Longrightarrow> repo_at u q' \<and> repo_frame q q'"
  shows "handler_frame (sv_Handler s) (sv_Handler s')"
proof -
  let ?h = "sv_Handler s"
  have i: "i < length (h_Repos ?h)" "repo_url (h_Repos ?h ! i) = u"
    using GetRepositoryConfig_Some[OF assms(4)] by simp_all
  obtain r1 q v where m: "m (h_Repos ?h ! i, w) = (r1, (q, v))" by (metis prod.exhaust)
  have s': "r1 = r" "sv_Handler s' = ?h\<lparr>h_Repos := (h_Repos ?h)[i := q]\<rparr>"
    using assms(1) m by (auto simp: on_handler_def on_repo_def)
  have "repo_at u (h_Repos ?h ! i)" using assms(3) i by (auto simp: handler_wf_def repo_at_def)
  from assms(5)[OF m[unfolded s'(1)] this] show ?thesis
    using handler_frame_update[OF assms(3) i(1)] i(2) s'(2) by simp
qed

lemma uninstall_goroutine_locked [simp]:
  "\<not> free_slot slot \<Longrightarrow> uninstall_goroutine X slot w = (Spin, w)"
  by (auto simp: uninstall_goroutine_def free_slot_def spin_lock_def TryLock_def)

lemma uninstall_goroutine_free:
  "uninstall_goroutine X slot w = (r, w') \<Longrightarrow> returns r \<Longrightarrow> free_slot slot"
  by (cases "free_slot slot") auto

lemma uninstall_goroutines_free:
  "for_each (uninstall_goroutine X) slots w = (r, w') \<Longrightarrow> returns r \<Longrightarrow> \<forall>slot\<in>set slots. free_slot slot \<or> (\<exists>e. r = Fail e)"
proof (induction slots arbitrary: w)
  case (Cons slot slots)
  obtain r1 w1 where u: "uninstall_goroutine X slot w = (r1, w1)" by (metis prod.exhaust)
  show ?case
  proof (cases r1)
    case (Ret x)
    with Cons u have "for_each (uninstall_goroutine X) slots w1 = (r, w')" by simp
    with Cons uninstall_goroutine_free[OF u] Ret show ?thesis by auto
  qed (use Cons u in auto)
qed simp

lemma uninstall_goroutine_not_Fail: "uninstall_goroutine X slot w \<noteq> (Fail e, w')"
proof
  assume u: "uninstall_goroutine X slot w = (Fail e, w')"
  then have "free_slot slot" using uninstall_goroutine_free[OF u] by simp
  with u show False
    by (cases slot)
      (auto simp: uninstall_goroutine_def free_slot_def spin_lock_def TryLock_def andthen_eq_Fail,
       metis attempt_never_fails fst_conv)
qed

lemma for_each_not_Fail: "(\<And>x s t. body x s \<noteq> (Fail e, t)) \<Longrightarrow> for_each body xs s \<noteq> (Fail e, t)"
  by (induction xs arbitrary: s) (auto simp: andthen_eq_Fail)

lemma DeleteRepository_frame:
  assumes "DeleteRepository X name (h, w) = (r, (h', w'))" and "returns r"
  shows "h_Mutex h' = h_Mutex h \<and> locked_keys h' = locked_keys h"
proof (cases "last_index (\<lambda>repo. rc_Name repo = name) (h_Repos h)")
  case None
  with assms show ?thesis by (simp add: DeleteRepository_def)
next
  case (Some i)
  then have i: "i < length (h_Repos h)" by (auto simp: last_index_Some)
  obtain r1 w1 where g: "for_each (uninstall_goroutine X) (rc_Apps (h_Repos h ! i)) w = (r1, w1)"
    by (metis prod.exhaust)
  have "r1 \<noteq> Fail e" for e
    using for_each_not_Fail[where body = "uninstall_goroutine X" and s = w and t = w1 and e = e,
        OF uninstall_goroutine_not_Fail] g by auto
  moreover have "\<not> rc_Mutex (h_Repos h ! i)" using assms Some by (auto simp: DeleteRepository_def)
  ultimately have d: "r1 = Ret () \<and> h' = h\<lparr>h_Repos := swap_remove (h_Repos h) i\<rparr>"
    using assms Some g by (cases r1) (auto simp: DeleteRepository_def)
  have "locked_names (rc_Apps (h_Repos h ! i)) = {}"
    using uninstall_goroutines_free[OF g] d by (simp add: locked_names_free)
  then have "locked_keys h' = locked_keys h"
    using d by (simp add: locked_keys_def set_swap_remove[OF i])
  with d show ?thesis by simp
qed

text \<open>An operation under the handler's mutex returns only where that was free.\<close>

lemma with_handler_lock_frame:
  assumes "with_handler_lock m (h, w) = (r, (h', w'))" and "returns r" and "handler_wf h"
    and "maintains handler_ok m"
    and "\<And>h1 v h2 v'. m (h1, v) = (r, (h2, v')) \<Longrightarrow> locked_keys h2 = locked_keys h1"
  shows "handler_frame h h'"
proof -
  have free: "\<not> h_Mutex h"
    using assms(1,2) by (cases "h_Mutex h") (auto simp: with_handler_lock_def lock_handler_def)
  obtain r1 h1 w1 where m: "m (h\<lparr>h_Mutex := True\<rparr>, w) = (r1, (h1, w1))" by (metis prod.exhaust)
  have r1: "r1 = r" "h' = h1\<lparr>h_Mutex := False\<rparr>"
    using assms(1,2) m free
    by (cases r1; auto simp: with_handler_lock_def lock_handler_def defer_unlock_handler_def)+
  have "handler_wf h1"
    using maintainsD[OF assms(4) m] assms(2,3) r1 by (simp add: handler_ok_def handler_wf_repos)
  moreover have "locked_keys h1 = locked_keys (h\<lparr>h_Mutex := True\<rparr>)" using assms(5) m r1 by blast
  ultimately show ?thesis
    using free r1 by (simp add: handler_frame_def handler_wf_repos locked_keys_def)
qed

lemma register_repository_locked:
  assumes "register_repository X K inm (h, w) = (r, (h', w'))"
  shows "locked_keys h' = locked_keys h"
proof -
  obtain r1 w1 where n: "NewRepositoryConfig X K (repository_GetName inm) (request_settings inm)
      (h_CurrentNamespace h) w = (r1, w1)" by (metis prod.exhaust)
  show ?thesis
  proof (cases r1)
    case (Ret core)
    have "AddRepository (new_repository core) h = (r, h')" if "r1 = Ret core"
      using assms n that by (auto simp: register_repository_def split: prod.splits)
    then have "h' = h \<or> h' = h\<lparr>h_Repos := h_Repos h @ [new_repository core]\<rparr>"
      using AddRepository_new[of "new_repository core" h] AddRepository_known[of "new_repository core" h] Ret
      by (cases "repo_url (new_repository core) \<in> repo_url ` set (h_Repos h)") auto
    then show ?thesis by (elim disjE) (simp_all add: locked_keys_def)
  qed (use assms n in \<open>auto simp: register_repository_def\<close>)
qed

lemma on_handler_frame:
  assumes "on_handler m (s, w) = (r, (s', w'))"
    and "\<And>h' v. m (sv_Handler s, w) = (r, (h', v)) \<Longrightarrow> handler_frame (sv_Handler s) h'"
  shows "handler_frame (sv_Handler s) (sv_Handler s')"
  using assms by (auto simp: on_handler_def split: prod.splits)

text \<open>The requests that only look, and their loops, leave the server as it is.\<close>

lemma GetApplications_same: "rpc_GetApplications X (s, w) = (r, (s', w')) \<Longrightarrow> s' = s"
proof -
  assume "rpc_GetApplications X (s, w) = (r, (s', w'))"
  moreover have "keeps (\<lambda>(t, v). t = s) (rpc_GetApplications X)"
    unfolding rpc_GetApplications_def list_apps_def by (intro keeps_intros)
  ultimately show ?thesis using keepsD_eq by fastforce
qed

lemma GetApplicationRevisions_same: "rpc_GetApplicationRevisions X inm (s, w) = (r, (s', w')) \<Longrightarrow> s' = s"
proof -
  assume "rpc_GetApplicationRevisions X inm (s, w) = (r, (s', w'))"
  moreover have "keeps (\<lambda>(t, v). t = s) (\<lambda>s. (GetApplication (sv_Handler (fst s)) n u, s))" for n u
    by (auto simp: keeps_def)
  then have "keeps (\<lambda>(t, v). t = s) (rpc_GetApplicationRevisions X inm)"
    unfolding rpc_GetApplicationRevisions_def by (intro keeps_intros)
  ultimately show ?thesis using keepsD_eq by fastforce
qed

lemma rpc_AddRepository_frame:
  assumes "rpc_AddRepository X inm (s, w) = (r, (s', w'))" and "returns r" and wf: "handler_wf (sv_Handler s)"
  shows "handler_frame (sv_Handler s) (sv_Handler s')"
proof (cases "GetRepositoryConfig (sv_Handler s) (repository_GetUrl inm)")
  case (Some i)
  with assms show ?thesis by (simp add: rpc_AddRepository_def)
next
  case None
  with assms(1) have "on_handler (with_handler_lock (register_repository X (sv_KubeConfig s) inm)) (s, w) = (r, (s', w'))"
    by (simp add: rpc_AddRepository_def)
  then show ?thesis
    by (rule on_handler_frame)
      (rule with_handler_lock_frame[OF _ assms(2) wf register_repository_ok], auto dest: register_repository_locked)
qed

lemma rpc_DeleteRepository_frame:
  assumes "rpc_DeleteRepository X inm (s, w) = (r, (s', w'))" and "returns r" and wf: "handler_wf (sv_Handler s)"
  shows "handler_frame (sv_Handler s) (sv_Handler s')"
  using assms(1) unfolding rpc_DeleteRepository_def
  by (rule on_handler_frame)
    (rule with_handler_lock_frame[OF _ assms(2) wf DeleteRepository_ok], auto dest: DeleteRepository_frame[OF _ assms(2)])

lemma rpc_DeleteApplication_frame:
  assumes "rpc_DeleteApplication X inm (s, w) = (r, (s', w'))" and "returns r" and wf: "handler_wf (sv_Handler s)"
  shows "handler_frame (sv_Handler s) (sv_Handler s')"
proof (cases "GetRepositoryConfig (sv_Handler s) (application_GetUrl inm)")
  case None
  with assms show ?thesis by (simp add: rpc_DeleteApplication_def)
next
  case (Some i)
  with assms(1) have "on_handler (on_repo i (DeleteApplication X (application_GetName inm))) (s, w) = (r, (s', w'))"
    by (simp add: rpc_DeleteApplication_def)
  then show ?thesis
    by (rule on_found_repo_frame[OF _ assms(2) wf Some])
      (use DeleteApplication_frame DeleteApplication_wf assms(2) in blast)
qed

lemma rpc_AddOrUpdateApplication_frame:
  assumes "rpc_AddOrUpdateApplication X cmp_equal inm (s, w) = (r, (s', w'))" and "returns r"
    and wf: "handler_wf (sv_Handler s)"
  shows "handler_frame (sv_Handler s) (sv_Handler s')"
proof (cases "GetRepositoryConfig (sv_Handler s) (application_GetUrl inm)")
  case None
  with assms show ?thesis by (simp add: rpc_AddOrUpdateApplication_def)
next
  case (Some i)
  let ?app = "request_app inm (repo_core.truncate (h_Repos (sv_Handler s) ! i))"
  obtain r1 s1 w1 where c: "on_handler (on_repo i (AddOrUpdateApplication X (sv_KubeConfig s) cmp_equal ?app)) (s, w) = (r1, (s1, w1))"
    by (metis prod.exhaust)
  have r1: "returns r1 \<and> s1 = s'"
    using assms(1,2) Some c
    by (cases r1) (auto simp: rpc_AddOrUpdateApplication_def split: if_splits)
  have "handler_frame (sv_Handler s) (sv_Handler s1)"
  proof (rule on_found_repo_frame[OF c _ wf Some])
    fix q v q' v'
    assume m: "AddOrUpdateApplication X (sv_KubeConfig s) cmp_equal ?app (q, v) = (r1, (q', v'))"
      and q: "repo_at (application_GetUrl inm) q"
    show "repo_at (application_GetUrl inm) q' \<and> repo_frame q q'"
      using AddOrUpdateApplication_wf[OF m _ q] AddOrUpdateApplication_frame[OF m] r1 by simp
  qed (use r1 in blast)
  with r1 show ?thesis by simp
qed

lemma replying_returns:
  "replying f m s = (r, t) \<Longrightarrow> returns r \<Longrightarrow> \<exists>r0. m s = (r0, t) \<and> returns r0"
  by (auto simp: replying_def andthen_def split: prod.splits res.splits)

lemma serve_frame:
  assumes "serve X cmp_equal q (s, w) = (r, (s', w'))" and "returns r" and wf: "handler_wf (sv_Handler s)"
  shows "handler_frame (sv_Handler s) (sv_Handler s')"
  using assms(1) wf
  by (cases q)
    (auto simp: replying_def[of _ "rpc_CheckoutApplicationRevision _"] rpc_CheckoutApplicationRevision_def
      dest!: replying_returns[OF _ assms(2)]
      dest: GetApplications_same GetApplicationRevisions_same
      elim!: rpc_AddRepository_frame[OF _ _ wf] rpc_DeleteRepository_frame[OF _ _ wf]
        rpc_AddOrUpdateApplication_frame[OF _ _ wf] rpc_DeleteApplication_frame[OF _ _ wf])

subsection \<open>Putting an application back into its slot\<close>

lemma locked_names_put:
  assumes "slots_wf url slots" and j: "j < length slots" "slots ! j = Some a" and n: "a_Name b = a_Name a"
  shows "locked_names (slots[j := Some b]) =
    (locked_names slots - {a_Name a}) \<union> (if a_mutex b then {a_Name a} else {})"
proof -
  have d: "a_Name a \<notin> locked_names (take j slots)" "a_Name a \<notin> locked_names (drop (Suc j) slots)"
    using assms(1) by (auto simp: slots_wf_def live_apps_split[OF j] locked_names_def set_live_apps[symmetric])
  have one: "locked_names [Some c] = (if a_mutex c then {a_Name c} else {})" for c
    by (auto simp: locked_names_def)
  from d show ?thesis
    by (auto simp: locked_names_update[OF j(1)] locked_names_split[OF j(1)] one j(2) n)
qed

lemma locked_keys_at:
  assumes "handler_wf h" and i: "i < length (h_Repos h)" and u: "repo_url (h_Repos h ! i) = u" "repo_url r = u"
  shows "locked_keys (h\<lparr>h_Repos := (h_Repos h)[i := r]\<rparr>) =
    {key \<in> locked_keys h. fst key \<noteq> u} \<union> Pair u ` locked_names (rc_Apps r)"
proof -
  let ?rest = "set (take i (h_Repos h) @ drop (Suc i) (h_Repos h))"
  have "distinct (map repo_url (take i (h_Repos h) @ h_Repos h ! i # drop (Suc i) (h_Repos h)))"
    using assms(1) id_take_nth_drop[OF i] by (metis handler_wf_def)
  then have "\<forall>q\<in>?rest. repo_url q \<noteq> u" using u(1) by (fastforce simp: image_iff)
  then show ?thesis
    using locked_keys_split[of i "h\<lparr>h_Repos := (h_Repos h)[i := r]\<rparr>"] locked_keys_split[OF i] i u by auto
qed

text \<open>A slot of a handler that holds an application.\<close>

definition slot_app :: "handler \<Rightarrow> nat \<Rightarrow> nat \<Rightarrow> application \<Rightarrow> bool" where
  "slot_app h i j a \<longleftrightarrow>
     i < length (h_Repos h) \<and> j < length (rc_Apps (h_Repos h ! i)) \<and> rc_Apps (h_Repos h ! i) ! j = Some a"

lemma slot_app_wf: "handler_wf h \<Longrightarrow> slot_app h i j a \<Longrightarrow>
    slots_wf (repo_url (h_Repos h ! i)) (rc_Apps (h_Repos h ! i)) \<and> app_wf (repo_url (h_Repos h ! i)) a"
  by (metis handler_wf_def nth_mem repo_wf_def slot_app_def slots_wf_nth)

lemma put_app_locked:
  assumes "handler_wf h" and s: "slot_app h i j a" and "a_Name b = a_Name a"
  shows "locked_keys (put_app i j b h) =
    (locked_keys h - {(repo_url (h_Repos h ! i), a_Name a)}) \<union>
      (if a_mutex b then {(repo_url (h_Repos h ! i), a_Name a)} else {})"
proof -
  let ?u = "repo_url (h_Repos h ! i)"
  have k: "key \<in> locked_keys h \<Longrightarrow> fst key = ?u \<Longrightarrow> key \<in> Pair ?u ` locked_names (rc_Apps (h_Repos h ! i))" for key
    using locked_keys_at[OF assms(1) _ refl refl, of i] s by (auto simp: slot_app_def)
  have k': "Pair ?u ` locked_names (rc_Apps (h_Repos h ! i)) \<subseteq> locked_keys h"
    using s by (auto simp: locked_keys_def slot_app_def intro!: bexI[OF _ nth_mem])
  have "locked_keys (put_app i j b h) = {key \<in> locked_keys h. fst key \<noteq> ?u} \<union>
      Pair ?u ` locked_names ((rc_Apps (h_Repos h ! i))[j := Some b])"
    unfolding put_app_def using s by (subst locked_keys_at[OF assms(1), where u = ?u]) (auto simp: slot_app_def)
  also have "\<dots> = {key \<in> locked_keys h. fst key \<noteq> ?u} \<union>
      Pair ?u ` ((locked_names (rc_Apps (h_Repos h ! i)) - {a_Name a}) \<union> (if a_mutex b then {a_Name a} else {}))"
    using locked_names_put[of ?u "rc_Apps (h_Repos h ! i)" j a b] slot_app_wf[OF assms(1) s] s assms(3)
    by (simp add: slot_app_def)
  finally show ?thesis using k k' by (auto simp: image_iff)
qed

lemma put_app_wf:
  assumes "handler_wf h" and s: "slot_app h i j a" and "a_Name b = a_Name a" and "app_wf (repo_url (h_Repos h ! i)) b"
  shows "handler_wf (put_app i j b h)"
proof -
  have "slots_wf (repo_url (h_Repos h ! i)) ((rc_Apps (h_Repos h ! i))[j := Some b])"
    using slots_wf_replace[of _ "rc_Apps (h_Repos h ! i)" j a b] slot_app_wf[OF assms(1) s] s assms(3,4)
    by (simp add: slot_app_def)
  then show ?thesis
    unfolding put_app_def using s
    by (intro handler_wf_update[OF assms(1)]) (auto simp: slot_app_def repo_at_def repo_wf_def)
qed

lemma set_repo_mutex_wf: "handler_wf h \<Longrightarrow> i < length (h_Repos h) \<Longrightarrow> handler_wf (set_repo_mutex i m h)"
  unfolding set_repo_mutex_def
  by (intro handler_wf_update) (auto simp: repo_at_def repo_wf_def handler_wf_def)

lemma set_repo_mutex_locked:
  "i < length (h_Repos h) \<Longrightarrow> locked_keys (set_repo_mutex i m h) = locked_keys h"
  using locked_keys_split[of i "set_repo_mutex i m h"] locked_keys_split[of i h] by (simp add: set_repo_mutex_def)

lemma locate_Some:
  "locate h key = Some (i, j) \<Longrightarrow>
     \<exists>a. slot_app h i j a \<and> key = (repo_url (h_Repos h ! i), a_Name a) \<and> app_at h (i, j) = a"
  by (cases key)
    (auto simp: locate_def slot_app_def app_at_def has_name_def first_index_Some
      dest!: GetRepositoryConfig_Some split: option.splits)

text \<open>A locked application is found again under its key.\<close>

lemma locate_locked:
  assumes wf: "handler_wf h" and key: "key \<in> locked_keys h"
  shows "\<exists>i j a. locate h key = Some (i, j) \<and> slot_app h i j a \<and> key = (repo_url (h_Repos h ! i), a_Name a) \<and> a_mutex a"
proof -
  obtain r b where r: "r \<in> set (h_Repos h)" "fst key = repo_url r" "Some b \<in> set (rc_Apps r)" "a_mutex b"
      "snd key = a_Name b"
    using key by (auto simp: locked_keys_def locked_names_def)
  then obtain i where g: "GetRepositoryConfig h (fst key) = Some i"
    by (cases "GetRepositoryConfig h (fst key)") (auto simp: GetRepositoryConfig_def first_index_None)
  have i: "i < length (h_Repos h)" "repo_url (h_Repos h ! i) = repo_url r"
    using GetRepositoryConfig_Some[OF g] r(2) by simp_all
  have ir: "h_Repos h ! i = r"
    using wf i r(1) by (metis distinct_map handler_wf_def inj_onD nth_mem)
  obtain j where f: "first_index (has_name (snd key)) (rc_Apps r) = Some j"
    using r(3,5) by (cases "first_index (has_name (snd key)) (rc_Apps r)") (auto simp: first_index_None has_name_def)
  have l: "locate h key = Some (i, j)" using g f ir by (simp add: locate_def)
  from locate_Some[OF l] obtain a where a: "slot_app h i j a" "key = (repo_url (h_Repos h ! i), a_Name a)" by blast
  have "a \<in> set (live_apps (rc_Apps r))" "b \<in> set (live_apps (rc_Apps r))"
    using a(1) ir r(3) nth_mem by (fastforce simp: slot_app_def set_live_apps)+
  moreover have "distinct (map a_Name (live_apps (rc_Apps r)))"
    using slot_app_wf[OF wf a(1)] ir by (simp add: slots_wf_def)
  ultimately have "a = b" using a(2) r(5) by (metis distinct_map inj_onD snd_conv)
  with l a r(4) show ?thesis by blast
qed

end
