(* ===== verification/ProcessProofs.thy ===== *)
theory ProcessProofs
  imports TickerProofs AppProps
begin

section \<open>The invariant of the server process\<close>

text \<open>
  The state predicate that every actor of theory \<open>Ticker\<close> keeps as long as nothing panics: the store is
  well formed; the handler's mutex is locked exactly during a tick; the locked applications are exactly
  those of the goroutines; the \<^verbatim>\<open>WaitGroup\<close> counts the goroutines that have not called \<^verbatim>\<open>Done\<close>, less the
  applications found busy; and as long as none was found busy, those goroutines belong to applications
  the current tick has visited.
\<close>

definition pending :: "goroutine list \<Rightarrow> goroutine list" where
  "pending gos = filter (\<lambda>g. go_phase g \<noteq> Counted) gos"

definition visited :: "handler \<Rightarrow> loop_pc \<Rightarrow> app_key set" where
  "visited h pc =
     (case pc of
        Idle \<Rightarrow> {}
      | AtRepo i \<Rightarrow> {key. fst key \<in> repo_url ` set (take i (h_Repos h))}
      | AtApp i j \<Rightarrow> {key. fst key \<in> repo_url ` set (take i (h_Repos h))} \<union>
          Pair (repo_url (h_Repos h ! i)) ` a_Name ` set (live_apps (take j (rc_Apps (h_Repos h ! i))))
      | AtWait \<Rightarrow> UNIV)"

definition pc_ok :: "handler \<Rightarrow> loop_pc \<Rightarrow> bool" where
  "pc_ok h pc \<longleftrightarrow>
     (h_Mutex h \<longleftrightarrow> pc \<noteq> Idle) \<and>
     (case pc of
        AtRepo i \<Rightarrow> i \<le> length (h_Repos h)
      | AtApp i j \<Rightarrow> i < length (h_Repos h) \<and> j \<le> length (rc_Apps (h_Repos h ! i)) \<and> rc_Mutex (h_Repos h ! i)
      | _ \<Rightarrow> True)"

definition gos_ok :: "handler \<Rightarrow> goroutine list \<Rightarrow> bool" where
  "gos_ok h gos \<longleftrightarrow> distinct (map go_app gos) \<and> go_app ` set gos = locked_keys h"

definition count_ok :: "'e process \<Rightarrow> bool" where
  "count_ok k \<longleftrightarrow> 0 \<le> k_wg k \<and> k_wg k = int (length (pending (k_gos k))) - int (k_busy k)"

definition order_ok :: "'e process \<Rightarrow> bool" where
  "order_ok k \<longleftrightarrow> (k_busy k = 0 \<longrightarrow> go_app ` set (pending (k_gos k)) \<subseteq> visited (k_handler k) (k_loop k))"

definition process_inv :: "'e process \<Rightarrow> bool" where
  "process_inv k \<longleftrightarrow>
     handler_wf (k_handler k) \<and> pc_ok (k_handler k) (k_loop k) \<and> gos_ok (k_handler k) (k_gos k) \<and>
     count_ok k \<and> order_ok k"

subsection \<open>Calls on an application\<close>

text \<open>What a call on an application of the store keeps.\<close>

definition app_kept :: "string \<Rightarrow> application \<Rightarrow> application \<Rightarrow> bool" where
  "app_kept url a b \<longleftrightarrow> app_wf url b \<and> a_Name b = a_Name a \<and> a_mutex b = a_mutex a"

lemma app_Delivery_wf [maintains_intros]: "maintains (\<lambda>(b, w). app_wf url b) (app_Delivery X)"
proof (rule maintainsI, clarsimp)
  fix a w r b w' assume wf: "app_wf url a" and m: "app_Delivery X (a, w) = (r, (b, w'))" "returns r"
  obtain d v where d: "provider_Delivery X (a_CurrentRevision a) (a_deliveryProvider a, w) = (r, (d, v))"
    "b = a\<lparr>a_deliveryProvider := d\<rparr>"
    using m by (auto simp: app_Delivery_def app_call_def split: prod.splits)
  with prov.delivery_ready[OF d(1) m(2)] wf show "app_wf url b" by (simp add: app_wf_def)
qed

lemma maintains_app_modify [maintains_intros]:
  "(\<And>b. app_wf url b \<Longrightarrow> app_wf url (f b)) \<Longrightarrow> maintains (\<lambda>(b, w). app_wf url b) (on_obj (modify f))"
  by (intro maintains_intros)

lemma deliver_head_wf [maintains_intros]: "maintains (\<lambda>(b, w). app_wf url b) (deliver_head X)"
  unfolding deliver_head_def by (intro maintains_intros) (simp_all add: app_wf_def)

lemma RunLifeCycle_wf: "maintains (\<lambda>(b, w). app_wf url b) (RunLifeCycle X)"
  unfolding RunLifeCycle_def by (intro maintains_intros)

lemma RunLifeCycle_kept:
  assumes "RunLifeCycle X (a, w) = (r, (b, w'))" and "returns r" and "app_wf url a"
  shows "app_kept url a b"
proof -
  have "life_frame a b" using keepsD_eq[OF RunLifeCycle_keeps assms(1)] by simp
  then have e: "b = a\<lparr>a_CurrentRevision := a_CurrentRevision b, a_deliveryProvider := a_deliveryProvider b\<rparr>"
    unfolding life_frame_def by blast
  have "a_Name b = a_Name a" by (subst e) simp
  moreover have "a_mutex b = a_mutex a" by (subst e) simp
  ultimately have "a_Name b = a_Name a" "a_mutex b = a_mutex a" by simp_all
  with maintainsD[OF RunLifeCycle_wf[of url X] assms(1,2)] assms(3) show ?thesis by (simp add: app_kept_def)
qed

lemma provider_cleanup_kept:
  assumes m: "provider_cleanup X (a, w) = (r, (b, w'))" and "returns r" and wf: "app_wf url a"
  shows "app_kept url a b"
proof -
  obtain p where p: "a_deliveryProvider a = Raw p" "rp_cleanups p \<noteq> 0"
    using assms(1,2) by (cases "a_deliveryProvider a") (auto simp: provider_cleanup_def split: if_splits)
  then obtain q v where c: "cleanup_goroutine X (a_CurrentRevision a) (p, w) = (r, (q, v))"
    "b = a\<lparr>a_deliveryProvider := Raw q\<rparr>"
    using m by (auto simp: provider_cleanup_def split: prod.splits)
  have ok: "raw_ok p" "rp_appName p = a_Name a" using wf p(1) by (simp_all add: app_wf_def)
  then have "rp_cleanups p = 1" "rp_mutex p" using p(2) by (auto simp: raw_ok_def split: if_splits)
  moreover have "r \<noteq> Panic e" for e using assms(2) by auto
  ultimately have "raw_ok q" "rp_appName q = a_Name a"
    using cleanup_goroutine_ok[OF ok(1) _ c(1)] cleanup_goroutine_names(1)[OF c(1) _ assms(2)] assms(2) ok(2) by auto
  with c(2) wf show ?thesis by (simp add: app_kept_def app_wf_def)
qed

lemma unlock_app_cases: "a_mutex a \<Longrightarrow> unlock_app (a, w) = (Ret (), (a\<lparr>a_mutex := False\<rparr>, w))"
  by (simp add: unlock_app_def Unlock_def)

text \<open>A method call on a located application, when it does not panic.\<close>

lemma on_app_cases:
  assumes "on_app m key k = Some k'"
  obtains (panics) q where "k' = crash q k"
  | (returns) i j a r b w where "locate (k_handler k) key = Some (i, j)" "slot_app (k_handler k) i j a"
      "key = (repo_url (h_Repos (k_handler k) ! i), a_Name a)" "m (a, k_world k) = (r, (b, w))" "returns r"
      "k' = (set_handler (put_app i j b (k_handler k)) k)\<lparr>k_world := w\<rparr>"
proof -
  from assms obtain i j where l: "locate (k_handler k) key = Some (i, j)"
    by (auto simp: on_app_def split: option.splits)
  from locate_Some[OF l] obtain a where
    a: "slot_app (k_handler k) i j a" "key = (repo_url (h_Repos (k_handler k) ! i), a_Name a)"
      "app_at (k_handler k) (i, j) = a" by blast
  obtain r b w where m: "m (a, k_world k) = (r, (b, w))" by (metis prod.exhaust)
  show thesis
  proof (cases r)
    case (Ret x)
    with assms l a m show thesis by (intro returns[OF l a(1,2) m]) (simp_all add: on_app_def)
  next
    case (Fail e)
    with assms l a m show thesis by (intro returns[OF l a(1,2) m]) (simp_all add: on_app_def)
  next
    case (Panic q)
    with assms l a m have "k' = crash q k" by (auto simp: on_app_def)
    then show thesis by (rule panics)
  next
    case Spin
    with assms l a m show thesis by (simp add: on_app_def)
  qed
qed

subsection \<open>Fields and positions\<close>

lemma set_handler_fields [simp]:
  "k_handler (set_handler h k) = h" "k_world (set_handler h k) = k_world k" "k_loop (set_handler h k) = k_loop k"
  "k_wg (set_handler h k) = k_wg k" "k_gos (set_handler h k) = k_gos k" "k_busy (set_handler h k) = k_busy k"
  "k_crash (set_handler h k) = k_crash k" "k_started (set_handler h k) = k_started k"
  by (simp_all add: set_handler_def)

lemma wg_Add_fields [simp]:
  "k_server (wg_Add d k) = k_server k" "k_world (wg_Add d k) = k_world k" "k_loop (wg_Add d k) = k_loop k"
  "k_wg (wg_Add d k) = k_wg k + d" "k_gos (wg_Add d k) = k_gos k" "k_busy (wg_Add d k) = k_busy k"
  "k_started (wg_Add d k) = k_started k"
  by (simp_all add: wg_Add_def crash_def Let_def)

lemma wg_Add_crash:
  "k_crash k = None \<Longrightarrow> k_crash (wg_Add d k) = (if k_wg k + d < 0 then Some NegativeWaitGroup else None)"
  by (simp add: wg_Add_def crash_def Let_def)

lemma crash_crash [simp]: "k_crash (crash q k) = Some q"
  by (simp add: crash_def)

abbreviation names :: "application option list \<Rightarrow> string option list" where
  "names slots \<equiv> map (map_option a_Name) slots"

lemma live_names: "a_Name ` set (live_apps slots) = {n. Some n \<in> set (names slots)}"
proof (induction slots)
  case (Cons slot slots)
  then show ?case by (cases slot) auto
qed simp

lemma visited_cong:
  assumes "map repo_url (h_Repos h') = map repo_url (h_Repos h)"
    and "\<And>i j. pc = AtApp i j \<Longrightarrow> i < length (h_Repos h) \<and>
      names (rc_Apps (h_Repos h' ! i)) = names (rc_Apps (h_Repos h ! i))"
  shows "visited h' pc = visited h pc"
proof -
  have t: "repo_url ` set (take i (h_Repos h')) = repo_url ` set (take i (h_Repos h))" for i
    using assms(1) by (metis list.set_map take_map)
  show ?thesis
  proof (cases pc)
    case (AtApp i j)
    have "repo_url (h_Repos h' ! i) = repo_url (h_Repos h ! i)"
      using assms AtApp by (metis length_map nth_map)
    moreover have "names (take j (rc_Apps (h_Repos h' ! i))) = names (take j (rc_Apps (h_Repos h ! i)))"
      using assms(2)[OF AtApp] by (metis take_map)
    ultimately show ?thesis using AtApp t by (simp add: visited_def live_names del: set_map)
  qed (use t in \<open>simp_all add: visited_def\<close>)
qed

lemma names_update: "j < length slots \<Longrightarrow> slots ! j = Some a \<Longrightarrow> a_Name b = a_Name a \<Longrightarrow>
    names (slots[j := Some b]) = names slots"
  by (metis (no_types, lifting) list_update_id map_update option.simps(9))

lemma put_app_fields [simp]:
  "h_Mutex (put_app i j b h) = h_Mutex h" "length (h_Repos (put_app i j b h)) = length (h_Repos h)"
  by (simp_all add: put_app_def)

lemma put_app_nth: "h_Repos (put_app i j b h) ! n =
    (if n = i \<and> i < length (h_Repos h)
     then (h_Repos h ! i)\<lparr>rc_Apps := (rc_Apps (h_Repos h ! i))[j := Some b]\<rparr> else h_Repos h ! n)"
  by (cases "i < length (h_Repos h)") (auto simp: put_app_def list_update_beyond)

lemma put_app_repo:
  "repo_url (h_Repos (put_app i j b h) ! n) = repo_url (h_Repos h ! n)"
  "rc_Mutex (h_Repos (put_app i j b h) ! n) = rc_Mutex (h_Repos h ! n)"
  "length (rc_Apps (h_Repos (put_app i j b h) ! n)) = length (rc_Apps (h_Repos h ! n))"
  by (simp_all add: put_app_nth)

lemma put_app_same: "slot_app h i j a \<Longrightarrow> put_app i j a h = h"
proof -
  assume s: "slot_app h i j a"
  then have "(rc_Apps (h_Repos h ! i))[j := Some a] = rc_Apps (h_Repos h ! i)"
    by (metis list_update_id slot_app_def)
  then have "(h_Repos h ! i)\<lparr>rc_Apps := (rc_Apps (h_Repos h ! i))[j := Some a]\<rparr> = h_Repos h ! i" by simp
  then show ?thesis by (simp add: put_app_def)
qed

lemma slot_app_locked: "handler_wf h \<Longrightarrow> slot_app h i j a \<Longrightarrow>
    (repo_url (h_Repos h ! i), a_Name a) \<in> locked_keys h \<longleftrightarrow> a_mutex a"
proof -
  assume wf: "handler_wf h" and s: "slot_app h i j a"
  let ?key = "(repo_url (h_Repos h ! i), a_Name a)"
  have "?key \<in> locked_keys (put_app i j a h) \<longleftrightarrow> a_mutex a" by (simp add: put_app_locked[OF wf s refl])
  then show ?thesis by (simp only: put_app_same[OF s])
qed

lemma put_app_urls: "map repo_url (h_Repos (put_app i j b h)) = map repo_url (h_Repos h)"
  by (rule nth_equalityI) (simp_all add: put_app_repo)

lemma put_app_names: "slot_app h i j a \<Longrightarrow> a_Name b = a_Name a \<Longrightarrow>
    names (rc_Apps (h_Repos (put_app i j b h) ! n)) = names (rc_Apps (h_Repos h ! n))"
  using names_update[of j "rc_Apps (h_Repos h ! i)" a b]
  by (cases "n = i") (simp_all add: put_app_nth slot_app_def)

lemma put_app_visited:
  "slot_app h i j a \<Longrightarrow> a_Name b = a_Name a \<Longrightarrow> pc_ok h pc \<Longrightarrow> visited (put_app i j b h) pc = visited h pc"
  by (rule visited_cong[OF put_app_urls]) (auto simp: put_app_names pc_ok_def)

lemma put_app_pc_ok: "pc_ok (put_app i j b h) pc = pc_ok h pc"
  by (cases pc) (auto simp: pc_ok_def put_app_repo)

text \<open>A call that keeps the application's lock keeps the invariant.\<close>

lemma put_app_inv:
  assumes I: "process_inv k" and s: "slot_app (k_handler k) i j a"
    and b: "app_kept (repo_url (h_Repos (k_handler k) ! i)) a b"
  shows "process_inv ((set_handler (put_app i j b (k_handler k)) k)\<lparr>k_world := w\<rparr>)"
proof -
  let ?h = "k_handler k"
  have wf: "handler_wf ?h" and pc: "pc_ok ?h (k_loop k)" using I by (simp_all add: process_inv_def)
  have "locked_keys (put_app i j b ?h) = locked_keys ?h"
    using put_app_locked[OF wf s, of b] slot_app_locked[OF wf s] b by (auto simp: app_kept_def)
  then show ?thesis
    using I put_app_wf[OF wf s] put_app_visited[OF s _ pc] b put_app_pc_ok
    by (auto simp: process_inv_def gos_ok_def count_ok_def order_ok_def app_kept_def)
qed

subsection \<open>The loop\<close>

lemma set_repo_mutex_fields [simp]:
  "h_Mutex (set_repo_mutex i m h) = h_Mutex h" "length (h_Repos (set_repo_mutex i m h)) = length (h_Repos h)"
  by (simp_all add: set_repo_mutex_def)

lemma set_repo_mutex_nth: "i < length (h_Repos h) \<Longrightarrow> h_Repos (set_repo_mutex i m h) ! n =
    (if n = i then (h_Repos h ! i)\<lparr>rc_Mutex := m\<rparr> else h_Repos h ! n)"
  by (simp add: set_repo_mutex_def)

lemma set_repo_mutex_urls: "i < length (h_Repos h) \<Longrightarrow>
    map repo_url (h_Repos (set_repo_mutex i m h)) = map repo_url (h_Repos h)"
  by (rule nth_equalityI) (simp_all add: set_repo_mutex_nth)

lemma set_repo_mutex_visited:
  assumes "i < length (h_Repos h)"
  shows "pc_ok h pc \<Longrightarrow> visited (set_repo_mutex i m h) pc = visited h pc"
    and "visited (set_repo_mutex i m h) (AtApp i 0) = visited h (AtRepo i)"
    and "visited (set_repo_mutex i m h) (AtRepo (Suc i)) =
      visited h (AtRepo i) \<union> {key. fst key = repo_url (h_Repos h ! i)}"
proof -
  show "visited (set_repo_mutex i m h) pc = visited h pc" if "pc_ok h pc" for pc
    by (rule visited_cong[OF set_repo_mutex_urls[OF assms]]) (use that assms in \<open>auto simp: set_repo_mutex_nth pc_ok_def\<close>)
  have r: "visited (set_repo_mutex i m h) (AtRepo n) = visited h (AtRepo n)" for n
    by (rule visited_cong[OF set_repo_mutex_urls[OF assms]]) simp
  have "visited (set_repo_mutex i m h) (AtApp i 0) = visited (set_repo_mutex i m h) (AtRepo i)"
    by (simp add: visited_def)
  then show "visited (set_repo_mutex i m h) (AtApp i 0) = visited h (AtRepo i)" by (simp only: r)
  have "visited h (AtRepo (Suc i)) = visited h (AtRepo i) \<union> {key. fst key = repo_url (h_Repos h ! i)}"
    using assms by (auto simp: visited_def take_Suc_conv_app_nth)
  then show "visited (set_repo_mutex i m h) (AtRepo (Suc i)) =
      visited h (AtRepo i) \<union> {key. fst key = repo_url (h_Repos h ! i)}" by (simp only: r)
qed

lemma start_tick_inv: "process_inv k \<Longrightarrow> k_loop k = Idle \<Longrightarrow> process_inv (start_tick k)"
  by (simp add: start_tick_def TryLock_def process_inv_def pc_ok_def gos_ok_def count_ok_def order_ok_def
      handler_wf_repos visited_def locked_keys_def)

lemma visit_repo_inv:
  assumes I: "process_inv k" and pc: "k_loop k = AtRepo i"
  shows "process_inv (visit_repo i k)"
proof (cases "i < length (h_Repos (k_handler k))")
  case True
  show ?thesis
  proof (cases "rc_Mutex (h_Repos (k_handler k) ! i)")
    case locked: True
    then have "visit_repo i k = k\<lparr>k_loop := AtRepo (Suc i)\<rparr>"
      using True by (simp add: visit_repo_def TryLock_def)
    with I pc True show ?thesis
      by (auto simp: process_inv_def pc_ok_def count_ok_def order_ok_def visited_def take_Suc_conv_app_nth)
  next
    case False
    then have "visit_repo i k = (set_handler (set_repo_mutex i True (k_handler k)) k)\<lparr>k_loop := AtApp i 0\<rparr>"
      using True by (simp add: visit_repo_def TryLock_def)
    with I pc True set_repo_mutex_visited(2)[OF True, of True] show ?thesis
      by (simp add: process_inv_def pc_ok_def gos_ok_def count_ok_def order_ok_def set_repo_mutex_nth
          set_repo_mutex_wf set_repo_mutex_locked)
  qed
next
  case False
  then have "visit_repo i k = k\<lparr>k_loop := AtWait\<rparr>" by (simp add: visit_repo_def)
  with I pc show ?thesis
    by (simp add: process_inv_def pc_ok_def count_ok_def order_ok_def visited_def)
qed

lemma end_tick_inv: "process_inv k \<Longrightarrow> k_loop k = AtWait \<Longrightarrow> k_wg k = 0 \<Longrightarrow> process_inv (end_tick k)"
  by (auto simp: end_tick_def Unlock_def process_inv_def pc_ok_def gos_ok_def count_ok_def order_ok_def
      handler_wf_repos visited_def locked_keys_def)

text \<open>The three outcomes of the body of the inner loop.\<close>

lemma visit_app_end:
  assumes I: "process_inv k" and pc: "k_loop k = AtApp i j" and j: "\<not> j < length (rc_Apps (h_Repos (k_handler k) ! i))"
  shows "process_inv (visit_app i j k)"
proof -
  have i: "i < length (h_Repos (k_handler k))" "rc_Mutex (h_Repos (k_handler k) ! i)"
    using I pc by (simp_all add: process_inv_def pc_ok_def)
  then have "visit_app i j k = (set_handler (set_repo_mutex i False (k_handler k)) k)\<lparr>k_loop := AtRepo (Suc i)\<rparr>"
    using j by (simp add: visit_app_def Unlock_def)
  moreover have "visited (k_handler k) (AtApp i j) \<subseteq> visited (set_repo_mutex i False (k_handler k)) (AtRepo (Suc i))"
    unfolding set_repo_mutex_visited(3)[OF i(1)] by (auto simp: visited_def)
  ultimately show ?thesis using I pc i
    by (auto simp: process_inv_def pc_ok_def gos_ok_def count_ok_def order_ok_def set_repo_mutex_wf set_repo_mutex_locked)
qed

lemma visit_app_busy:
  assumes I: "process_inv k" and pc: "k_loop k = AtApp i j" and s: "slot_app (k_handler k) i j a" and b: "a_mutex a"
  shows "visit_app i j k = wg_Add (- 1) (k\<lparr>k_busy := Suc (k_busy k), k_loop := AtApp i (Suc j)\<rparr>)"
    and "0 < k_wg k \<Longrightarrow> process_inv (visit_app i j k)"
proof -
  show v: "visit_app i j k = wg_Add (- 1) (k\<lparr>k_busy := Suc (k_busy k), k_loop := AtApp i (Suc j)\<rparr>)"
    using s b by (simp add: visit_app_def slot_app_def TryLock_def Let_def)
  show "process_inv (visit_app i j k)" if "0 < k_wg k"
    using I pc s that unfolding v
    by (auto simp: process_inv_def pc_ok_def count_ok_def order_ok_def slot_app_def)
qed

lemma visited_Suc: "slot_app h i j a \<Longrightarrow>
    visited h (AtApp i (Suc j)) = insert (repo_url (h_Repos h ! i), a_Name a) (visited h (AtApp i j))"
  by (auto simp: visited_def slot_app_def take_Suc_conv_app_nth)

lemma visit_app_free:
  assumes I: "process_inv k" and pc: "k_loop k = AtApp i j" and s: "slot_app (k_handler k) i j a" and b: "\<not> a_mutex a"
  shows "process_inv (visit_app i j k)"
proof -
  let ?h = "k_handler k" and ?b = "a\<lparr>a_mutex := True\<rparr>"
  let ?h' = "put_app i j ?b ?h" and ?key = "(repo_url (h_Repos ?h ! i), a_Name a)"
  let ?g = "\<lparr>go_app = ?key, go_phase = Started\<rparr>"
  have wf: "handler_wf ?h" and pok: "pc_ok ?h (AtApp i j)" using I pc by (simp_all add: process_inv_def)
  have v: "visit_app i j k =
      (wg_Add 1 (set_handler ?h' k))\<lparr>k_gos := k_gos k @ [?g], k_started := k_started k @ [?key],
        k_loop := AtApp i (Suc j)\<rparr>"
    using s b by (simp add: visit_app_def slot_app_def TryLock_def Let_def)
  have new: "?key \<notin> locked_keys ?h" using slot_app_locked[OF wf s] b by simp
  have wf': "handler_wf ?h'"
    by (rule put_app_wf[OF wf s]) (use slot_app_wf[OF wf s] in simp_all)
  have lk: "locked_keys ?h' = insert ?key (locked_keys ?h)"
    using put_app_locked[OF wf s, of ?b] new by simp
  have pok': "pc_ok ?h' (AtApp i (Suc j))"
    using pok s by (auto simp: pc_ok_def put_app_repo slot_app_def)
  have "pc_ok ?h (AtApp i (Suc j))" using pok s by (auto simp: pc_ok_def slot_app_def)
  then have vis: "visited ?h' (AtApp i (Suc j)) = insert ?key (visited ?h (AtApp i j))"
    using put_app_visited[OF s, of ?b] visited_Suc[OF s] by simp
  have "gos_ok ?h' (k_gos k @ [?g])"
    using I new lk by (auto simp: process_inv_def gos_ok_def)
  with I wf' pok' pc vis show ?thesis
    unfolding v by (auto simp: process_inv_def count_ok_def order_ok_def pending_def)
qed

lemma Handle_step_inv:
  assumes I: "process_inv k" and m: "Handle_step k = Some k'" and "k_crash k = None" "k_crash k' = None"
  shows "process_inv k'"
proof (cases "k_loop k")
  case Idle
  with m start_tick_inv[OF I] show ?thesis by (simp add: Handle_step_def)
next
  case (AtRepo i)
  with m visit_repo_inv[OF I] show ?thesis by (simp add: Handle_step_def)
next
  case AtWait
  with m end_tick_inv[OF I] show ?thesis by (auto simp: Handle_step_def split: if_splits)
next
  case (AtApp i j)
  then have k': "k' = visit_app i j k" using m by (simp add: Handle_step_def)
  show ?thesis
  proof (cases "j < length (rc_Apps (h_Repos (k_handler k) ! i))")
    case False
    with visit_app_end[OF I AtApp] k' show ?thesis by simp
  next
    case True
    show ?thesis
    proof (cases "rc_Apps (h_Repos (k_handler k) ! i) ! j")
      case None
      then have "k' = crash NilDereference k" using True k' by (simp add: visit_app_def)
      then show ?thesis using assms(4) by simp
    next
      case (Some a)
      have s: "slot_app (k_handler k) i j a"
        using I AtApp True Some by (simp add: slot_app_def process_inv_def pc_ok_def)
      show ?thesis
      proof (cases "a_mutex a")
        case False
        with visit_app_free[OF I AtApp s] k' show ?thesis by simp
      next
        case busy: True
        have "0 < k_wg k"
          using assms(3,4) visit_app_busy(1)[OF I AtApp s busy] k' by (simp add: wg_Add_crash split: if_splits)
        with visit_app_busy(2)[OF I AtApp s busy] k' show ?thesis by simp
      qed
    qed
  qed
qed

subsection \<open>The goroutines\<close>

lemma go_split:
  assumes "n < length gos"
  obtains xs ys where "gos = xs @ gos ! n # ys" and "length xs = n"
  using id_take_nth_drop[OF assms] assms by (metis length_take min.absorb4)

lemma pending_simps [simp]:
  "pending [] = []" "pending (xs @ ys) = pending xs @ pending ys"
  "pending (g # gs) = (if go_phase g = Counted then pending gs else g # pending gs)"
  by (simp_all add: pending_def)

lemma go_returned_inv:
  "process_inv k \<Longrightarrow> k_gos k = xs @ g # ys \<Longrightarrow> go_phase g = Started \<Longrightarrow>
     process_inv (k\<lparr>k_gos := xs @ g\<lparr>go_phase := Returned\<rparr> # ys\<rparr>)"
  by (simp add: process_inv_def gos_ok_def count_ok_def order_ok_def)

lemma go_counted_inv:
  "process_inv k \<Longrightarrow> k_gos k = xs @ g # ys \<Longrightarrow> go_phase g = Returned \<Longrightarrow> 0 < k_wg k \<Longrightarrow>
     process_inv (wg_Add (- 1) (k\<lparr>k_gos := xs @ g\<lparr>go_phase := Counted\<rparr> # ys\<rparr>))"
  by (simp add: process_inv_def gos_ok_def count_ok_def order_ok_def)

lemma go_exit_inv:
  assumes I: "process_inv k" and gos: "k_gos k = xs @ g # ys" and g: "go_phase g = Counted"
    and s: "slot_app (k_handler k) i j a" "go_app g = (repo_url (h_Repos (k_handler k) ! i), a_Name a)"
  shows "process_inv ((set_handler (put_app i j (a\<lparr>a_mutex := False\<rparr>) (k_handler k)) k)\<lparr>k_world := w, k_gos := xs @ ys\<rparr>)"
proof -
  let ?h = "k_handler k" and ?b = "a\<lparr>a_mutex := False\<rparr>"
  have wf: "handler_wf ?h" and pc: "pc_ok ?h (k_loop k)" using I by (simp_all add: process_inv_def)
  have "locked_keys (put_app i j ?b ?h) = locked_keys ?h - {go_app g}"
    using put_app_locked[OF wf s(1), of ?b] s(2) by simp
  then have "gos_ok (put_app i j ?b ?h) (xs @ ys)"
    using I gos by (auto simp: process_inv_def gos_ok_def)
  moreover have "handler_wf (put_app i j ?b ?h)"
    by (rule put_app_wf[OF wf s(1)]) (use slot_app_wf[OF wf s(1)] in simp_all)
  ultimately show ?thesis
    using I put_app_visited[OF s(1) _ pc, of ?b] put_app_pc_ok gos g
    by (simp add: process_inv_def count_ok_def order_ok_def)
qed

lemma go_started_inv:
  assumes I: "process_inv k" and gos: "k_gos k = xs @ g # ys" and ph: "go_phase g = Started"
    and m: "go_step X (length xs) k = Some k'" and "k_crash k' = None"
  shows "process_inv k'"
proof -
  obtain k1 where k1: "on_app (RunLifeCycle X) (go_app g) k = Some k1"
      "k' = k1\<lparr>k_gos := (k_gos k1)[length xs := g\<lparr>go_phase := Returned\<rparr>]\<rparr>"
    using m gos ph by (auto simp: go_step_def Let_def)
  from k1(1) show ?thesis
  proof (cases rule: on_app_cases)
    case (panics q)
    with k1 assms(5) show ?thesis by simp
  next
    case (returns i j a r b w)
    have "process_inv k1"
      unfolding returns(6)
      by (rule put_app_inv[OF I returns(2)])
        (use RunLifeCycle_kept[OF returns(4,5)] slot_app_wf[OF _ returns(2)] I in \<open>simp add: process_inv_def\<close>)
    moreover have "k_gos k1 = xs @ g # ys" using returns(6) gos by simp
    ultimately show ?thesis using go_returned_inv[OF _ _ ph] k1(2) by (simp add: list_update_append)
  qed
qed

lemma go_ended_inv:
  assumes I: "process_inv k" and gos: "k_gos k = xs @ g # ys" and ph: "go_phase g = Counted"
    and m: "go_step X (length xs) k = Some k'" and "k_crash k' = None"
  shows "process_inv k'"
proof -
  obtain k1 where k1: "on_app unlock_app (go_app g) k = Some k1"
      "k' = k1\<lparr>k_gos := take (length xs) (k_gos k1) @ drop (Suc (length xs)) (k_gos k1)\<rparr>"
    using m gos ph by (auto simp: go_step_def Let_def)
  from k1(1) show ?thesis
  proof (cases rule: on_app_cases)
    case (panics q)
    with k1 assms(5) show ?thesis by simp
  next
    case (returns i j a r b w)
    have "go_app g \<in> locked_keys (k_handler k)"
      using I gos by (auto simp: process_inv_def gos_ok_def)
    then have "a_mutex a"
      using slot_app_locked[OF _ returns(2)] returns(3) I by (simp add: process_inv_def)
    then have "b = a\<lparr>a_mutex := False\<rparr>" using returns(4) by (simp add: unlock_app_cases)
    with go_exit_inv[OF I gos ph returns(2,3), of w] k1(2) returns(6) gos show ?thesis by simp
  qed
qed

lemma go_step_inv:
  assumes I: "process_inv k" and m: "go_step X n k = Some k'" and "k_crash k = None" "k_crash k' = None"
  shows "process_inv k'"
proof -
  have "n < length (k_gos k)" using m by (simp add: go_step_def split: if_splits)
  from go_split[OF this] obtain xs g ys where gos: "k_gos k = xs @ g # ys" and n: "n = length xs" by metis
  note m = m[unfolded n]
  show ?thesis
  proof (cases "go_phase g")
    case Returned
    then have "k' = wg_Add (- 1) (k\<lparr>k_gos := xs @ g\<lparr>go_phase := Counted\<rparr> # ys\<rparr>)"
      using m gos by (auto simp: go_step_def Let_def)
    with go_counted_inv[OF I gos Returned] assms(3,4) show ?thesis
      by (simp add: wg_Add_crash split: if_splits)
  next
    case Started
    then show ?thesis by (rule go_started_inv[OF I gos _ m assms(4)])
  next
    case Counted
    then show ?thesis by (rule go_ended_inv[OF I gos _ m assms(4)])
  qed
qed

subsection \<open>The other actors, and every run\<close>

lemma rpc_step_inv:
  assumes I: "process_inv k" and m: "rpc_step X cmp_equal q k = Some k'" and "k_crash k' = None"
  shows "process_inv k'"
proof -
  obtain r s w where sv: "serve X cmp_equal q (k_server k, k_world k) = (r, (s, w))" by (metis prod.exhaust)
  with m assms(3) have ret: "returns r" and "\<exists>os. k' = k\<lparr>k_server := s, k_world := w, k_orphans := os\<rparr>"
    by (cases r; auto simp: rpc_step_def)+
  then obtain os where k': "k' = k\<lparr>k_server := s, k_world := w, k_orphans := os\<rparr>" by blast
  have "handler_frame (k_handler k) (sv_Handler s)"
    by (rule serve_frame[OF sv ret]) (use I in \<open>simp add: process_inv_def\<close>)
  then have f: "handler_wf (sv_Handler s)" "h_Mutex (sv_Handler s) = h_Mutex (k_handler k)"
      "locked_keys (sv_Handler s) = locked_keys (k_handler k)"
    and u: "h_Mutex (k_handler k) \<Longrightarrow> length (h_Repos (sv_Handler s)) = length (h_Repos (k_handler k)) \<and>
        (\<forall>i<length (h_Repos (k_handler k)). repo_url (h_Repos (sv_Handler s) ! i) = repo_url (h_Repos (k_handler k) ! i) \<and>
           (rc_Mutex (h_Repos (k_handler k) ! i) \<longrightarrow> h_Repos (sv_Handler s) ! i = h_Repos (k_handler k) ! i))"
    by (auto simp: handler_frame_def)
  have pok: "pc_ok (k_handler k) (k_loop k)" using I by (simp add: process_inv_def)
  show ?thesis
  proof (cases "k_loop k = Idle")
    case True
    with I f k' show ?thesis
      by (simp add: process_inv_def pc_ok_def gos_ok_def count_ok_def order_ok_def visited_def)
  next
    case False
    then have hm: "h_Mutex (k_handler k)" using pok by (simp add: pc_ok_def)
    note u = u[OF hm]
    have urls: "map repo_url (h_Repos (sv_Handler s)) = map repo_url (h_Repos (k_handler k))"
      using u by (intro nth_equalityI) simp_all
    have "visited (sv_Handler s) (k_loop k) = visited (k_handler k) (k_loop k)"
      by (rule visited_cong[OF urls]) (use pok u in \<open>auto simp: pc_ok_def\<close>)
    moreover have "pc_ok (sv_Handler s) (k_loop k)"
      using pok u f(2) by (cases "k_loop k") (auto simp: pc_ok_def)
    ultimately show ?thesis
      using I f k' by (simp add: process_inv_def gos_ok_def count_ok_def order_ok_def)
  qed
qed

lemma act_inv:
  assumes I: "process_inv k" and m: "act X cmp_equal actor k = Some k'" and c: "k_crash k = None" "k_crash k' = None"
  shows "process_inv k'"
proof (cases actor)
  case TheLoop
  with Handle_step_inv[OF I _ c] m show ?thesis by simp
next
  case (Goroutine n)
  with go_step_inv[OF I _ c] m show ?thesis by simp
next
  case (Rpc q)
  with rpc_step_inv[OF I _ c(2)] m show ?thesis by simp
next
  case (Cleanup key)
  with m have "on_app (provider_cleanup X) key k = Some k'" by simp
  then show ?thesis
  proof (cases rule: on_app_cases)
    case (panics q)
    with c show ?thesis by simp
  next
    case (returns i j a r b w)
    show ?thesis
      unfolding returns(6)
      by (rule put_app_inv[OF I returns(2)])
        (use provider_cleanup_kept[OF returns(4,5)] slot_app_wf[OF _ returns(2)] I in \<open>simp add: process_inv_def\<close>)
  qed
next
  case (Orphan n)
  with m c have "\<exists>w os. k' = k\<lparr>k_world := w, k_orphans := os\<rparr>"
    by (auto simp: orphan_step_def split: if_splits prod.splits res.splits)
  then obtain w os where "k' = k\<lparr>k_world := w, k_orphans := os\<rparr>" by blast
  with I show ?thesis by (simp add: process_inv_def count_ok_def order_ok_def)
next
  case (Deletion n)
  with m c have "\<exists>w. k' = k\<lparr>k_world := w\<rparr>"
    by (auto simp: deletion_step_def Let_def split: if_splits prod.splits res.splits)
  then obtain w where "k' = k\<lparr>k_world := w\<rparr>" by blast
  with I show ?thesis by (simp add: process_inv_def count_ok_def order_ok_def)
qed

lemma started_inv: "server_inv (s, w) \<Longrightarrow> h_Repos (sv_Handler s) = [] \<Longrightarrow> process_inv (started s w)"
  by (simp add: process_inv_def started_def server_inv_def pc_ok_def gos_ok_def count_ok_def order_ok_def locked_keys_def)

lemma running_inv:
  assumes "running X cmp_equal k0 k" and "process_inv k0" and "k_crash k = None"
  shows "process_inv k"
  using assms(1,3)
proof (induction rule: running.induct)
  case start
  then show ?case using assms(2) by simp
next
  case (step k actor k')
  then show ?case using act_inv by blast
qed

subsection \<open>Schedules\<close>

lemma running_trans: "running X cmp_equal k k' \<Longrightarrow> running X cmp_equal k0 k \<Longrightarrow> running X cmp_equal k0 k'"
  by (induction rule: running.induct) (auto intro: running.intros)

lemma schedule_running:
  "schedule X cmp_equal actors k = Some k' \<Longrightarrow> running X cmp_equal k k'"
proof (induction actors arbitrary: k)
  case Nil
  then show ?case by (simp add: running.start)
next
  case (Cons actor actors)
  then obtain k1 where k1: "k_crash k = None" "act X cmp_equal actor k = Some k1"
      "schedule X cmp_equal actors k1 = Some k'"
    by (auto split: if_splits option.splits)
  from running.step[OF running.start k1(1,2)] have "running X cmp_equal k k1" .
  from running_trans[OF Cons.IH[OF k1(3)] this] show ?case .
qed

lemma schedule_append: "schedule X cmp_equal (xs @ ys) k =
    (case schedule X cmp_equal xs k of None \<Rightarrow> None | Some k' \<Rightarrow> schedule X cmp_equal ys k')"
  by (induction xs arbitrary: k) (auto split: option.splits)

subsection \<open>Busy applications\<close>

lemma app_not_visited:
  assumes wf: "handler_wf h" and s: "slot_app h i j a"
  shows "(repo_url (h_Repos h ! i), a_Name a) \<notin> visited h (AtApp i j)"
proof
  assume "(repo_url (h_Repos h ! i), a_Name a) \<in> visited h (AtApp i j)"
  then consider "repo_url (h_Repos h ! i) \<in> repo_url ` set (take i (h_Repos h))"
    | "a_Name a \<in> a_Name ` set (live_apps (take j (rc_Apps (h_Repos h ! i))))"
    by (auto simp: visited_def)
  then show False
  proof cases
    case 1
    have "distinct (map repo_url (take i (h_Repos h) @ h_Repos h ! i # drop (Suc i) (h_Repos h)))"
      using wf id_take_nth_drop[of i "h_Repos h"] s unfolding slot_app_def handler_wf_def by metis
    with 1 show False by auto
  next
    case 2
    have d: "distinct (map a_Name (live_apps (rc_Apps (h_Repos h ! i))))"
      using slot_app_wf[OF wf s] by (simp add: slots_wf_def)
    have "live_apps (rc_Apps (h_Repos h ! i)) = live_apps (take j (rc_Apps (h_Repos h ! i))) @
        a # live_apps (drop (Suc j) (rc_Apps (h_Repos h ! i)))"
      by (rule live_apps_split) (use s in \<open>simp_all add: slot_app_def\<close>)
    from d[unfolded this] 2 show False by simp
  qed
qed

lemma busy_app_counted:
  assumes I: "process_inv k" and pc: "k_loop k = AtApp i j" and s: "slot_app (k_handler k) i j a"
    and "a_mutex a" and "k_busy k = 0"
  shows "\<exists>g\<in>set (k_gos k). go_app g = (repo_url (h_Repos (k_handler k) ! i), a_Name a) \<and> go_phase g = Counted"
proof -
  let ?h = "k_handler k" and ?key = "(repo_url (h_Repos (k_handler k) ! i), a_Name a)"
  have wf: "handler_wf ?h" using I by (simp add: process_inv_def)
  have "?key \<in> go_app ` set (k_gos k)"
    using slot_app_locked[OF wf s] assms(4) I by (simp add: process_inv_def gos_ok_def)
  then obtain g where g: "g \<in> set (k_gos k)" "go_app g = ?key" by auto
  then have "g \<notin> set (pending (k_gos k))"
    using I pc app_not_visited[OF wf s] assms(5) by (auto simp: process_inv_def order_ok_def)
  with g show ?thesis by (auto simp: pending_def)
qed

end
