(* ===== verification/TickProofs.thy ===== *)
theory TickProofs
  imports ProcessProofs
begin

section \<open>A tick ends\<close>

text \<open>
  The steps of a tick that has begun: the loop's, until it is idle again, and those of the application
  goroutines. \<open>tick_work\<close> bounds how many are left.
\<close>

inductive tick_step :: "'e externals \<Rightarrow> 'e process \<Rightarrow> 'e process \<Rightarrow> bool" for X where
  loop: "k_crash k = None \<Longrightarrow> k_loop k \<noteq> Idle \<Longrightarrow> Handle_step k = Some k' \<Longrightarrow> tick_step X k k'"
| go: "k_crash k = None \<Longrightarrow> go_step X n k = Some k' \<Longrightarrow> tick_step X k k'"

inductive_cases tick_stepE: "tick_step X k k'"

definition repo_work :: "repo_config \<Rightarrow> nat" where
  "repo_work r = 4 * length (rc_Apps r) + 2"

definition loop_work :: "handler \<Rightarrow> loop_pc \<Rightarrow> nat" where
  "loop_work h pc =
     (case pc of
        Idle \<Rightarrow> 0
      | AtWait \<Rightarrow> 1
      | AtRepo i \<Rightarrow> 2 + sum_list (map repo_work (drop i (h_Repos h)))
      | AtApp i j \<Rightarrow> 3 + 4 * (length (rc_Apps (h_Repos h ! i)) - j) +
          sum_list (map repo_work (drop (Suc i) (h_Repos h))))"

fun phase_work :: "go_phase \<Rightarrow> nat" where
  "phase_work Started = 3"
| "phase_work Returned = 2"
| "phase_work Counted = 1"

definition tick_work :: "'e process \<Rightarrow> nat" where
  "tick_work k = loop_work (k_handler k) (k_loop k) + sum_list (map (phase_work \<circ> go_phase) (k_gos k))"

lemma repo_work_put: "map repo_work (h_Repos (put_app i j b h)) = map repo_work (h_Repos h)"
  by (rule nth_equalityI) (simp_all add: repo_work_def put_app_repo)

lemma repo_work_mutex: "i < length (h_Repos h) \<Longrightarrow>
    map repo_work (h_Repos (set_repo_mutex i m h)) = map repo_work (h_Repos h)"
  by (rule nth_equalityI) (simp_all add: repo_work_def set_repo_mutex_nth)

lemma loop_work_cong:
  assumes "map repo_work (h_Repos h') = map repo_work (h_Repos h)"
    and "\<And>i. length (rc_Apps (h_Repos h' ! i)) = length (rc_Apps (h_Repos h ! i))"
  shows "loop_work h' pc = loop_work h pc"
proof -
  have "map repo_work (drop n (h_Repos h')) = map repo_work (drop n (h_Repos h))" for n
    using assms(1) by (metis drop_map)
  then show ?thesis by (cases pc) (simp_all add: loop_work_def assms(2))
qed

lemma loop_work_put [simp]: "loop_work (put_app i j b h) pc = loop_work h pc"
  by (rule loop_work_cong[OF repo_work_put put_app_repo(3)])

lemma loop_work_mutex [simp]: "i < length (h_Repos h) \<Longrightarrow> loop_work (set_repo_mutex i m h) pc = loop_work h pc"
  by (rule loop_work_cong[OF repo_work_mutex]) (simp_all add: set_repo_mutex_nth)

lemma loop_work_mutex_field [simp]: "loop_work (h\<lparr>h_Mutex := m\<rparr>) pc = loop_work h pc"
  by (cases pc) (simp_all add: loop_work_def)

lemma loop_work_steps:
  "i < length (h_Repos h) \<Longrightarrow> loop_work h (AtRepo i) = Suc (loop_work h (AtApp i 0))"
  "i < length (h_Repos h) \<Longrightarrow> loop_work h (AtRepo (Suc i)) < loop_work h (AtRepo i)"
  "\<not> i < length (h_Repos h) \<Longrightarrow> loop_work h (AtRepo i) = 2"
  "loop_work h AtWait = 1" "loop_work h Idle = 0"
  "j < length (rc_Apps (h_Repos h ! i)) \<Longrightarrow> loop_work h (AtApp i j) = 4 + loop_work h (AtApp i (Suc j))"
  "loop_work h (AtRepo (Suc i)) < loop_work h (AtApp i j)"
  by (simp_all add: loop_work_def repo_work_def flip: Cons_nth_drop_Suc)

lemma loop_step_work:
  assumes I: "process_inv k" and m: "Handle_step k = Some k'" and n: "k_loop k \<noteq> Idle" and c: "k_crash k' = None"
  shows "tick_work k' < tick_work k"
proof (cases "k_loop k")
  case Idle
  with n show ?thesis by simp
next
  case (AtRepo i)
  with m I show ?thesis
    using loop_work_steps(1-3)[of i "k_handler k"] loop_work_steps(4)[of "k_handler k"]
    by (cases "i < length (h_Repos (k_handler k))"; cases "rc_Mutex (h_Repos (k_handler k) ! i)")
      (auto simp: Handle_step_def visit_repo_def TryLock_def tick_work_def)
next
  case AtWait
  with m I show ?thesis
    by (auto simp: Handle_step_def end_tick_def Unlock_def tick_work_def loop_work_steps process_inv_def pc_ok_def
        split: if_splits)
next
  case (AtApp i j)
  let ?r = "h_Repos (k_handler k) ! i"
  have i: "i < length (h_Repos (k_handler k))" "rc_Mutex ?r" using I AtApp by (simp_all add: process_inv_def pc_ok_def)
  have k': "k' = visit_app i j k" using m AtApp by (simp add: Handle_step_def)
  show ?thesis
  proof (cases "j < length (rc_Apps ?r)")
    case False
    with i k' AtApp loop_work_steps(7)[of "k_handler k" i j] show ?thesis
      by (simp add: visit_app_def Unlock_def tick_work_def)
  next
    case True
    note w = loop_work_steps(6)[OF True]
    show ?thesis
    proof (cases "rc_Apps ?r ! j")
      case None
      with True k' c show ?thesis by (simp add: visit_app_def)
    next
      case (Some a)
      with True k' AtApp w show ?thesis
        by (cases "a_mutex a") (simp_all add: visit_app_def TryLock_def Let_def tick_work_def)
    qed
  qed
qed

lemma on_app_fields:
  assumes "on_app m key k = Some k'" and "k_crash k' = None"
  shows "k_gos k' = k_gos k" "k_loop k' = k_loop k" "k_wg k' = k_wg k" "k_busy k' = k_busy k"
    "loop_work (k_handler k') pc = loop_work (k_handler k) pc" "k_crash k' = k_crash k" "k_started k' = k_started k"
  using assms by (auto elim!: on_app_cases)

lemma go_step_work:
  assumes m: "go_step X n k = Some k'" and c: "k_crash k' = None"
  shows "tick_work k' < tick_work k"
proof -
  have n: "n < length (k_gos k)" using m by (simp add: go_step_def split: if_splits)
  define g where "g = k_gos k ! n"
  obtain xs ys where gos: "k_gos k = xs @ g # ys" and l: "length xs = n"
    using go_split[OF n] unfolding g_def by metis
  show ?thesis
  proof (cases "go_phase g")
    case Returned
    with m gos l show ?thesis
      by (auto simp: go_step_def Let_def tick_work_def)
  next
    case Started
    then obtain k1 where k1: "on_app (RunLifeCycle X) (go_app g) k = Some k1"
        "k' = k1\<lparr>k_gos := (k_gos k1)[n := g\<lparr>go_phase := Returned\<rparr>]\<rparr>"
      using m n gos l by (auto simp: go_step_def Let_def)
    with c have "k_crash k1 = None" by simp
    with on_app_fields[OF k1(1) this] k1(2) gos l Started show ?thesis
      by (simp add: tick_work_def list_update_append)
  next
    case Counted
    then obtain k1 where k1: "on_app unlock_app (go_app g) k = Some k1"
        "k' = k1\<lparr>k_gos := take n (k_gos k1) @ drop (Suc n) (k_gos k1)\<rparr>"
      using m n gos l by (auto simp: go_step_def Let_def)
    with c have "k_crash k1 = None" by simp
    with on_app_fields[OF k1(1) this] k1(2) gos l Counted show ?thesis
      by (simp add: tick_work_def)
  qed
qed

lemma tick_step_inv:
  assumes "tick_step X k k'" and "process_inv k" and "k_crash k' = None"
  shows "process_inv k' \<and> tick_work k' < tick_work k"
  using assms(1)
proof (cases rule: tick_step.cases)
  case loop
  then show ?thesis using Handle_step_inv loop_step_work assms by blast
next
  case (go n)
  then show ?thesis using go_step_inv go_step_work assms by blast
qed

lemma tick_bounded:
  assumes "(tick_step X ^^ n) k k'" and "process_inv k"
  shows "n \<le> Suc (tick_work k)"
  using assms
proof (induction n arbitrary: k)
  case (Suc n)
  then obtain k1 where k1: "tick_step X k k1" "(tick_step X ^^ n) k1 k'" by (metis relpowp_Suc_E2)
  show ?case
  proof (cases "k_crash k1")
    case None
    with tick_step_inv[OF k1(1) Suc.prems(2)] Suc.IH[OF k1(2)] show ?thesis by simp
  next
    case (Some q)
    have "n = 0"
    proof (cases n)
      case (Suc m)
      then obtain k2 where "tick_step X k1 k2" using k1(2) by (metis relpowp_Suc_E2)
      with Some show ?thesis by (auto elim: tick_stepE)
    qed
    then show ?thesis by simp
  qed
qed simp

lemma tick_terminates:
  assumes "process_inv k"
  shows "\<exists>k'. (tick_step X)\<^sup>*\<^sup>* k k' \<and> (\<nexists>k''. tick_step X k' k'')"
  using assms
proof (induction "tick_work k" arbitrary: k rule: less_induct)
  case less
  show ?case
  proof (cases "\<exists>k1. tick_step X k k1")
    case False
    then show ?thesis by blast
  next
    case True
    then obtain k1 where k1: "tick_step X k k1" by blast
    have "\<exists>k'. (tick_step X)\<^sup>*\<^sup>* k1 k' \<and> (\<nexists>k''. tick_step X k' k'')"
    proof (cases "k_crash k1")
      case None
      with tick_step_inv[OF k1 less.prems] less.hyps show ?thesis by blast
    next
      case (Some q)
      then have "\<nexists>k''. tick_step X k1 k''" by (auto elim: tick_stepE)
      then show ?thesis by blast
    qed
    with k1 show ?thesis by (meson converse_rtranclp_into_rtranclp)
  qed
qed

subsection \<open>Progress\<close>

text \<open>
  \<open>life_returns X k\<close>: in the state \<open>k\<close>, every life cycle that a goroutine is about to run comes back, on the
  application it is for and the world as they are.
\<close>

definition life_returns :: "'e externals \<Rightarrow> 'e process \<Rightarrow> bool" where
  "life_returns X k \<longleftrightarrow>
     (\<forall>g\<in>set (k_gos k). \<forall>i j a. go_phase g = Started \<and> slot_app (k_handler k) i j a \<and>
        go_app g = (repo_url (h_Repos (k_handler k) ! i), a_Name a) \<longrightarrow>
        returns (fst (RunLifeCycle X (a, k_world k))))"

lemma go_progress:
  assumes I: "process_inv k" and g: "g \<in> set (k_gos k)" and life: "life_returns X k"
  shows "\<exists>n k'. go_step X n k = Some k'"
proof -
  obtain n where n: "n < length (k_gos k)" "k_gos k ! n = g" using g by (metis in_set_conv_nth)
  have "go_app g \<in> locked_keys (k_handler k)" using I g by (auto simp: process_inv_def gos_ok_def)
  with locate_locked I obtain i j a where l: "locate (k_handler k) (go_app g) = Some (i, j)"
      "slot_app (k_handler k) i j a" "a_mutex a"
    unfolding process_inv_def by metis
  have a: "app_at (k_handler k) (i, j) = a" using l(2) by (simp add: app_at_def slot_app_def)
  have key: "go_app g = (repo_url (h_Repos (k_handler k) ! i), a_Name a)"
    using locate_Some[OF l(1)] l(2) by (auto simp: slot_app_def)
  have on: "\<exists>k'. on_app m (go_app g) k = Some k'" if "fst (m (a, k_world k)) \<noteq> Spin"
    for m :: "(application \<times> 'a world, unit) comp"
    using that l a by (cases "m (a, k_world k)"; cases "fst (m (a, k_world k))") (auto simp: on_app_def)
  show ?thesis
  proof (cases "go_phase g")
    case Started
    then have "returns (fst (RunLifeCycle X (a, k_world k)))" using life g l(2) key by (simp add: life_returns_def)
    then have "fst (RunLifeCycle X (a, k_world k)) \<noteq> Spin" by auto
    with on[of "RunLifeCycle X"] Started n show ?thesis by (intro exI[of _ n]) (auto simp: go_step_def Let_def)
  next
    case Returned
    with n show ?thesis by (intro exI[of _ n]) (simp add: go_step_def Let_def)
  next
    case Counted
    have "fst (unlock_app (a, k_world k)) \<noteq> Spin" by (simp add: unlock_app_cases[OF l(3)])
    with on[of unlock_app] Counted n show ?thesis by (intro exI[of _ n]) (auto simp: go_step_def Let_def)
  qed
qed

lemma tick_progress:
  assumes I: "process_inv k" and "k_crash k = None" and life: "life_returns X k"
    and stuck: "\<nexists>k'. tick_step X k k'"
  shows "k_loop k = Idle \<and> k_gos k = []"
proof -
  have gos: "k_gos k = []"
    using go_progress[OF I _ life] stuck assms(2) by (cases "k_gos k") (auto intro: tick_step.go)
  then have "k_wg k = 0" using I by (auto simp: process_inv_def count_ok_def)
  then have "\<exists>k'. Handle_step k = Some k'" by (simp add: Handle_step_def split: loop_pc.split)
  then have "k_loop k = Idle" using stuck tick_step.loop[OF assms(2)] by blast
  with gos show ?thesis by simp
qed

lemma tick_steps_inv:
  "(tick_step X)\<^sup>*\<^sup>* k k' \<Longrightarrow> process_inv k \<Longrightarrow> k_crash k' = None \<Longrightarrow> process_inv k'"
proof (induction rule: rtranclp_induct)
  case (step y z)
  then have "k_crash y = None" by (auto elim: tick_stepE)
  with step tick_step_inv show ?case by blast
qed

subsection \<open>What a tick starts\<close>

text \<open>
  From a tick that begins with no goroutine left: however loop and goroutines interleave, no application
  is found busy, and the goroutines started are those of the applications visited, in their order.
\<close>

definition repo_keys :: "repo_config \<Rightarrow> app_key list" where
  "repo_keys r = (if rc_Mutex r then [] else map (\<lambda>a. (repo_url r, a_Name a)) (live_apps (rc_Apps r)))"

definition due :: "handler \<Rightarrow> loop_pc \<Rightarrow> app_key list" where
  "due h pc =
     (case pc of
        AtRepo i \<Rightarrow> concat (map repo_keys (take i (h_Repos h)))
      | AtApp i j \<Rightarrow> concat (map repo_keys (take i (h_Repos h))) @
          map (\<lambda>a. (repo_url (h_Repos h ! i), a_Name a)) (live_apps (take j (rc_Apps (h_Repos h ! i))))
      | _ \<Rightarrow> concat (map repo_keys (h_Repos h)))"

text \<open>The handler has the repositories and applications of \<open>h0\<close>, but the loop may hold one of the mutexes.\<close>

definition same_shape :: "handler \<Rightarrow> loop_pc \<Rightarrow> handler \<Rightarrow> bool" where
  "same_shape h0 pc h \<longleftrightarrow>
     map repo_url (h_Repos h) = map repo_url (h_Repos h0) \<and>
     (\<forall>n<length (h_Repos h0). names (rc_Apps (h_Repos h ! n)) = names (rc_Apps (h_Repos h0 ! n)) \<and>
        rc_Mutex (h_Repos h ! n) = (rc_Mutex (h_Repos h0 ! n) \<or> (\<exists>j. pc = AtApp n j))) \<and>
     (\<forall>i j. pc = AtApp i j \<longrightarrow> \<not> rc_Mutex (h_Repos h0 ! i))"

definition tick_inv :: "'e process \<Rightarrow> 'e process \<Rightarrow> bool" where
  "tick_inv k0 k \<longleftrightarrow>
     process_inv k \<and> k_busy k = 0 \<and> same_shape (k_handler k0) (k_loop k) (k_handler k) \<and>
     k_started k = k_started k0 @ due (k_handler k0) (k_loop k) \<and>
     (k_loop k \<noteq> Idle \<longrightarrow> go_app ` set (k_gos k) \<subseteq> visited (k_handler k) (k_loop k))"

lemma live_names_map: "map a_Name (live_apps slots) = map the (filter (\<lambda>x. x \<noteq> None) (names slots))"
proof (induction slots)
  case (Cons slot slots)
  then show ?case by (cases slot) auto
qed simp

lemma same_shape_put: "slot_app h i j a \<Longrightarrow> a_Name b = a_Name a \<Longrightarrow> same_shape h0 pc h \<Longrightarrow> same_shape h0 pc (put_app i j b h)"
  by (simp add: same_shape_def put_app_urls put_app_names put_app_repo)

lemma same_shape_length: "same_shape h0 pc h \<Longrightarrow> length (h_Repos h) = length (h_Repos h0)"
  unfolding same_shape_def by (metis length_map)

lemma due_app:
  assumes "slot_app h i j a" and "same_shape h0 pc h"
  shows "due h0 (AtApp i (Suc j)) = due h0 (AtApp i j) @ [(repo_url (h_Repos h ! i), a_Name a)]"
proof -
  have i: "i < length (h_Repos h0)" using assms same_shape_length by (metis slot_app_def)
  have n: "names (rc_Apps (h_Repos h ! i)) = names (rc_Apps (h_Repos h0 ! i))"
    and u: "repo_url (h_Repos h ! i) = repo_url (h_Repos h0 ! i)"
    using assms i same_shape_length[OF assms(2)] unfolding same_shape_def by (simp, metis nth_map)
  have j: "j < length (rc_Apps (h_Repos h0 ! i))" using n assms(1) unfolding slot_app_def by (metis length_map)
  have "map_option a_Name (rc_Apps (h_Repos h0 ! i) ! j) = Some (a_Name a)"
    using n assms(1) j unfolding slot_app_def by (metis nth_map option.simps(9))
  then obtain b where "rc_Apps (h_Repos h0 ! i) ! j = Some b" "a_Name b = a_Name a" by auto
  with j u show ?thesis by (simp add: due_def take_Suc_conv_app_nth)
qed

lemma due_steps:
  "i < length (h_Repos h) \<Longrightarrow> due h (AtRepo (Suc i)) = due h (AtRepo i) @ repo_keys (h_Repos h ! i)"
  "due h (AtApp i 0) = due h (AtRepo i)"
  "\<not> i < length (h_Repos h) \<Longrightarrow> due h (AtRepo i) = due h AtWait"
  "i < length (h_Repos h) \<Longrightarrow> length (rc_Apps (h_Repos h ! i)) \<le> j \<Longrightarrow> \<not> rc_Mutex (h_Repos h ! i) \<Longrightarrow>
     due h (AtRepo (Suc i)) = due h (AtApp i j)"
  "due h Idle = due h AtWait"
  by (simp_all add: due_def take_Suc_conv_app_nth repo_keys_def)

lemma same_shape_mutex: "i < length (h_Repos h) \<Longrightarrow> same_shape h0 pc h \<Longrightarrow>
    (\<And>n j. pc' = AtApp n j \<Longrightarrow> n = i \<and> \<not> rc_Mutex (h_Repos h0 ! i)) \<Longrightarrow>
    (\<And>n j. pc = AtApp n j \<Longrightarrow> n = i) \<Longrightarrow>
    m = (rc_Mutex (h_Repos h0 ! i) \<or> (\<exists>j. pc' = AtApp i j)) \<Longrightarrow>
    same_shape h0 pc' (set_repo_mutex i m h)"
  unfolding same_shape_def by (auto simp: set_repo_mutex_urls set_repo_mutex_nth)

lemma same_shape_pc: "same_shape h0 pc h \<Longrightarrow> (\<forall>i j. pc \<noteq> AtApp i j) \<Longrightarrow> (\<forall>i j. pc' \<noteq> AtApp i j) \<Longrightarrow>
    same_shape h0 pc' (h\<lparr>h_Mutex := m\<rparr>) \<and> same_shape h0 pc' h"
  by (simp add: same_shape_def)

lemma loop_tick_repo:
  assumes T: "tick_inv k0 k" and pc: "k_loop k = AtRepo i"
  shows "tick_inv k0 (visit_repo i k)"
proof -
  let ?init = "k_handler k0" and ?h = "k_handler k"
  have I: "process_inv k" and sh: "same_shape ?init (AtRepo i) ?h" and st: "k_started k = k_started k0 @ due ?init (AtRepo i)"
    and vis: "go_app ` set (k_gos k) \<subseteq> visited ?h (AtRepo i)" and b: "k_busy k = 0"
    using T pc by (auto simp: tick_inv_def)
  note len = same_shape_length[OF sh]
  note P = visit_repo_inv[OF I pc]
  consider (past) "\<not> i < length (h_Repos ?h)"
    | (locked) "i < length (h_Repos ?h)" "rc_Mutex (h_Repos ?h ! i)"
    | (free) "i < length (h_Repos ?h)" "\<not> rc_Mutex (h_Repos ?h ! i)" by blast
  then show ?thesis
  proof cases
    case past
    then have v: "visit_repo i k = k\<lparr>k_loop := AtWait\<rparr>" by (simp add: visit_repo_def)
    with past P b st len same_shape_pc[OF sh] show ?thesis
      by (simp add: tick_inv_def due_steps(3) visited_def)
  next
    case locked
    then have v: "visit_repo i k = k\<lparr>k_loop := AtRepo (Suc i)\<rparr>" by (simp add: visit_repo_def TryLock_def)
    have "rc_Mutex (h_Repos ?init ! i)" using sh locked len by (auto simp: same_shape_def)
    then have "due ?init (AtRepo (Suc i)) = due ?init (AtRepo i)" using locked len by (simp add: due_steps(1) repo_keys_def)
    moreover have "visited ?h (AtRepo i) \<subseteq> visited ?h (AtRepo (Suc i))"
      using locked by (auto simp: visited_def take_Suc_conv_app_nth)
    ultimately show ?thesis
      using P b st vis same_shape_pc[OF sh, of "AtRepo (Suc i)"] unfolding v by (auto simp: tick_inv_def)
  next
    case free
    then have v: "visit_repo i k = (set_handler (set_repo_mutex i True ?h) k)\<lparr>k_loop := AtApp i 0\<rparr>"
      by (simp add: visit_repo_def TryLock_def)
    have "\<not> rc_Mutex (h_Repos ?init ! i)" using sh free len by (auto simp: same_shape_def)
    then have "same_shape ?init (AtApp i 0) (set_repo_mutex i True ?h)"
      by (intro same_shape_mutex[OF free(1) sh]) auto
    with P b st vis set_repo_mutex_visited(2)[OF free(1), of True] show ?thesis
      unfolding v by (simp add: tick_inv_def due_steps(2))
  qed
qed

text \<open>The application the loop comes to is free: its key is not among those the tick has visited.\<close>

lemma tick_slot_free:
  assumes T: "tick_inv k0 k" and pc: "k_loop k = AtApp i j" and s: "slot_app (k_handler k) i j a"
  shows "\<not> a_mutex a"
proof -
  have I: "process_inv k" and vis: "go_app ` set (k_gos k) \<subseteq> visited (k_handler k) (AtApp i j)"
    using T pc by (auto simp: tick_inv_def)
  have wf: "handler_wf (k_handler k)" using I by (simp add: process_inv_def)
  show ?thesis
    using app_not_visited[OF wf s] vis slot_app_locked[OF wf s] I by (auto simp: process_inv_def gos_ok_def)
qed

lemma loop_tick_end:
  assumes T: "tick_inv k0 k" and pc: "k_loop k = AtApp i j"
    and last: "\<not> j < length (rc_Apps (h_Repos (k_handler k) ! i))"
  shows "tick_inv k0 (visit_app i j k)"
proof -
  let ?init = "k_handler k0" and ?h = "k_handler k"
  have I: "process_inv k" and sh: "same_shape ?init (AtApp i j) ?h" and st: "k_started k = k_started k0 @ due ?init (AtApp i j)"
    and vis: "go_app ` set (k_gos k) \<subseteq> visited ?h (AtApp i j)" and b: "k_busy k = 0"
    using T pc by (auto simp: tick_inv_def)
  have i: "i < length (h_Repos ?h)" "rc_Mutex (h_Repos ?h ! i)" using I pc by (simp_all add: process_inv_def pc_ok_def)
  note len = same_shape_length[OF sh]
  have n: "names (rc_Apps (h_Repos ?h ! i)) = names (rc_Apps (h_Repos ?init ! i))" and m0: "\<not> rc_Mutex (h_Repos ?init ! i)"
    using sh i len by (simp_all add: same_shape_def)
  have v: "visit_app i j k = (set_handler (set_repo_mutex i False ?h) k)\<lparr>k_loop := AtRepo (Suc i)\<rparr>"
    using i last by (simp add: visit_app_def Unlock_def)
  have "length (rc_Apps (h_Repos ?init ! i)) \<le> j" using last n by (metis length_map linorder_not_less)
  then have "due ?init (AtRepo (Suc i)) = due ?init (AtApp i j)" using i len m0 by (simp add: due_steps(4))
  moreover have "same_shape ?init (AtRepo (Suc i)) (set_repo_mutex i False ?h)"
    using m0 by (intro same_shape_mutex[OF i(1) sh]) auto
  moreover have "visited ?h (AtApp i j) \<subseteq> visited (set_repo_mutex i False ?h) (AtRepo (Suc i))"
    unfolding set_repo_mutex_visited(3)[OF i(1)] by (auto simp: visited_def)
  ultimately show ?thesis
    using visit_app_end[OF I pc last] b st vis unfolding v by (auto simp: tick_inv_def)
qed

lemma loop_tick_launch:
  assumes T: "tick_inv k0 k" and pc: "k_loop k = AtApp i j" and s: "slot_app (k_handler k) i j a"
  shows "tick_inv k0 (visit_app i j k)"
proof -
  let ?init = "k_handler k0" and ?h = "k_handler k"
  let ?b = "a\<lparr>a_mutex := True\<rparr>" and ?key = "(repo_url (h_Repos ?h ! i), a_Name a)"
  have I: "process_inv k" and sh: "same_shape ?init (AtApp i j) ?h" and st: "k_started k = k_started k0 @ due ?init (AtApp i j)"
    and vis: "go_app ` set (k_gos k) \<subseteq> visited ?h (AtApp i j)" and b: "k_busy k = 0"
    using T pc by (auto simp: tick_inv_def)
  have "pc_ok ?h (AtApp i j)" using I pc by (simp add: process_inv_def)
  note free = tick_slot_free[OF T pc s]
  have v: "visit_app i j k = (wg_Add 1 (set_handler (put_app i j ?b ?h) k))
      \<lparr>k_gos := k_gos k @ [\<lparr>go_app = ?key, go_phase = Started\<rparr>], k_started := k_started k @ [?key],
       k_loop := AtApp i (Suc j)\<rparr>"
    using s free by (simp add: visit_app_def slot_app_def TryLock_def Let_def)
  have "pc_ok ?h (AtApp i (Suc j))" using \<open>pc_ok ?h (AtApp i j)\<close> s by (auto simp: pc_ok_def slot_app_def)
  then have "visited (put_app i j ?b ?h) (AtApp i (Suc j)) = insert ?key (visited ?h (AtApp i j))"
    using put_app_visited[OF s, of ?b] visited_Suc[OF s] by simp
  moreover have "same_shape ?init (AtApp i (Suc j)) (put_app i j ?b ?h)"
    using same_shape_put[OF s _ sh, of ?b] by (simp add: same_shape_def)
  ultimately show ?thesis
    using visit_app_free[OF I pc s free] b st vis due_app[OF s sh] unfolding v by (auto simp: tick_inv_def)
qed

lemma loop_tick_app:
  assumes T: "tick_inv k0 k" and pc: "k_loop k = AtApp i j" and c: "k_crash (visit_app i j k) = None"
  shows "tick_inv k0 (visit_app i j k)"
proof (cases "j < length (rc_Apps (h_Repos (k_handler k) ! i))")
  case False
  then show ?thesis by (rule loop_tick_end[OF T pc])
next
  case True
  have i: "i < length (h_Repos (k_handler k))" using T pc by (auto simp: tick_inv_def process_inv_def pc_ok_def)
  show ?thesis
  proof (cases "rc_Apps (h_Repos (k_handler k) ! i) ! j")
    case None
    with True c show ?thesis by (simp add: visit_app_def)
  next
    case (Some a)
    with i True have "slot_app (k_handler k) i j a" by (simp add: slot_app_def)
    then show ?thesis by (rule loop_tick_launch[OF T pc])
  qed
qed

lemma loop_tick_inv:
  assumes T: "tick_inv k0 k" and m: "Handle_step k = Some k'" and n: "k_loop k \<noteq> Idle" and "k_crash k' = None"
  shows "tick_inv k0 k'"
proof (cases "k_loop k")
  case AtWait
  with m have w: "k_wg k = 0" and k': "k' = end_tick k" by (simp_all add: Handle_step_def split: if_splits)
  have I: "process_inv k" using T by (simp add: tick_inv_def)
  then have "h_Mutex (k_handler k)" using AtWait by (simp add: process_inv_def pc_ok_def)
  then have "end_tick k = (set_handler ((k_handler k)\<lparr>h_Mutex := False\<rparr>) k)\<lparr>k_loop := Idle\<rparr>"
    by (simp add: end_tick_def Unlock_def)
  with T AtWait k' end_tick_inv[OF I AtWait w] same_shape_pc[of "k_handler k0" AtWait "k_handler k" Idle]
  show ?thesis by (simp add: tick_inv_def due_steps(5))
qed (use assms loop_tick_repo loop_tick_app in \<open>auto simp: Handle_step_def\<close>)

lemma on_app_shape:
  assumes "on_app m key k = Some k1" and "k_crash k1 = None"
    and "\<And>a w r b v. m (a, w) = (r, (b, v)) \<Longrightarrow> returns r \<Longrightarrow>
      slot_app (k_handler k) (fst (the (locate (k_handler k) key))) (snd (the (locate (k_handler k) key))) a \<Longrightarrow>
      a_Name b = a_Name a"
  shows "\<exists>i j a b. slot_app (k_handler k) i j a \<and> a_Name b = a_Name a \<and> k_handler k1 = put_app i j b (k_handler k)"
  using assms(1)
proof (cases rule: on_app_cases)
  case (panics q)
  with assms(2) show ?thesis by simp
next
  case (returns i j a r b w)
  then have "a_Name b = a_Name a" using assms(3)[OF returns(4,5)] by simp
  with returns show ?thesis by auto
qed

lemma go_step_shape:
  assumes I: "process_inv k" and m: "go_step X n k = Some k'" and c: "k_crash k' = None"
  shows "(k_handler k' = k_handler k \<or> (\<exists>i j a b. slot_app (k_handler k) i j a \<and> a_Name b = a_Name a \<and>
      k_handler k' = put_app i j b (k_handler k))) \<and>
    k_loop k' = k_loop k \<and> k_busy k' = k_busy k \<and> k_started k' = k_started k \<and>
    go_app ` set (k_gos k') \<subseteq> go_app ` set (k_gos k)"
proof -
  have n: "n < length (k_gos k)" using m by (simp add: go_step_def split: if_splits)
  define g where "g = k_gos k ! n"
  obtain xs ys where gos: "k_gos k = xs @ g # ys" and l: "length xs = n"
    using go_split[OF n] unfolding g_def by metis
  show ?thesis
  proof (cases "go_phase g")
    case Returned
    with m gos l show ?thesis by (auto simp: go_step_def Let_def)
  next
    case Started
    then obtain k1 where k1: "on_app (RunLifeCycle X) (go_app g) k = Some k1"
        "k' = k1\<lparr>k_gos := (k_gos k1)[n := g\<lparr>go_phase := Returned\<rparr>]\<rparr>"
      using m n gos l by (auto simp: go_step_def Let_def)
    have c1: "k_crash k1 = None" using c k1(2) by simp
    have "\<exists>i j a b. slot_app (k_handler k) i j a \<and> a_Name b = a_Name a \<and> k_handler k1 = put_app i j b (k_handler k)"
      using on_app_shape[OF k1(1) c1] RunLifeCycle_kept slot_app_wf I unfolding process_inv_def app_kept_def by blast
    with on_app_fields[OF k1(1) c1] k1(2) gos l show ?thesis by (simp add: list_update_append)
  next
    case Counted
    then obtain k1 where k1: "on_app unlock_app (go_app g) k = Some k1"
        "k' = k1\<lparr>k_gos := take n (k_gos k1) @ drop (Suc n) (k_gos k1)\<rparr>"
      using m n gos l by (auto simp: go_step_def Let_def)
    have c1: "k_crash k1 = None" using c k1(2) by simp
    have u: "unlock_app (a, w) = (r, (b, v)) \<Longrightarrow> a_Name b = a_Name a" for a b r and w v :: "'a world"
      by (auto simp: unlock_app_def split: prod.splits)
    have "\<exists>i j a b. slot_app (k_handler k) i j a \<and> a_Name b = a_Name a \<and> k_handler k1 = put_app i j b (k_handler k)"
      using on_app_shape[OF k1(1) c1] u by blast
    with on_app_fields[OF k1(1) c1] k1(2) gos l show ?thesis by (auto simp: list_update_append)
  qed
qed

lemma go_tick_inv:
  assumes T: "tick_inv k0 k" and m: "go_step X n k = Some k'" and c: "k_crash k = None" "k_crash k' = None"
  shows "tick_inv k0 k'"
proof -
  have I: "process_inv k" using T by (simp add: tick_inv_def)
  have I': "process_inv k'" by (rule go_step_inv[OF I m c])
  have pc: "pc_ok (k_handler k) (k_loop k)" using I by (simp add: process_inv_def)
  note sh = go_step_shape[OF I m c(2)]
  then consider "k_handler k' = k_handler k"
    | i j a b where "slot_app (k_handler k) i j a" "a_Name b = a_Name a" "k_handler k' = put_app i j b (k_handler k)"
    by blast
  then have "same_shape (k_handler k0) (k_loop k) (k_handler k') \<and>
      visited (k_handler k') (k_loop k) = visited (k_handler k) (k_loop k)"
  proof cases
    case 1
    with T show ?thesis by (simp add: tick_inv_def)
  next
    case 2
    with T show ?thesis using same_shape_put[OF 2(1,2)] put_app_visited[OF 2(1,2) pc] by (simp add: tick_inv_def)
  qed
  with T I' sh show ?thesis by (auto simp: tick_inv_def)
qed

text \<open>A tick that begins, with no goroutine left over, and what follows until the loop is idle again.\<close>

lemma start_tick_tick_inv:
  assumes I: "process_inv k0" and "k_loop k0 = Idle" "k_gos k0 = []"
  shows "tick_inv k0 (start_tick k0)" and "k_loop (start_tick k0) = AtRepo 0"
proof -
  have m: "\<not> h_Mutex (k_handler k0)" using assms by (simp add: process_inv_def pc_ok_def)
  have b: "k_busy k0 = 0" using assms by (simp add: process_inv_def count_ok_def)
  show "k_loop (start_tick k0) = AtRepo 0" using m by (simp add: start_tick_def TryLock_def)
  have "same_shape (k_handler k0) (AtRepo 0) (k_handler k0)" by (simp add: same_shape_def)
  then have "same_shape (k_handler k0) (AtRepo 0) ((k_handler k0)\<lparr>h_Mutex := True\<rparr>)" by (simp add: same_shape_def)
  with start_tick_inv[OF I assms(2)] m b assms(3) show "tick_inv k0 (start_tick k0)"
    by (simp add: tick_inv_def start_tick_def TryLock_def due_def)
qed

lemma tick_steps_tick_inv:
  "(tick_step X)\<^sup>*\<^sup>* k k' \<Longrightarrow> tick_inv k0 k \<Longrightarrow> k_crash k' = None \<Longrightarrow> tick_inv k0 k'"
proof (induction rule: rtranclp_induct)
  case (step y z)
  then have y: "k_crash y = None" by (auto elim: tick_stepE)
  with step have "tick_inv k0 y" by simp
  from step(2) show ?case
  proof (cases rule: tick_step.cases)
    case loop
    with loop_tick_inv \<open>tick_inv k0 y\<close> step(5) show ?thesis by blast
  next
    case (go n)
    with go_tick_inv \<open>tick_inv k0 y\<close> y step(5) show ?thesis by blast
  qed
qed

subsection \<open>A tick without panics\<close>

definition no_nil :: "handler \<Rightarrow> bool" where
  "no_nil h \<longleftrightarrow> (\<forall>r\<in>set (h_Repos h). None \<notin> set (rc_Apps r))"

lemma same_shape_no_nil:
  assumes "same_shape h0 pc h" and "no_nil h0" and "i < length (h_Repos h)" and "j < length (rc_Apps (h_Repos h ! i))"
  shows "rc_Apps (h_Repos h ! i) ! j \<noteq> None"
proof
  assume n: "rc_Apps (h_Repos h ! i) ! j = None"
  have i: "i < length (h_Repos h0)" using assms(1,3) same_shape_length by metis
  have "names (rc_Apps (h_Repos h ! i)) = names (rc_Apps (h_Repos h0 ! i))" using assms(1) i by (simp add: same_shape_def)
  then have "j < length (rc_Apps (h_Repos h0 ! i))" "map_option a_Name (rc_Apps (h_Repos h0 ! i) ! j) = None"
    using assms(4) n by (metis length_map, metis assms(4) length_map nth_map option.simps(8))
  then have "None \<in> set (rc_Apps (h_Repos h0 ! i))" by (metis nth_mem option.map_disc_iff)
  with assms(2) i show False by (metis no_nil_def nth_mem)
qed

lemma on_app_no_crash:
  assumes "on_app m key k = Some k'" and "k_crash k = None"
    and "\<And>i j a. slot_app (k_handler k) i j a \<Longrightarrow> key = (repo_url (h_Repos (k_handler k) ! i), a_Name a) \<Longrightarrow>
      returns (fst (m (a, k_world k)))"
  shows "k_crash k' = None"
proof -
  from assms(1) obtain i j where l: "locate (k_handler k) key = Some (i, j)"
    by (auto simp: on_app_def split: option.splits)
  from locate_Some[OF l] obtain a where
    a: "slot_app (k_handler k) i j a" "key = (repo_url (h_Repos (k_handler k) ! i), a_Name a)"
      "app_at (k_handler k) (i, j) = a" by blast
  obtain r b w where m: "m (a, k_world k) = (r, (b, w))" by (metis prod.exhaust)
  have "returns r" using assms(3)[OF a(1,2)] m by simp
  with assms(1,2) l a(3) m show ?thesis by (cases r) (auto simp: on_app_def)
qed

lemma loop_no_crash:
  assumes T: "tick_inv k0 k" and c: "k_crash k = None" and n: "k_loop k \<noteq> Idle" and m: "Handle_step k = Some k'"
    and nil: "no_nil (k_handler k0)"
  shows "k_crash k' = None"
proof -
  have I: "process_inv k" and sh: "same_shape (k_handler k0) (k_loop k) (k_handler k)" using T by (auto simp: tick_inv_def)
  show ?thesis
  proof (cases "k_loop k")
    case (AtApp i j)
    have i: "i < length (h_Repos (k_handler k))" "rc_Mutex (h_Repos (k_handler k) ! i)"
      using I AtApp by (auto simp: process_inv_def pc_ok_def)
    show ?thesis
    proof (cases "j < length (rc_Apps (h_Repos (k_handler k) ! i))")
      case False
      with m c AtApp i show ?thesis by (auto simp: Handle_step_def visit_app_def Unlock_def)
    next
      case True
      then obtain a where a: "rc_Apps (h_Repos (k_handler k) ! i) ! j = Some a"
        using same_shape_no_nil[OF sh nil i(1)] by auto
      with i True have "slot_app (k_handler k) i j a" by (simp add: slot_app_def)
      then have "\<not> a_mutex a" by (rule tick_slot_free[OF T AtApp])
      moreover have "0 \<le> k_wg k" using I by (simp add: process_inv_def count_ok_def)
      ultimately show ?thesis
        using m c AtApp True a by (auto simp: Handle_step_def visit_app_def TryLock_def Let_def wg_Add_crash)
    qed
  qed (use m c n I in \<open>auto simp: Handle_step_def visit_repo_def end_tick_def Unlock_def TryLock_def Let_def
      process_inv_def pc_ok_def split: if_splits bool.splits\<close>)
qed

lemma go_no_crash:
  assumes T: "tick_inv k0 k" and c: "k_crash k = None" and m: "go_step X n k = Some k'" and life: "life_returns X k"
  shows "k_crash k' = None"
proof -
  have I: "process_inv k" and b: "k_busy k = 0" using T by (auto simp: tick_inv_def)
  have n: "n < length (k_gos k)" using m by (simp add: go_step_def split: if_splits)
  define g where "g = k_gos k ! n"
  have g: "g \<in> set (k_gos k)" using n by (simp add: g_def)
  show ?thesis
  proof (cases "go_phase g")
    case Returned
    then have "g \<in> set (pending (k_gos k))" using g by (simp add: pending_def)
    then have "0 < k_wg k" using I b by (cases "pending (k_gos k)") (auto simp: process_inv_def count_ok_def)
    with m c Returned n show ?thesis by (auto simp: go_step_def Let_def g_def wg_Add_crash)
  next
    case Started
    then obtain k1 where k1: "on_app (RunLifeCycle X) (go_app g) k = Some k1" "k_crash k' = k_crash k1"
      using m n by (auto simp: go_step_def Let_def g_def)
    have "slot_app (k_handler k) i j a \<Longrightarrow> go_app g = (repo_url (h_Repos (k_handler k) ! i), a_Name a) \<Longrightarrow>
        returns (fst (RunLifeCycle X (a, k_world k)))" for i j a
      using life g Started by (simp add: life_returns_def)
    with on_app_no_crash[OF k1(1) c] k1(2) show ?thesis by simp
  next
    case Counted
    then obtain k1 where k1: "on_app unlock_app (go_app g) k = Some k1" "k_crash k' = k_crash k1"
      using m n by (auto simp: go_step_def Let_def g_def)
    have "go_app g \<in> locked_keys (k_handler k)" using I g by (auto simp: process_inv_def gos_ok_def)
    then have "slot_app (k_handler k) i j a \<Longrightarrow> go_app g = (repo_url (h_Repos (k_handler k) ! i), a_Name a) \<Longrightarrow>
        returns (fst (unlock_app (a, k_world k)))" for i j a
      using slot_app_locked I unlock_app_cases by (metis fst_conv process_inv_def returns_simps(1))
    with on_app_no_crash[OF k1(1) c] k1(2) show ?thesis by simp
  qed
qed

lemma tick_no_crash:
  assumes T: "tick_inv k0 k" and st: "tick_step X k k'" and nil: "no_nil (k_handler k0)" and life: "life_returns X k"
  shows "k_crash k' = None"
  using st by (cases rule: tick_step.cases) (blast intro: loop_no_crash[OF T _ _ _ nil] go_no_crash[OF T _ _ life])+

lemma tick_steps_no_crash:
  "(tick_step X)\<^sup>*\<^sup>* k k' \<Longrightarrow> tick_inv k0 k \<Longrightarrow> k_crash k = None \<Longrightarrow> no_nil (k_handler k0) \<Longrightarrow>
     (\<And>k1. (tick_step X)\<^sup>*\<^sup>* k k1 \<Longrightarrow> life_returns X k1) \<Longrightarrow> k_crash k' = None"
proof (induction rule: rtranclp_induct)
  case (step y z)
  then have "k_crash y = None" by simp
  then have "tick_inv k0 y" using tick_steps_tick_inv step(1,4) by blast
  from tick_no_crash[OF this step(2,6) step(7)[OF step(1)]] show ?case .
qed

end
