(* ===== verification/LifeProofs.thy ===== *)
theory LifeProofs
  imports TickProofs
begin

section \<open>Life cycles that come back\<close>

text \<open>
  A sufficient condition for the life cycles of a tick to come back: the calls of the libraries do, and every
  application is a Helm chart whose provider its constructor has filled in. (A raw provider reads the disk at each
  delivery and panics on some of its contents, so there the disk would have a part in such a condition.)
\<close>

subsection \<open>Computations that come back\<close>

text \<open>\<open>comes_back P m\<close>: started where \<open>P\<close> holds, \<open>m\<close> ends with a value or an error, and \<open>P\<close> holds again.\<close>

definition comes_back :: "('s \<Rightarrow> bool) \<Rightarrow> ('s, 'a) comp \<Rightarrow> bool" where
  "comes_back P m \<longleftrightarrow> (\<forall>s. P s \<longrightarrow> returns (fst (m s)) \<and> P (snd (m s)))"

lemma comes_back_pair:
  "comes_back (\<lambda>(x, w). P x) m \<longleftrightarrow> (\<forall>x w r y v. P x \<longrightarrow> m (x, w) = (r, (y, v)) \<longrightarrow> returns r \<and> P y)"
  by (simp add: comes_back_def split_beta) (metis prod.collapse fst_conv snd_conv)

named_theorems comes_back_intros \<open>a computation comes back\<close>

lemma comes_back_basic [comes_back_intros]: "comes_back P (ret a)" "comes_back P (failc e)" "comes_back P (gets f)"
  by (simp_all add: comes_back_def)

lemma comes_back_andthen [comes_back_intros]:
  "comes_back P m \<Longrightarrow> (\<And>a. comes_back P (f a)) \<Longrightarrow> comes_back P (andthen m f)"
  unfolding comes_back_def andthen_def by (fastforce split: prod.splits res.splits)

text \<open>What is read off the state satisfies what the state does.\<close>

lemma comes_back_gets_fst:
  "(\<And>x. P x \<Longrightarrow> comes_back (\<lambda>(x, w). P x) (f x)) \<Longrightarrow> comes_back (\<lambda>(x, w). P x) (andthen (gets fst) f)"
  by (fastforce simp: comes_back_def)

lemma comes_back_attempt [comes_back_intros]: "comes_back P m \<Longrightarrow> comes_back P (attempt m)"
  unfolding comes_back_def attempt_def by (fastforce split: prod.splits res.splits)

lemma comes_back_if [comes_back_intros]:
  "comes_back P m \<Longrightarrow> comes_back P m' \<Longrightarrow> comes_back P (if b then m else m')"
  by simp

lemma comes_back_case_sum [comes_back_intros]:
  "(\<And>e. comes_back P (f e)) \<Longrightarrow> (\<And>a. comes_back P (g a)) \<Longrightarrow>
     comes_back P (case x of Inl e \<Rightarrow> f e | Inr a \<Rightarrow> g a)"
  by (cases x) simp_all

lemma comes_back_case_option [comes_back_intros]:
  "comes_back P m \<Longrightarrow> (\<And>a. comes_back P (g a)) \<Longrightarrow> comes_back P (case x of None \<Rightarrow> m | Some a \<Rightarrow> g a)"
  by (cases x) simp_all

lemma comes_back_on_world [comes_back_intros]:
  "comes_back (\<lambda>w. True) m \<Longrightarrow> comes_back (\<lambda>(x, w). P x) (on_world m)"
  by (simp add: comes_back_def split_beta on_world_def)

lemma comes_back_modify: "(\<And>x. P x \<Longrightarrow> P (f x)) \<Longrightarrow> comes_back (\<lambda>(x, w). P x) (on_obj (modify f))"
  by (auto simp: comes_back_def)

lemma comes_back_deref: "p \<noteq> None \<Longrightarrow> comes_back P (deref p)"
  by (auto simp: comes_back_def deref_def)

subsection \<open>Helm deliveries\<close>

text \<open>The calls of go-git and Helm that a life cycle makes come back, whatever they are given.\<close>

definition calls_come_back :: "'e externals \<Rightarrow> bool" where
  "calls_come_back X \<longleftrightarrow>
     (\<forall>r opts. comes_back (\<lambda>w. True) (x_fetch X r opts)) \<and>
     (\<forall>r name b. comes_back (\<lambda>w. True) (x_reference X r name b)) \<and>
     (\<forall>r. comes_back (\<lambda>w. True) (x_worktree X r)) \<and>
     (\<forall>wt opts dirs. comes_back (\<lambda>w. True) (x_reset_sparsely X wt opts dirs)) \<and>
     (\<forall>wt opts. comes_back (\<lambda>w. True) (x_checkout X wt opts)) \<and>
     (\<forall>wt opts. comes_back (\<lambda>w. True) (x_pull X wt opts)) \<and>
     (\<forall>r flt. comes_back (\<lambda>w. True) (x_log X r flt)) \<and>
     (\<forall>opts. comes_back (\<lambda>w. True) (x_release_list X opts)) \<and>
     (\<forall>m. comes_back (\<lambda>w. True) (x_manager_update X m)) \<and>
     (\<forall>path. comes_back (\<lambda>w. True) (x_chart_load X path)) \<and>
     (\<forall>st files. comes_back (\<lambda>w. True) (x_merge_values X st files)) \<and>
     (\<forall>opts ch vs. comes_back (\<lambda>w. True) (x_install X opts ch vs)) \<and>
     (\<forall>opts name ch vs. comes_back (\<lambda>w. True) (x_upgrade X opts name ch vs)) \<and>
     (\<forall>opts name. comes_back (\<lambda>w. True) (x_uninstall X opts name))"

lemma helm_log_comes_back: "comes_back (\<lambda>(h, w). helm_ok h) helm_log"
  by (auto simp: comes_back_def helm_ok_def helm_log_def)

lemma helm_check_comes_back:
  "comes_back (\<lambda>(h, w). helm_ok h) m \<Longrightarrow> comes_back (\<lambda>(h, w). helm_ok h) (helm_check m)"
  unfolding helm_check_def by (intro comes_back_intros helm_log_comes_back)

lemma helm_modify_comes_back:
  "(\<And>h. helm_ok (f h) = helm_ok h) \<Longrightarrow> comes_back (\<lambda>(h, w). helm_ok h) (on_obj (modify f))"
  by (intro comes_back_modify) simp

lemma helm_ok_deref: "helm_ok h \<Longrightarrow> hp_manager h \<noteq> None" "helm_ok h \<Longrightarrow> hp_settings h \<noteq> None"
  by (simp_all add: helm_ok_def)

lemmas helm_comes_back = comes_back_intros comes_back_gets_fst helm_check_comes_back helm_log_comes_back
  helm_modify_comes_back comes_back_deref helm_ok_deref

lemma helm_Delivery_comes_back:
  assumes "calls_come_back X"
  shows "comes_back (\<lambda>(h, w). helm_ok h) (helm_Delivery X revision)"
  using assms unfolding calls_come_back_def helm_Delivery_def helm_defs NewHelmChartValues_def getCurrentRelease_def
  by (intro helm_comes_back) (simp_all add: helm_ok_def)

subsection \<open>Life cycles of charts\<close>

definition chart_app :: "application \<Rightarrow> bool" where
  "chart_app a \<longleftrightarrow> (case a_deliveryProvider a of Raw p \<Rightarrow> False | Helm h \<Rightarrow> helm_ok h)"

lemma chart_app_mutex [simp]: "chart_app (a\<lparr>a_mutex := m\<rparr>) = chart_app a"
  and chart_app_revision [simp]: "chart_app (a\<lparr>a_CurrentRevision := h\<rparr>) = chart_app a"
  by (cases a; simp add: chart_app_def)+

lemma app_Delivery_comes_back:
  assumes "calls_come_back X"
  shows "comes_back (\<lambda>(a, w). chart_app a) (app_Delivery X)"
proof -
  have "returns r \<and> chart_app b" if "chart_app a" "app_Delivery X (a, w) = (r, (b, v))" for a w r b v
  proof -
    from that(1) obtain h where h: "a_deliveryProvider a = Helm h" "helm_ok h"
      by (auto simp: chart_app_def split: delivery_provider.splits)
    obtain r1 h' w' where d: "helm_Delivery X (a_CurrentRevision a) (h, w) = (r1, (h', w'))" by (metis prod.exhaust)
    then have "returns r1 \<and> helm_ok h'"
      using helm_Delivery_comes_back[OF assms, of "a_CurrentRevision a"] h(2) unfolding comes_back_pair by blast
    with that(2) d h(1) show ?thesis
      by (auto simp: app_Delivery_def app_call_def provider_Delivery_def on_helm_def chart_app_def)
  qed
  then show ?thesis unfolding comes_back_pair by blast
qed

lemma RunLifeCycle_comes_back:
  assumes "calls_come_back X"
  shows "comes_back (\<lambda>(a, w). chart_app a) (RunLifeCycle X)"
proof -
  have "comes_back (\<lambda>w. True) (update_worktree X a)" for a
    using assms unfolding calls_come_back_def update_worktree_def by (intro comes_back_intros) simp_all
  moreover have "comes_back (\<lambda>w. True) (getApplicationHeadRevision X a)" for a
    using assms unfolding calls_come_back_def getApplicationHeadRevision_def getRevisionHashList_def
      getRevisionsWithPathFilter_def by (intro comes_back_intros) simp_all
  ultimately show ?thesis
    using assms unfolding calls_come_back_def RunLifeCycle_def deliver_head_def
    by (intro comes_back_intros app_Delivery_comes_back[OF assms] comes_back_modify) simp_all
qed

subsection \<open>The applications of a store\<close>

definition all_apps :: "(application \<Rightarrow> bool) \<Rightarrow> handler \<Rightarrow> bool" where
  "all_apps Q h \<longleftrightarrow> (\<forall>r\<in>set (h_Repos h). \<forall>a. Some a \<in> set (rc_Apps r) \<longrightarrow> Q a)"

lemma all_apps_slot: "all_apps Q h \<Longrightarrow> slot_app h i j a \<Longrightarrow> Q a"
  by (auto simp: all_apps_def slot_app_def) (metis nth_mem)

lemma all_apps_mutex [simp]: "all_apps Q (h\<lparr>h_Mutex := m\<rparr>) = all_apps Q h"
  by (simp add: all_apps_def)

lemma all_apps_repo:
  assumes "all_apps Q h"
    and "\<And>a. i < length (h_Repos h) \<Longrightarrow> Some a \<in> set (rc_Apps r) \<Longrightarrow> Some a \<in> set (rc_Apps (h_Repos h ! i)) \<or> Q a"
  shows "all_apps Q (h\<lparr>h_Repos := (h_Repos h)[i := r]\<rparr>)"
proof (cases "i < length (h_Repos h)")
  case True
  then have "h_Repos h ! i \<in> set (h_Repos h)" by simp
  then have "Some a \<in> set (rc_Apps r) \<Longrightarrow> Q a" for a
    using assms(1) assms(2)[OF True, of a] unfolding all_apps_def by blast
  with assms(1) show ?thesis
    using set_update_subset_insert[of "h_Repos h" i r] by (auto simp: all_apps_def)
qed (use assms(1) in \<open>simp add: list_update_beyond\<close>)

lemma all_apps_put: "all_apps Q h \<Longrightarrow> (i < length (h_Repos h) \<Longrightarrow> Q b) \<Longrightarrow> all_apps Q (put_app i j b h)"
  unfolding put_app_def using set_update_subset_insert[of "rc_Apps (h_Repos h ! i)" j "Some b"]
  by (intro all_apps_repo) auto

lemma all_apps_repo_mutex: "all_apps Q h \<Longrightarrow> all_apps Q (set_repo_mutex i m h)"
  unfolding set_repo_mutex_def by (rule all_apps_repo) simp_all

lemma handler_simps [simp]:
  "k_handler (crash q k) = k_handler k" "k_handler (wg_Add n k) = k_handler k" "k_handler (set_handler h k) = h"
  by (simp_all add: wg_Add_def crash_def set_handler_def Let_def)

lemma Handle_step_apps:
  assumes Q: "\<And>a m. Q (a\<lparr>a_mutex := m\<rparr>) = Q a" and m: "Handle_step k = Some k'" and I: "all_apps Q (k_handler k)"
  shows "all_apps Q (k_handler k')"
proof -
  have "all_apps Q (put_app i j (a\<lparr>a_mutex := b\<rparr>) (k_handler k))"
    if "j < length (rc_Apps (h_Repos (k_handler k) ! i))" "rc_Apps (h_Repos (k_handler k) ! i) ! j = Some a" for i j a b
    using all_apps_slot[OF I, of i j a] that by (intro all_apps_put[OF I]) (simp add: Q slot_app_def)
  then show ?thesis
    using m I all_apps_repo_mutex[OF I]
    by (auto simp: Handle_step_def start_tick_def visit_repo_def visit_app_def end_tick_def TryLock_def Let_def
        split: loop_pc.splits option.splits if_splits prod.splits res.splits bool.splits)
qed

lemma on_app_apps:
  assumes "on_app m key k = Some k'" and I: "all_apps Q (k_handler k)"
    and "\<And>a r b w. Q a \<Longrightarrow> m (a, k_world k) = (r, (b, w)) \<Longrightarrow> returns r \<Longrightarrow> Q b"
  shows "all_apps Q (k_handler k')"
  using assms(1)
proof (cases rule: on_app_cases)
  case (returns i j a r b w)
  from returns assms(3) all_apps_slot[OF I returns(2)] show ?thesis by (auto intro: all_apps_put[OF I])
qed (use I in simp)

lemma tick_step_apps:
  assumes Q: "\<And>a m. Q (a\<lparr>a_mutex := m\<rparr>) = Q a" and life: "comes_back (\<lambda>(a, w). Q a) (RunLifeCycle X)"
    and st: "tick_step X k k'" and I: "all_apps Q (k_handler k)"
  shows "all_apps Q (k_handler k')"
  using st
proof (cases rule: tick_step.cases)
  case loop
  with Handle_step_apps[OF Q _ I] show ?thesis by blast
next
  case (go n)
  have L: "all_apps Q (k_handler z)" if "on_app (RunLifeCycle X) key k = Some z" for key z
    using life on_app_apps[OF that I] unfolding comes_back_pair by blast
  have U: "all_apps Q (k_handler z)" if "on_app unlock_app key k = Some z" for key z
    by (rule on_app_apps[OF that I]) (auto simp: unlock_app_def Q split: prod.splits)
  show ?thesis
    using go(2) I by (auto simp: go_step_def Let_def split: if_splits go_phase.splits intro: L U)
qed

text \<open>In a store of charts, every life cycle of a tick comes back.\<close>

lemma chart_lives_return:
  assumes X: "calls_come_back X" and "(tick_step X)\<^sup>*\<^sup>* k k'" and "all_apps chart_app (k_handler k)"
  shows "life_returns X k'"
proof -
  note life = RunLifeCycle_comes_back[OF X]
  from assms(2,3) have "all_apps chart_app (k_handler k')"
    by (induction rule: rtranclp_induct) (simp_all add: tick_step_apps[OF chart_app_mutex life])
  then show ?thesis
    using life by (auto simp: life_returns_def comes_back_def dest: all_apps_slot)
qed

subsection \<open>Construction\<close>

lemma NewApplication_chart:
  assumes "NewApplication X K app w = (Ret a, v)" and "\<And>path u. \<exists>u'. x_is_chart_dir X path u = (Ret (), u')"
  shows "chart_app a"
proof -
  have c: "attempt (x_is_chart_dir X path) u = (Ret x, u') \<Longrightarrow> x = Inr ()" for path u x u'
    using assms(2)[of path u] by (auto simp: attempt_eq_Ret)
  have h: "object_after (NewHelmProvider X K rel path ns) h u = (Ret hp, u') \<Longrightarrow> helm_ok hp" for rel path ns h u hp u'
    using NewHelmProvider_ready(1,5,6)
    by (auto simp: object_after_def helm_ok_def split: prod.splits res.splits) blast+
  from assms(1) show ?thesis
    by (auto simp: NewApplication_def andthen_eq_Ret Let_def choose_provider_def chart_app_def app_spec.defs
        dest!: c h)
qed

end
