(* ===== verification/TickerProps.thy ===== *)
theory TickerProps
  imports LifeProofs ServiceProps
begin

section \<open>Properties of the server process\<close>

text \<open>A world whose network is down: fetching fails, everything else works.\<close>

definition sample_offline :: "sample_ext externals" where
  "sample_offline = sample_chart\<lparr>x_fetch := (\<lambda>repo opts. failc (OtherError ''network is unreachable''))\<rparr>"

lemma offline_life: "RunLifeCycle sample_offline (a, w) = (Fail (OtherError ''network is unreachable''), (a, w))"
  by (simp add: RunLifeCycle_def sample_offline_def)

text \<open>How fetching goes does not matter for building an application.\<close>

lemma chart_app_made: "\<exists>a v. NewApplication (sample_chart\<lparr>x_fetch := f\<rparr>) K app (w\<lparr>home := Some hm\<rparr>) = (Ret a, v)"
  by (simp add: NewApplication_def deref_home_def GetUserHome_def NewGitRepository_def s_clone_def
      sample_chart_def sample_def choose_provider_def object_after_def NewHelmProvider_def NewHelmManager_def NewHelmSettings_def
      NewHelmChart_def Let_def andthen_def attempt_def helm_check_def comp_defs set_ext_def)

subsection \<open>A run\<close>

text \<open>One repository with one application, registered by two requests; then a tick.\<close>

definition key0 :: app_key where
  "key0 = (''https://h/r'', ''a'')"

lemma snd_key0: "snd key0 = ''a''"
  by (simp add: key0_def)

definition repo1 :: repo_config where
  "repo1 = new_repository \<lparr>rc_Name = ''repo'', rc_Settings = request_settings repo_request, rc_auth = None\<rparr>"

definition server_with :: "application \<Rightarrow> server" where
  "server_with a = server0\<lparr>sv_Handler := (sv_Handler server0)\<lparr>h_Repos := [repo1\<lparr>rc_Apps := [Some a]\<rparr>]\<rparr>\<rparr>"

lemma repo1_url [simp]: "repo_url repo1 = ''https://h/r''"
  by (simp add: repo1_def repo_url_def request_settings_def)

lemma repo1_sel [simp]: "rc_Apps repo1 = []" "\<not> rc_Mutex repo1"
  by (simp_all add: repo1_def)

lemma chart_request_added:
  assumes "application_GetUrl inm = ''https://h/r''"
  shows "\<exists>a v. rpc_AddOrUpdateApplication (sample_chart\<lparr>x_fetch := f\<rparr>) five_equal inm (server1, pod_world) =
       (Ret (), (server_with a, v)) \<and>
     a_Name a = application_GetName inm \<and> \<not> a_mutex a \<and> chart_app a"
proof -
  let ?X = "sample_chart\<lparr>x_fetch := f\<rparr>"
  let ?app = "request_app inm (repo_core.truncate repo1)"
  have h: "pod_world\<lparr>home := Some ''/root''\<rparr> = pod_world" by (simp add: pod_world_def git_world_def)
  obtain a v where n: "NewApplication ?X (sv_KubeConfig server0) ?app pod_world = (Ret a, v)"
    using chart_app_made[where app = ?app and w = pod_world and hm = "''/root''"] unfolding h by blast
  have sv: "server1 = server0\<lparr>sv_Handler := (sv_Handler server0)\<lparr>h_Repos := [repo1]\<rparr>\<rparr>"
    by (simp add: server1_def repo1_def)
  have u: "AddOrUpdateApplication ?X (sv_KubeConfig server0) five_equal ?app (repo1, pod_world) =
      (Ret (), (repo1\<lparr>rc_Mutex := False, rc_Apps := [Some a]\<rparr>, v))"
    using AddOrUpdateApplication_new[OF _ n, of repo1 five_equal] by simp
  have m: "repo1\<lparr>rc_Mutex := False\<rparr> = repo1" by (simp add: repo1_def new_repository_def repo_core.defs)
  have "repo1\<lparr>rc_Mutex := False, rc_Apps := [Some a]\<rparr> = repo1\<lparr>rc_Apps := [Some a]\<rparr>" by (simp only: m)
  with u assms have "rpc_AddOrUpdateApplication ?X five_equal inm (server1, pod_world) =
      (Ret (), (server_with a, v))"
    by (simp add: rpc_AddOrUpdateApplication_def sv GetRepositoryConfig_def on_handler_def on_repo_def server_with_def
        andthen_def attempt_def)
  then show ?thesis
    using NewApplication_fields[OF n] app_spec_truncate_fields[of a ?app] NewApplication_chart[OF n]
    by (auto simp: sample_chart_def)
qed

lemma request_added:
  assumes "application_GetUrl inm = ''https://h/r''"
  shows "\<exists>a v. rpc_AddOrUpdateApplication sample_offline five_equal inm (server1, pod_world) = (Ret (), (server_with a, v)) \<and>
     a_Name a = application_GetName inm \<and> \<not> a_mutex a"
  using chart_request_added[OF assms] unfolding sample_offline_def by blast

lemma app_added:
  "\<exists>a v. serve sample_offline five_equal (AddOrUpdateApplicationReq app_request) (server1, pod_world) =
     (Ret EmptyReply, (server_with a, v)) \<and> a_Name a = ''a'' \<and> \<not> a_mutex a"
  using request_added[of app_request] by (auto simp: replying_def)

lemma repo_added: "serve X c (AddRepositoryReq repo_request) (server0, w) = (Ret EmptyReply, (server1, w))"
  by (simp add: replying_def added_repository)

definition proc :: "application \<Rightarrow> sample_world \<Rightarrow> loop_pc \<Rightarrow> goroutine list \<Rightarrow> sample_ext process" where
  "proc a w pc gos = \<lparr>k_server = server_with a, k_world = w, k_loop = pc, k_wg = int (length (pending gos)),
     k_gos = gos, k_orphans = [], k_busy = 0, k_started = (if gos = [] then [] else [key0]), k_crash = None\<rparr>"

text \<open>The first two requests find no provider in the store, so they leave no cleanup behind.\<close>

lemma no_orphans [simp]: "fold remove1 os [] = []" "outstanding (sv_Handler server0) = []" "outstanding (sv_Handler server1) = []"
proof -
  show "fold remove1 os [] = []" by (induction os) simp_all
  show "outstanding (sv_Handler server0) = []" "outstanding (sv_Handler server1) = []"
    by (simp_all add: outstanding_def server0_def server1_def repo1_def new_repository_def repo_core.defs)
qed

lemma two_requests:
  "\<exists>a w. schedule sample_offline five_equal [Rpc (AddRepositoryReq repo_request), Rpc (AddOrUpdateApplicationReq app_request)]
      (started server0 pod_world) = Some (proc a w Idle []) \<and> a_Name a = ''a'' \<and> \<not> a_mutex a"
proof -
  obtain a w where s: "serve sample_offline five_equal (AddOrUpdateApplicationReq app_request) (server1, pod_world) =
      (Ret EmptyReply, (server_with a, w))" "a_Name a = ''a''" "\<not> a_mutex a" using app_added by blast
  then show ?thesis
    by (intro exI[of _ a] exI[of _ w])
      (simp add: started_def rpc_step_def repo_added proc_def del: serve.simps)
qed

text \<open>A tick: the application is locked and its goroutine runs; it calls \<^verbatim>\<open>Done\<close>, and the tick ends before it unlocks.\<close>

lemma server_with_sel [simp]:
  "h_Repos (sv_Handler (server_with a)) = [repo1\<lparr>rc_Apps := [Some a]\<rparr>]" "\<not> h_Mutex (sv_Handler (server_with a))"
  by (simp_all add: server_with_def server0_def)

lemma first_tick:
  assumes "a_Name a = ''a''" and "\<not> a_mutex a"
  shows "schedule sample_offline five_equal [TheLoop, TheLoop, TheLoop, Goroutine 0, Goroutine 0, TheLoop, TheLoop, TheLoop]
      (proc a w Idle []) = Some (proc (a\<lparr>a_mutex := True\<rparr>) w Idle [\<lparr>go_app = key0, go_phase = Counted\<rparr>])"
proof -
  let ?b = "a\<lparr>a_mutex := True\<rparr>" and ?r = "repo1\<lparr>rc_Mutex := True, rc_Apps := [Some (a\<lparr>a_mutex := True\<rparr>)]\<rparr>"
  let ?sv = "\<lambda>r. (server_with a)\<lparr>sv_Handler := (sv_Handler (server_with a))\<lparr>h_Mutex := True, h_Repos := [r]\<rparr>\<rparr>"
  let ?k = "\<lambda>r pc gos. (proc ?b w pc gos)\<lparr>k_server := ?sv r\<rparr>"
  have m: "repo1\<lparr>rc_Mutex := False\<rparr> = repo1" by (simp add: repo1_def new_repository_def repo_core.defs)
  have f: "GetRepositoryConfig ((sv_Handler (server_with a))\<lparr>h_Mutex := True, h_Repos := [?r]\<rparr>) (fst key0) = Some 0"
    by (simp add: GetRepositoryConfig_def key0_def)
  have l: "locate ((sv_Handler (server_with a))\<lparr>h_Mutex := True, h_Repos := [?r]\<rparr>) key0 = Some (0, 0)"
    using assms(1) by (simp add: locate_def f has_name_def snd_key0)
  have s1: "schedule sample_offline five_equal [TheLoop, TheLoop, TheLoop] (proc a w Idle []) =
      Some (?k ?r (AtApp 0 1) [\<lparr>go_app = key0, go_phase = Started\<rparr>])"
    using assms by (simp add: proc_def Handle_step_def start_tick_def visit_repo_def visit_app_def TryLock_def
        set_handler_def set_repo_mutex_def put_app_def wg_Add_def Let_def key0_def)
  have s2: "schedule sample_offline five_equal [Goroutine 0, Goroutine 0]
      (?k ?r (AtApp 0 1) [\<lparr>go_app = key0, go_phase = Started\<rparr>]) =
      Some (?k ?r (AtApp 0 1) [\<lparr>go_app = key0, go_phase = Counted\<rparr>])"
    by (simp add: proc_def go_step_def on_app_def l app_at_def offline_life set_handler_def put_app_def wg_Add_def Let_def)
  have s3: "schedule sample_offline five_equal [TheLoop, TheLoop, TheLoop]
      (?k ?r (AtApp 0 1) [\<lparr>go_app = key0, go_phase = Counted\<rparr>]) =
      Some (proc ?b w Idle [\<lparr>go_app = key0, go_phase = Counted\<rparr>])"
    by (simp add: proc_def Handle_step_def visit_app_def visit_repo_def end_tick_def Unlock_def set_handler_def
        set_repo_mutex_def Let_def server_with_def server0_def m)
  show ?thesis
    using schedule_append[of sample_offline five_equal "[TheLoop, TheLoop, TheLoop]"
        "[Goroutine 0, Goroutine 0, TheLoop, TheLoop, TheLoop]" "proc a w Idle []"]
      schedule_append[of sample_offline five_equal "[Goroutine 0, Goroutine 0]" "[TheLoop, TheLoop, TheLoop]"
        "?k ?r (AtApp 0 1) [\<lparr>go_app = key0, go_phase = Started\<rparr>]"] s1 s2 s3
    by (simp del: schedule.simps)
qed

text \<open>From the start of the server: the first tick is over, the goroutine has not unlocked yet.\<close>

lemma offline_run:
  "\<exists>a w. running sample_offline five_equal (started server0 pod_world)
      (proc (a\<lparr>a_mutex := True\<rparr>) w Idle [\<lparr>go_app = key0, go_phase = Counted\<rparr>]) \<and> a_Name a = ''a''"
proof -
  obtain a w where r: "schedule sample_offline five_equal
        [Rpc (AddRepositoryReq repo_request), Rpc (AddOrUpdateApplicationReq app_request)]
        (started server0 pod_world) = Some (proc a w Idle [])" and a: "a_Name a = ''a''" "\<not> a_mutex a"
    using two_requests by blast
  from running_trans[OF schedule_running[OF first_tick[OF a]] schedule_running[OF r]] a show ?thesis by blast
qed

lemma proc_sel [simp]:
  "k_handler (proc a w pc gos) = sv_Handler (server_with a)" "k_loop (proc a w pc gos) = pc" "k_gos (proc a w pc gos) = gos"
  "k_crash (proc a w pc gos) = None" "k_busy (proc a w pc gos) = 0" "k_wg (proc a w pc gos) = int (length (pending gos))"
  by (simp_all add: proc_def)

subsection \<open>Every interleaving\<close>

text \<open>
  C2. However the loop, its goroutines, requests, cleanups and deletions interleave from the start of the
  server on, as long as nothing has panicked: the store is well formed; the handler's mutex is locked
  exactly during a tick; the locked applications are exactly those whose goroutine has not exited, one
  goroutine each; and the \<^verbatim>\<open>WaitGroup\<close> counts the goroutines that have not called \<^verbatim>\<open>Done\<close>, less the
  applications found busy. So once an application was found busy, the process has panicked by the time
  those goroutines are done.
\<close>

theorem process_invariant:
  assumes "server_main cfg0 listen port w0 = (Ret s, w)" and "running X cmp_equal (started s w) k" and "k_crash k = None"
  shows "handler_wf (k_handler k) \<and> (h_Mutex (k_handler k) \<longleftrightarrow> k_loop k \<noteq> Idle) \<and>
    distinct (map go_app (k_gos k)) \<and> go_app ` set (k_gos k) = locked_keys (k_handler k) \<and>
    k_wg k = int (length (pending (k_gos k))) - int (k_busy k) \<and> k_busy k \<le> length (pending (k_gos k))"
proof -
  have "process_inv k"
    using running_inv[OF assms(2) _ assms(3)] started_inv server_main_inv[OF assms(1)] by blast
  then show ?thesis by (simp add: process_inv_def pc_ok_def gos_ok_def count_ok_def)
qed

theorem process_invariant_witness:
  "\<exists>k. running sample_offline five_equal (started server0 pod_world) k \<and>
     locked_keys (k_handler k) = {(''https://h/r'', ''a'')} \<and> \<not> h_Mutex (k_handler k)"
proof -
  obtain a w where r: "running sample_offline five_equal (started server0 pod_world)
      (proc (a\<lparr>a_mutex := True\<rparr>) w Idle [\<lparr>go_app = key0, go_phase = Counted\<rparr>])" using offline_run by blast
  from process_invariant[OF server0_made r] have
    "locked_keys (k_handler (proc (a\<lparr>a_mutex := True\<rparr>) w Idle [\<lparr>go_app = key0, go_phase = Counted\<rparr>])) = {key0}"
    by simp
  then show ?thesis using r unfolding key0_def by (metis proc_sel(1) server_with_sel(2))
qed

subsection \<open>Busy applications\<close>

text \<open>
  The first application the loop ever finds busy is one whose goroutine, of an earlier tick, has called
  \<^verbatim>\<open>Done\<close> but not yet unlocked the application: nothing else in the process can make an application busy
  where the loop sees it.
\<close>

lemma first_busy_application:
  assumes "server_main cfg0 listen port w0 = (Ret s, w)" and "running X cmp_equal (started s w) k" and "k_crash k = None"
    and "k_busy k = 0" and "k_loop k = AtApp i j" and "slot_app (k_handler k) i j a" and "a_mutex a"
  shows "\<exists>g\<in>set (k_gos k). go_app g = (repo_url (h_Repos (k_handler k) ! i), a_Name a) \<and> go_phase g = Counted"
proof -
  have "process_inv k"
    using running_inv[OF assms(2) _ assms(3)] started_inv server_main_inv[OF assms(1)] by blast
  from busy_app_counted[OF this assms(5,6,7,4)] show ?thesis .
qed

lemma second_tick:
  assumes "a_mutex a"
  shows "\<exists>k. schedule sample_offline five_equal [TheLoop, TheLoop] (proc a w Idle [\<lparr>go_app = key0, go_phase = Counted\<rparr>]) =
      Some k \<and> k_crash k = None \<and> k_busy k = 0 \<and> k_loop k = AtApp 0 0 \<and> slot_app (k_handler k) 0 0 a \<and>
      k_gos k = [\<lparr>go_app = key0, go_phase = Counted\<rparr>]"
  using assms by (simp add: proc_def Handle_step_def start_tick_def visit_repo_def TryLock_def set_handler_def
      set_repo_mutex_def slot_app_def)

lemma first_busy_application_witness:
  "\<exists>k g. running sample_offline five_equal (started server0 pod_world) k \<and> k_loop k = AtApp 0 0 \<and>
     g \<in> set (k_gos k) \<and> snd (go_app g) = ''a'' \<and> go_phase g = Counted"
proof -
  obtain a w where r: "running sample_offline five_equal (started server0 pod_world)
      (proc (a\<lparr>a_mutex := True\<rparr>) w Idle [\<lparr>go_app = key0, go_phase = Counted\<rparr>])" "a_Name a = ''a''"
    using offline_run by blast
  obtain k where k: "schedule sample_offline five_equal [TheLoop, TheLoop]
        (proc (a\<lparr>a_mutex := True\<rparr>) w Idle [\<lparr>go_app = key0, go_phase = Counted\<rparr>]) = Some k"
      "k_crash k = None" "k_busy k = 0" "k_loop k = AtApp 0 0" "slot_app (k_handler k) 0 0 (a\<lparr>a_mutex := True\<rparr>)"
    using second_tick[of "a\<lparr>a_mutex := True\<rparr>" w] by auto
  have rk: "running sample_offline five_equal (started server0 pod_world) k"
    by (rule running_trans[OF schedule_running[OF k(1)] r(1)])
  from first_busy_application[OF server0_made rk k(2-5)] r(2) k(4) rk show ?thesis by fastforce
qed

text \<open>
  C32. The goroutine's two deferred calls are in the wrong order: \<^verbatim>\<open>Done\<close> lets the tick end while the
  application is still locked. If the next tick begins before the goroutine unlocks it, three steps of the
  loop end the process with a negative \<^verbatim>\<open>WaitGroup\<close> counter.
\<close>

theorem late_unlock_panics:
  assumes "k_crash k = None" and "k_loop k = Idle" and "\<not> h_Mutex (k_handler k)" and "k_wg k = 0"
    and "h_Repos (k_handler k) = r # rs" and "\<not> rc_Mutex r" and "rc_Apps r = Some a # as" and "a_mutex a"
  shows "\<exists>k'. schedule X cmp_equal [TheLoop, TheLoop, TheLoop] k = Some k' \<and> k_crash k' = Some NegativeWaitGroup"
  using assms
  by (simp add: Handle_step_def start_tick_def visit_repo_def visit_app_def TryLock_def set_repo_mutex_def wg_Add_def
      crash_def Let_def)

theorem late_unlock_panics_witness:
  "\<exists>k. running sample_offline five_equal (started server0 pod_world) k \<and> k_crash k = Some NegativeWaitGroup"
proof -
  obtain a w where r: "running sample_offline five_equal (started server0 pod_world)
      (proc (a\<lparr>a_mutex := True\<rparr>) w Idle [\<lparr>go_app = key0, go_phase = Counted\<rparr>])" using offline_run by blast
  let ?k = "proc (a\<lparr>a_mutex := True\<rparr>) w Idle [\<lparr>go_app = key0, go_phase = Counted\<rparr>]"
  have "\<exists>k'. schedule sample_offline five_equal [TheLoop, TheLoop, TheLoop] ?k = Some k' \<and> k_crash k' = Some NegativeWaitGroup"
    by (rule late_unlock_panics[where r = "repo1\<lparr>rc_Apps := [Some (a\<lparr>a_mutex := True\<rparr>)]\<rparr>" and rs = "[]"
          and a = "a\<lparr>a_mutex := True\<rparr>" and as = "[]"]) simp_all
  then obtain k' where k': "schedule sample_offline five_equal [TheLoop, TheLoop, TheLoop] ?k = Some k'"
      "k_crash k' = Some NegativeWaitGroup" by blast
  from running_trans[OF schedule_running[OF k'(1)] r] k'(2) show ?thesis by blast
qed

subsection \<open>A tick\<close>

text \<open>
  C1. Where no goroutine is left over from an earlier tick, no application slot is nil and each life cycle that
  this tick runs comes back, on its application and in the world it finds, the
  tick ends after a bounded number of steps, however the loop and the goroutines interleave; it has then
  started exactly one goroutine for every application of every repository that was not locked, in their
  order; all have exited, no application was found busy, and nothing has panicked.
\<close>

theorem tick_runs_each_application_once:
  assumes "server_main cfg0 listen port w0 = (Ret s, w)" and "running X cmp_equal (started s w) k" and "k_crash k = None"
    and idle: "k_loop k = Idle" "k_gos k = []" and nil: "no_nil (k_handler k)"
    and life: "\<And>k1. (tick_step X)\<^sup>*\<^sup>* (start_tick k) k1 \<Longrightarrow> life_returns X k1"
  shows "((tick_step X ^^ n) (start_tick k) k' \<longrightarrow> n \<le> Suc (tick_work (start_tick k))) \<and>
    (\<exists>k1. (tick_step X)\<^sup>*\<^sup>* (start_tick k) k1 \<and> (\<nexists>k2. tick_step X k1 k2)) \<and>
    ((tick_step X)\<^sup>*\<^sup>* (start_tick k) k' \<and> (\<nexists>k''. tick_step X k' k'') \<longrightarrow>
       k_crash k' = None \<and> k_loop k' = Idle \<and> k_gos k' = [] \<and> k_busy k' = 0 \<and> \<not> h_Mutex (k_handler k') \<and>
       k_started k' = k_started k @ concat (map repo_keys (h_Repos (k_handler k))))"
proof -
  have I: "process_inv k"
    using running_inv[OF assms(2) _ assms(3)] started_inv server_main_inv[OF assms(1)] by blast
  have c: "k_crash (start_tick k) = None" using assms(3) by (simp add: start_tick_def split: prod.split bool.split)
  have T: "tick_inv k (start_tick k)" by (rule start_tick_tick_inv(1)[OF I idle])
  have "(tick_step X ^^ n) (start_tick k) k' \<longrightarrow> n \<le> Suc (tick_work (start_tick k))"
    using tick_bounded T by (auto simp: tick_inv_def)
  moreover have "\<exists>k1. (tick_step X)\<^sup>*\<^sup>* (start_tick k) k1 \<and> (\<nexists>k2. tick_step X k1 k2)"
    using tick_terminates T by (auto simp: tick_inv_def)
  moreover have "k_crash k' = None \<and> k_loop k' = Idle \<and> k_gos k' = [] \<and> k_busy k' = 0 \<and> \<not> h_Mutex (k_handler k') \<and>
       k_started k' = k_started k @ concat (map repo_keys (h_Repos (k_handler k)))"
    if r: "(tick_step X)\<^sup>*\<^sup>* (start_tick k) k'" and stuck: "\<nexists>k''. tick_step X k' k''"
  proof -
    have c': "k_crash k' = None" by (rule tick_steps_no_crash[OF r T c nil life])
    have T': "tick_inv k k'" by (rule tick_steps_tick_inv[OF r T c'])
    have I': "process_inv k'" using T' by (simp add: tick_inv_def)
    from tick_progress[OF I' c' life[OF r] stuck] T' I' c' show ?thesis
      by (simp add: tick_inv_def due_def process_inv_def pc_ok_def)
  qed
  ultimately show ?thesis by blast
qed

text \<open>The calls of the sample world come back; fetching finds nothing new and the life cycle installs the chart.\<close>

lemma sample_chart_comes_back: "calls_come_back sample_chart"
  by (simp add: calls_come_back_def comes_back_def sample_chart_def sample_def s_fetch_def s_pull_def s_log_def
      s_install_def s_uninstall_def split: option.splits)

lemma sample_chart_fetch: "sample_chart\<lparr>x_fetch := \<lambda>repo opts. s_fetch\<rparr> = sample_chart"
  by (simp add: sample_chart_def sample_def)

lemma two_chart_requests:
  "\<exists>a w. schedule sample_chart five_equal [Rpc (AddRepositoryReq repo_request), Rpc (AddOrUpdateApplicationReq app_request)]
      (started server0 pod_world) = Some (proc a w Idle []) \<and> a_Name a = ''a'' \<and> \<not> a_mutex a \<and> chart_app a"
proof -
  obtain a w where a: "rpc_AddOrUpdateApplication sample_chart five_equal app_request (server1, pod_world) = (Ret (), (server_with a, w))"
      "a_Name a = ''a''" "\<not> a_mutex a" "chart_app a"
    using chart_request_added[of app_request "\<lambda>repo opts. s_fetch"] unfolding sample_chart_fetch by auto
  then show ?thesis
    by (intro exI[of _ a] exI[of _ w]) (simp add: started_def rpc_step_def replying_def added_repository proc_def)
qed

theorem tick_runs_each_application_once_witness:
  "\<exists>k k'. running sample_chart five_equal (started server0 pod_world) k \<and>
     (tick_step sample_chart)\<^sup>*\<^sup>* (start_tick k) k' \<and> k_loop k' = Idle \<and> k_crash k' = None \<and>
     k_started k' = [(''https://h/r'', ''a'')]"
proof -
  obtain a w where r: "schedule sample_chart five_equal
        [Rpc (AddRepositoryReq repo_request), Rpc (AddOrUpdateApplicationReq app_request)]
        (started server0 pod_world) = Some (proc a w Idle [])" and a: "a_Name a = ''a''" "\<not> a_mutex a" "chart_app a"
    using two_chart_requests by blast
  let ?k = "proc a w Idle []"
  have rk: "running sample_chart five_equal (started server0 pod_world) ?k" by (rule schedule_running[OF r])
  have nil: "no_nil (k_handler ?k)" by (simp add: no_nil_def)
  have k: "k_crash ?k = None" "k_loop ?k = Idle" "k_gos ?k = []" by simp_all
  have "all_apps chart_app (k_handler (start_tick ?k))"
    using a(3) by (simp add: all_apps_def start_tick_def TryLock_def)
  then have life: "life_returns sample_chart k1" if "(tick_step sample_chart)\<^sup>*\<^sup>* (start_tick ?k) k1" for k1
    by (rule chart_lives_return[OF sample_chart_comes_back that])
  note tick = tick_runs_each_application_once[OF server0_made rk k nil life]
  obtain k1 where k1: "(tick_step sample_chart)\<^sup>*\<^sup>* (start_tick ?k) k1" "\<nexists>k2. tick_step sample_chart k1 k2"
    using tick[of 0 ?k] by blast
  have "k_loop k1 = Idle" "k_crash k1 = None"
      "k_started k1 = k_started ?k @ concat (map repo_keys (h_Repos (k_handler ?k)))"
    using tick[of 0 k1] k1 by blast+
  moreover have "k_started ?k @ concat (map repo_keys (h_Repos (k_handler ?k))) = [(''https://h/r'', ''a'')]"
    using a by (simp add: proc_def repo_keys_def)
  ultimately show ?thesis using rk k1(1) by metis
qed

end
