(* ===== verification/EndToEnd.thy ===== *)
theory EndToEnd
  imports OperatorProps TickerProps
begin

section \<open>The operator and the server together\<close>

text \<open>
  What a finished reconciliation of an application means for the server's store, where the operator's calls
  are the server's RPCs. Theory \<open>RpcProps\<close> puts the generated gRPC code between the two.
\<close>

subsection \<open>Errors of the program and of the libraries\<close>

text \<open>\<open>never_fails e m\<close>: \<open>m\<close> does not end in the error \<open>e\<close>.\<close>

definition never_fails :: "error \<Rightarrow> ('s, 'a) comp \<Rightarrow> bool" where
  "never_fails e m \<longleftrightarrow> (\<forall>s t. m s \<noteq> (Fail e, t))"

named_theorems never_fails_intros

lemma never_fails_basic [never_fails_intros]:
  "never_fails e (ret a)" "never_fails e (gets f)" "never_fails e (modify g)" "never_fails e (panicc q)" "never_fails e spinc"
  "err \<noteq> e \<Longrightarrow> never_fails e (failc err)" "never_fails e (attempt m)"
  by (auto simp: never_fails_def comp_defs attempt_def split: prod.splits res.splits)

lemma never_fails_andthen [never_fails_intros]:
  "never_fails e m \<Longrightarrow> (\<And>a. never_fails e (f a)) \<Longrightarrow> never_fails e (andthen m f)"
  by (auto simp: never_fails_def andthen_eq_Fail)

lemma never_fails_attempt:
  "never_fails e m \<Longrightarrow> (\<And>err. err \<noteq> e \<Longrightarrow> never_fails e (f (Inl err))) \<Longrightarrow> (\<And>a. never_fails e (f (Inr a))) \<Longrightarrow>
     never_fails e (andthen (attempt m) f)"
  unfolding never_fails_def andthen_eq_Fail attempt_eq_Ret
  by (metis attempt_never_fails fst_conv)

lemma never_fails_if [never_fails_intros]:
  "never_fails e m \<Longrightarrow> never_fails e m' \<Longrightarrow> never_fails e (if b then m else m')"
  by simp

lemma never_fails_on [never_fails_intros]:
  "never_fails e m \<Longrightarrow> never_fails e (on_world m)" "never_fails e n \<Longrightarrow> never_fails e (on_obj n)"
  by (auto simp: never_fails_def on_world_def on_obj_def split: prod.splits)

lemma never_fails_object_after [never_fails_intros]: "never_fails e m \<Longrightarrow> never_fails e (object_after m ob)"
  by (auto simp: never_fails_def object_after_def split: prod.splits res.splits)

text \<open>
  Documented behaviour of the libraries: none of them returns the program's own error value
  \<^verbatim>\<open>util.NoErrAlreadyUpTodate\<close>, which only this program's code can name.
\<close>

definition foreign_errors :: "'e externals \<Rightarrow> bool" where
  "foreign_errors X \<longleftrightarrow>
     (\<forall>path bare opts. never_fails NoErrAlreadyUpTodate (x_plain_clone X path bare opts)) \<and>
     (\<forall>path. never_fails NoErrAlreadyUpTodate (x_plain_open X path)) \<and>
     (\<forall>repo. never_fails NoErrAlreadyUpTodate (x_worktree X repo)) \<and>
     (\<forall>wt opts. never_fails NoErrAlreadyUpTodate (x_checkout X wt opts)) \<and>
     (\<forall>cfg. never_fails NoErrAlreadyUpTodate (x_kube_client X cfg)) \<and>
     (\<forall>cfg. never_fails NoErrAlreadyUpTodate (x_dynamic_client X cfg)) \<and>
     (\<forall>ns. never_fails NoErrAlreadyUpTodate (x_ns_get X ns)) \<and>
     (\<forall>ns. never_fails NoErrAlreadyUpTodate (x_ns_create X ns)) \<and>
     (\<forall>m. never_fails NoErrAlreadyUpTodate (x_manager_update X m)) \<and>
     (\<forall>path. never_fails NoErrAlreadyUpTodate (x_chart_load X path)) \<and>
     (\<forall>flags ns. never_fails NoErrAlreadyUpTodate (x_cfg_init X flags ns))"

lemma never_fails_helm_check: "never_fails e m \<Longrightarrow> never_fails e (helm_check m)"
  unfolding helm_check_def
  by (rule never_fails_attempt) (auto simp: never_fails_def helm_log_def andthen_def comp_defs)

lemma never_fails_deref_home [never_fails_intros]: "never_fails e deref_home"
  by (auto simp: never_fails_def deref_home_def split: option.splits)

lemma never_fails_deref [never_fails_intros]: "never_fails e (deref ptr)"
  by (cases ptr) (simp_all add: never_fails_def deref_def comp_defs)

lemma never_fails_NewHelmSettings [never_fails_intros]: "never_fails e (NewHelmSettings ns)"
  unfolding NewHelmSettings_def by (intro never_fails_intros)

lemma never_fails_fail_if:
  "err \<noteq> Some e \<Longrightarrow> never_fails e (case err of None \<Rightarrow> ret () | Some x \<Rightarrow> failc x)"
  by (cases err) (simp_all add: never_fails_basic)

lemma never_fails_NewHelmManager:
  assumes "\<forall>m. never_fails e (x_manager_update X m)" and "\<And>m err. err \<noteq> Some e \<Longrightarrow> never_fails e (f (m, err))"
  shows "never_fails e (andthen (on_world (NewHelmManager X path st)) f)"
proof -
  let ?m = "\<lparr>dm_ChartPath = path, dm_Debug = x_helmDebug X, dm_Getters = st,
    dm_RepositoryCache = hs_RepositoryCache st\<rparr>"
  have "andthen (on_world (NewHelmManager X path st)) f (h, w) \<noteq> (Fail e, t)" for h w t
  proof (cases "x_manager_update X ?m w")
    case (Pair res v)
    have f: "f (?m, err) s \<noteq> (Fail e, t)" if "err \<noteq> Some e" for err s
      using assms(2)[OF that, of ?m] by (simp only: never_fails_def) blast
    have "res \<noteq> Fail e" using assms(1) Pair by (auto simp: never_fails_def)
    with Pair f show ?thesis
      by (cases res) (simp_all add: NewHelmManager_def Let_def andthen_def attempt_def comp_defs)
  qed
  then show ?thesis by (auto simp: never_fails_def)
qed

lemma NewUnstructuredResources_no_error: "never_fails e (NewUnstructuredResources X files)"
proof (induction files)
  case (Cons f fs)
  have "never_fails e (NewUnstructuredResource X f)"
    by (auto simp: never_fails_def NewUnstructuredResource_def split: option.splits sum.splits prod.splits)
  with Cons show ?case by (auto intro!: never_fails_intros)
qed (simp add: never_fails_def)

lemma NewRawProvider_foreign:
  assumes "foreign_errors X"
  shows "never_fails NoErrAlreadyUpTodate (NewRawProvider X K n path ns)"
proof -
  have g: "never_fails e (getResourceFiles p)" for e p by (simp add: never_fails_def getResourceFiles_def)
  show ?thesis
    using assms unfolding NewRawProvider_def foreign_errors_def Let_def
    by (intro never_fails_andthen never_fails_if never_fails_attempt NewUnstructuredResources_no_error g never_fails_basic)
      (auto intro!: never_fails_intros)
qed

lemma NewHelmProvider_foreign:
  assumes "foreign_errors X"
  shows "never_fails NoErrAlreadyUpTodate (NewHelmProvider X K n path ns)"
proof -
  have c: "never_fails NoErrAlreadyUpTodate (on_world (NewHelmChart X m path))" for m
    using assms by (auto simp: NewHelmChart_def foreign_errors_def intro!: never_fails_intros)
  have u: "\<forall>m. never_fails NoErrAlreadyUpTodate (x_manager_update X m)"
    and i: "never_fails NoErrAlreadyUpTodate (x_cfg_init X flags ns)" for flags ns
    using assms by (auto simp: foreign_errors_def)
  have l: "never_fails e (andthen helm_log (\<lambda>_. failc err))" if "err \<noteq> e" for e err
    using that by (auto simp: never_fails_def helm_log_def andthen_def comp_defs)
  show ?thesis
    unfolding NewHelmProvider_def
    by (rule never_fails_NewHelmManager never_fails_attempt never_fails_helm_check never_fails_fail_if u l c i
        never_fails_intros | assumption | simp)+
qed

lemma NewApplication_foreign:
  assumes "foreign_errors X"
  shows "never_fails NoErrAlreadyUpTodate (NewApplication X K app)"
proof -
  have git: "never_fails NoErrAlreadyUpTodate (NewGitRepository X path co ck)" for path co ck
    using assms unfolding NewGitRepository_def foreign_errors_def
    by (intro never_fails_attempt) (auto intro!: never_fails_intros)
  have "never_fails NoErrAlreadyUpTodate (choose_provider X K app path cd)" for path cd
    unfolding choose_provider_def
    by (cases cd) (auto intro!: never_fails_intros NewRawProvider_foreign[OF assms] NewHelmProvider_foreign[OF assms])
  with git show ?thesis
    unfolding NewApplication_def Let_def by (auto intro!: never_fails_intros simp del: ret_app)
qed

lemma RemoveAll_foreign: "never_fails NoErrAlreadyUpTodate (RemoveAll p)"
  by (auto simp: never_fails_def RemoveAll_def split: option.splits)

subsection \<open>What a request that succeeds leaves in a repository\<close>

definition same_request :: "app_spec \<Rightarrow> application \<Rightarrow> bool" where
  "same_request app a \<longleftrightarrow>
     a_Name a = a_Name app \<and> a_Namespace a = a_Namespace app \<and> a_URL a = a_URL app \<and>
     a_Reference a = a_Reference app \<and> a_SparsePath a = a_SparsePath app"

lemma replace_app_foreign:
  assumes "foreign_errors X"
  shows "never_fails NoErrAlreadyUpTodate (replace_app X K i app)"
  unfolding replace_app_def
proof (rule never_fails_andthen)
  show "never_fails NoErrAlreadyUpTodate (lock_app i)" by (simp add: never_fails_def lock_app_not_Fail)
next
  fix old
  show "never_fails NoErrAlreadyUpTodate (rebuild_app X K i app old)"
    unfolding never_fails_def
  proof (intro allI notI)
    fix s t assume m: "rebuild_app X K i app old s = (Fail NoErrAlreadyUpTodate, t)"
    obtain r1 w1 where r1: "RemoveAll (a_storagePath old) (snd s) = (r1, w1)" by (metis prod.exhaust)
    obtain r2 w2 where r2: "NewApplication X K app w1 = (r2, w2)" by (metis prod.exhaust)
    have "r1 \<noteq> Fail NoErrAlreadyUpTodate" "r2 \<noteq> Fail NoErrAlreadyUpTodate"
      using r1 r2 RemoveAll_foreign NewApplication_foreign[OF assms] by (metis never_fails_def)+
    with m r1 r2 show False by (cases r1; cases r2) (auto simp: rebuild_app_def Let_def)
  qed
qed

lemma AddOrUpdateApplication_uptodate:
  assumes X: "foreign_errors X" and c: "cmp_documented cmp_equal"
    and m: "AddOrUpdateApplication X K cmp_equal app (r, w) = (Fail NoErrAlreadyUpTodate, (r', w'))"
  shows "r' = r \<and> (\<exists>a\<in>set (live_apps (rc_Apps r)). same_request app a)"
proof -
  obtain slot where f: "find_app_first (a_Name app) (rc_Apps r) 0 = Ret slot"
  proof (cases "find_app_first (a_Name app) (rc_Apps r) 0")
    case (Fail e)
    have "find_app_first n slots k \<noteq> Fail e" for n slots k
      by (induction n slots k rule: find_app_first.induct) auto
    with Fail show thesis by simp
  qed (use m that in \<open>auto simp: AddOrUpdateApplication_def pure_res_def andthen_def\<close>)
  show ?thesis
  proof (cases slot)
    case None
    obtain n v where n: "NewApplication X K app w = (n, v)" by (metis prod.exhaust)
    with NewApplication_foreign[OF X] have "n \<noteq> Fail NoErrAlreadyUpTodate" by (auto simp: never_fails_def)
    with m f None n show ?thesis
      by (cases n; cases "rc_Mutex r")
        (auto simp: AddOrUpdateApplication_def pure_res_def andthen_def lock_repo_def defer_unlock_repo_def)
  next
    case (Some i)
    from find_app_first_Some[OF f[unfolded Some]] obtain a where
      a: "i < length (rc_Apps r)" "rc_Apps r ! i = Some a" by auto
    show ?thesis
    proof (cases "cmp_equal (app_spec.truncate a) app")
      case True
      then have "same_request app a" using c by (simp add: cmp_documented_def same_request_def app_spec.defs)
      moreover have "r' = r" using m f Some a True by (simp add: AddOrUpdateApplication_def pure_res_def)
      moreover have "a \<in> set (live_apps (rc_Apps r))" using a by (metis nth_mem set_live_apps)
      ultimately show ?thesis by blast
    next
      case False
      with m f Some a have "andthen (on_obj lock_repo) (\<lambda>_. defer_unlock_repo (replace_app X K i app)) (r, w) =
          (Fail NoErrAlreadyUpTodate, (r', w'))"
        by (simp add: AddOrUpdateApplication_def pure_res_def)
      moreover obtain r1 s1 where r1: "replace_app X K i app (r\<lparr>rc_Mutex := True\<rparr>, w) = (r1, s1)" by (metis prod.exhaust)
      moreover have "r1 \<noteq> Fail NoErrAlreadyUpTodate"
        using replace_app_foreign[OF X] r1 by (metis never_fails_def)
      ultimately show ?thesis
        by (cases "rc_Mutex r"; cases r1; cases s1) (auto simp: lock_repo_def defer_unlock_repo_def andthen_def)
    qed
  qed
qed

lemma AddOrUpdateApplication_live:
  assumes X: "foreign_errors X" and c: "cmp_documented cmp_equal" and d: "distinct (map a_Name (live_apps (rc_Apps r)))"
    and m: "AddOrUpdateApplication X K cmp_equal app (r, w) = (res, (r', w'))"
    and res: "res = Ret () \<or> res = Fail NoErrAlreadyUpTodate"
  shows "\<exists>a. same_request app a \<and>
    set (live_apps (rc_Apps r')) = insert a {b \<in> set (live_apps (rc_Apps r)). a_Name b \<noteq> a_Name app}"
  using res
proof
  assume "res = Ret ()"
  from AddOrUpdateApplication_Ret[OF m[unfolded this] d] obtain a where a: "app_spec.truncate a = app"
    "mset (live_apps (rc_Apps r')) =
       add_mset a (filter_mset (\<lambda>b. a_Name b \<noteq> a_Name app) (mset (live_apps (rc_Apps r))))" by auto
  have "same_request app a" using a(1) by (auto simp: same_request_def app_spec.defs)
  moreover have "set (live_apps (rc_Apps r')) = insert a {b \<in> set (live_apps (rc_Apps r)). a_Name b \<noteq> a_Name app}"
    using arg_cong[OF a(2), of set_mset] by auto
  ultimately show ?thesis by blast
next
  assume "res = Fail NoErrAlreadyUpTodate"
  from AddOrUpdateApplication_uptodate[OF X c m[unfolded this]] obtain a where
    a: "r' = r" "a \<in> set (live_apps (rc_Apps r))" "same_request app a" by blast
  have "b = a" if "b \<in> set (live_apps (rc_Apps r))" "a_Name b = a_Name app" for b
    using d that a(2,3) unfolding same_request_def by (metis distinct_map inj_onD)
  with a show ?thesis by auto
qed

lemma find_app_last_None: "find_app_last name slots k found = Ret None \<Longrightarrow>
    found = None \<and> (\<forall>a\<in>set (live_apps slots). a_Name a \<noteq> name)"
proof (induction name slots k found rule: find_app_last.induct)
  case (3 name app slots k found)
  then show ?case by (cases "a_Name app = name") simp_all
qed simp_all

lemma DeleteApplication_live:
  assumes d: "distinct (map a_Name (live_apps (rc_Apps r)))"
    and m: "DeleteApplication X name (r, w) = (Ret (), (r', w'))"
  shows "set (live_apps (rc_Apps r')) = {b \<in> set (live_apps (rc_Apps r)). a_Name b \<noteq> name}"
proof -
  obtain slot where f: "find_app_last name (rc_Apps r) 0 None = Ret slot"
    using m by (auto simp: DeleteApplication_def andthen_eq_Ret pure_res_def)
  show ?thesis
  proof (cases slot)
    case None
    with m f have "r' = r" by (simp add: DeleteApplication_def pure_res_def)
    with find_app_last_None[OF f[unfolded None]] show ?thesis by auto
  next
    case (Some i)
    from find_app_last_Some[OF f[unfolded Some]] obtain a where
      a: "i < length (rc_Apps r)" "rc_Apps r ! i = Some a" "a_Name a = name" by auto
    have r': "rc_Apps r' = swap_remove (rc_Apps r) i"
      using DeleteApplication_found[OF f[unfolded Some] a(2) m] by (simp add: swap_remove_update)
    have l: "mset (live_apps (rc_Apps r)) = add_mset a (mset (live_apps (rc_Apps r')))"
      unfolding r' by (rule live_apps_swap_remove[OF a(1,2)])
    then have "mset (map a_Name (live_apps (rc_Apps r))) = mset (map a_Name (a # live_apps (rc_Apps r')))" by simp
    then have "distinct (map a_Name (a # live_apps (rc_Apps r')))" using d mset_eq_imp_distinct_iff by blast
    then have "a_Name a \<notin> a_Name ` set (live_apps (rc_Apps r'))" by simp
    moreover have "set (live_apps (rc_Apps r)) = insert a (set (live_apps (rc_Apps r')))"
      using mset_eq_setD[of "live_apps (rc_Apps r)" "a # live_apps (rc_Apps r')"] l by simp
    ultimately show ?thesis using a(3) by (auto simp: image_iff)
  qed
qed

subsection \<open>The store seen from outside\<close>

text \<open>The applications the server has for a URL and a name.\<close>

definition apps_at :: "handler \<Rightarrow> app_key \<Rightarrow> application set" where
  "apps_at h key =
     {a. \<exists>r\<in>set (h_Repos h). repo_url r = fst key \<and> a \<in> set (live_apps (rc_Apps r)) \<and> a_Name a = snd key}"

lemma handler_wf_nth_eq: "handler_wf h \<Longrightarrow> i < length (h_Repos h) \<Longrightarrow> r \<in> set (h_Repos h) \<Longrightarrow>
    repo_url r = repo_url (h_Repos h ! i) \<Longrightarrow> r = h_Repos h ! i"
  by (metis distinct_map handler_wf_def inj_onD nth_mem)

lemma apps_at_repo: "handler_wf h \<Longrightarrow> i < length (h_Repos h) \<Longrightarrow> repo_url (h_Repos h ! i) = fst key \<Longrightarrow>
    apps_at h key = {a \<in> set (live_apps (rc_Apps (h_Repos h ! i))). a_Name a = snd key}"
  by (auto simp: apps_at_def dest: handler_wf_nth_eq)

lemma apps_at_update:
  assumes "handler_wf h" and i: "i < length (h_Repos h)" and u: "repo_url q = repo_url (h_Repos h ! i)"
    and wf': "handler_wf (h\<lparr>h_Repos := (h_Repos h)[i := q]\<rparr>)"
  shows "apps_at (h\<lparr>h_Repos := (h_Repos h)[i := q]\<rparr>) key =
    (if fst key = repo_url (h_Repos h ! i) then {a \<in> set (live_apps (rc_Apps q)). a_Name a = snd key} else apps_at h key)"
proof (cases "fst key = repo_url (h_Repos h ! i)")
  case True
  with apps_at_repo[OF wf', of i key] i u show ?thesis by simp
next
  case False
  have "r \<in> set ((h_Repos h)[i := q]) \<and> repo_url r = fst key \<longleftrightarrow> r \<in> set (h_Repos h) \<and> repo_url r = fst key" for r
    using False i u by (metis in_set_conv_nth length_list_update nth_list_update)
  with False show ?thesis by (auto simp: apps_at_def)
qed

subsection \<open>The two requests of the application reconciler\<close>

lemma on_found_repo:
  assumes "on_handler (on_repo i m) (s, w) = (r, (s', w'))"
  obtains q where "m (h_Repos (sv_Handler s) ! i, w) = (r, (q, w'))"
    "sv_Handler s' = (sv_Handler s)\<lparr>h_Repos := (h_Repos (sv_Handler s))[i := q]\<rparr>"
proof -
  obtain r1 q v where m: "m (h_Repos (sv_Handler s) ! i, w) = (r1, (q, v))" by (metis prod.exhaust)
  with assms that show thesis by (auto simp: on_handler_def on_repo_def)
qed

lemma apps_at_found:
  assumes wf: "handler_wf h" and i: "i < length (h_Repos h)" and u: "repo_url (h_Repos h ! i) = u"
    and q: "repo_at u (h_Repos h ! i) \<Longrightarrow> repo_at u q"
    and live: "set (live_apps (rc_Apps q)) = N \<union> {b \<in> set (live_apps (rc_Apps (h_Repos h ! i))). a_Name b \<noteq> n}"
    and N: "\<forall>a\<in>N. a_Name a = n"
  shows "apps_at (h\<lparr>h_Repos := (h_Repos h)[i := q]\<rparr>) (u, n) = N"
    and "key \<noteq> (u, n) \<Longrightarrow> apps_at (h\<lparr>h_Repos := (h_Repos h)[i := q]\<rparr>) key = apps_at h key"
proof -
  have "repo_at u (h_Repos h ! i)" using wf i u by (auto simp: handler_wf_def repo_at_def)
  with q have rq: "repo_at u q" by simp
  then have uq: "repo_url q = repo_url (h_Repos h ! i)" using u by (simp add: repo_at_def)
  have wf': "handler_wf (h\<lparr>h_Repos := (h_Repos h)[i := q]\<rparr>)"
    using handler_wf_update[OF wf i] rq u by simp
  note at = apps_at_update[OF wf i uq wf']
  show "apps_at (h\<lparr>h_Repos := (h_Repos h)[i := q]\<rparr>) (u, n) = N"
    using at[of "(u, n)"] u live N by auto
  show "apps_at (h\<lparr>h_Repos := (h_Repos h)[i := q]\<rparr>) key = apps_at h key" if "key \<noteq> (u, n)"
  proof (cases "fst key = u")
    case True
    then have "snd key \<noteq> n" using that by (cases key) auto
    with at[of key] apps_at_repo[OF wf i, of key] True u live N show ?thesis by auto
  next
    case False
    with at[of key] u show ?thesis by simp
  qed
qed

lemma repo_at_distinct: "repo_at u r \<Longrightarrow> distinct (map a_Name (live_apps (rc_Apps r)))"
  by (simp add: repo_at_def repo_wf_def slots_wf_def)

lemma rpc_DeleteApplication_at:
  assumes m: "rpc_DeleteApplication X inm (s, w) = (Ret (), (s', w'))" and wf: "handler_wf (sv_Handler s)"
  shows "apps_at (sv_Handler s') (application_GetUrl inm, application_GetName inm) = {}"
    and "key \<noteq> (application_GetUrl inm, application_GetName inm) \<Longrightarrow>
      apps_at (sv_Handler s') key = apps_at (sv_Handler s) key"
proof -
  let ?h = "sv_Handler s" and ?u = "application_GetUrl inm" and ?n = "application_GetName inm"
  have "apps_at (sv_Handler s') (?u, ?n) = {} \<and> (key \<noteq> (?u, ?n) \<longrightarrow> apps_at (sv_Handler s') key = apps_at ?h key)" for key
  proof (cases "GetRepositoryConfig ?h ?u")
    case None
    then have "s' = s" using m by (simp add: rpc_DeleteApplication_def)
    moreover have "\<forall>r\<in>set (h_Repos ?h). repo_url r \<noteq> ?u"
      using None by (simp add: GetRepositoryConfig_def first_index_None)
    ultimately show ?thesis by (auto simp: apps_at_def)
  next
    case (Some i)
    note i = GetRepositoryConfig_Some[OF Some]
    from m Some have "on_handler (on_repo i (DeleteApplication X ?n)) (s, w) = (Ret (), (s', w'))"
      by (simp add: rpc_DeleteApplication_def)
    from on_found_repo[OF this] obtain q where q: "DeleteApplication X ?n (h_Repos ?h ! i, w) = (Ret (), (q, w'))"
      "sv_Handler s' = ?h\<lparr>h_Repos := (h_Repos ?h)[i := q]\<rparr>" by blast
    have r: "repo_at ?u (h_Repos ?h ! i)" using wf i by (auto simp: handler_wf_def repo_at_def)
    have "set (live_apps (rc_Apps q)) = {} \<union> {b \<in> set (live_apps (rc_Apps (h_Repos ?h ! i))). a_Name b \<noteq> ?n}"
      using DeleteApplication_live[OF repo_at_distinct[OF r] q(1)] by simp
    from apps_at_found[OF wf conjunct1[OF i] conjunct2[OF i] _ this] DeleteApplication_wf[OF q(1)] q(2)
    show ?thesis by simp
  qed
  then show "apps_at (sv_Handler s') (?u, ?n) = {}"
    and "key \<noteq> (?u, ?n) \<Longrightarrow> apps_at (sv_Handler s') key = apps_at ?h key" by blast+
qed

lemma rpc_AddOrUpdateApplication_call:
  assumes "rpc_AddOrUpdateApplication X cmp_equal inm (s, w) = (Ret (), (s', w'))"
  obtains i res q w1 where "i < length (h_Repos (sv_Handler s))"
    "repo_url (h_Repos (sv_Handler s) ! i) = application_GetUrl inm"
    "AddOrUpdateApplication X (sv_KubeConfig s) cmp_equal (request_app inm (repo_core.truncate (h_Repos (sv_Handler s) ! i)))
       (h_Repos (sv_Handler s) ! i, w) = (res, (q, w1))"
    "res = Ret () \<or> res = Fail NoErrAlreadyUpTodate"
    "sv_Handler s' = (sv_Handler s)\<lparr>h_Repos := (h_Repos (sv_Handler s))[i := q]\<rparr>"
proof -
  let ?h = "sv_Handler s"
  obtain i where g: "GetRepositoryConfig ?h (application_GetUrl inm) = Some i"
    using assms by (cases "GetRepositoryConfig ?h (application_GetUrl inm)") (auto simp: rpc_AddOrUpdateApplication_def)
  let ?app = "request_app inm (repo_core.truncate (h_Repos ?h ! i))"
  obtain res s1 w1 where o: "on_handler (on_repo i (AddOrUpdateApplication X (sv_KubeConfig s) cmp_equal ?app)) (s, w) = (res, (s1, w1))"
    by (metis prod.exhaust)
  have res: "res = Ret () \<or> res = Fail NoErrAlreadyUpTodate" and s1: "s1 = s'"
    using assms g o by (cases res; auto simp: rpc_AddOrUpdateApplication_def attempt_def andthen_def split: if_splits)+
  from on_found_repo[OF o] obtain q where q: "AddOrUpdateApplication X (sv_KubeConfig s) cmp_equal ?app (h_Repos ?h ! i, w) = (res, (q, w1))"
    "sv_Handler s' = ?h\<lparr>h_Repos := (h_Repos ?h)[i := q]\<rparr>" using s1 by blast
  with GetRepositoryConfig_Some[OF g] res that show thesis by blast
qed

lemma rpc_AddOrUpdateApplication_at:
  assumes X: "foreign_errors X" and c: "cmp_documented cmp_equal"
    and m: "rpc_AddOrUpdateApplication X cmp_equal inm (s, w) = (Ret (), (s', w'))" and wf: "handler_wf (sv_Handler s)"
  shows "\<exists>a. apps_at (sv_Handler s') (application_GetUrl inm, application_GetName inm) = {a} \<and>
      a_Namespace a = application_GetNamespace inm \<and> a_Reference a = application_GetReference inm \<and>
      a_SparsePath a = application_GetSparsePath inm \<and>
      (\<forall>key. key \<noteq> (application_GetUrl inm, application_GetName inm) \<longrightarrow>
         apps_at (sv_Handler s') key = apps_at (sv_Handler s) key)"
proof -
  let ?h = "sv_Handler s" and ?u = "application_GetUrl inm" and ?n = "application_GetName inm"
  obtain i res q w1 where i: "i < length (h_Repos ?h)" "repo_url (h_Repos ?h ! i) = ?u"
    and q: "AddOrUpdateApplication X (sv_KubeConfig s) cmp_equal (request_app inm (repo_core.truncate (h_Repos ?h ! i)))
        (h_Repos ?h ! i, w) = (res, (q, w1))"
      "sv_Handler s' = ?h\<lparr>h_Repos := (h_Repos ?h)[i := q]\<rparr>"
    and res: "res = Ret () \<or> res = Fail NoErrAlreadyUpTodate"
    by (rule rpc_AddOrUpdateApplication_call[OF m])
  let ?app = "request_app inm (repo_core.truncate (h_Repos ?h ! i))"
  have r: "repo_at ?u (h_Repos ?h ! i)" using wf i by (auto simp: handler_wf_def repo_at_def)
  from AddOrUpdateApplication_live[OF X c repo_at_distinct[OF r] q(1) res] obtain a where
    a: "same_request ?app a" "set (live_apps (rc_Apps q)) = {a} \<union> {b \<in> set (live_apps (rc_Apps (h_Repos ?h ! i))). a_Name b \<noteq> ?n}"
    by auto
  have ret: "returns res" using res by auto
  have fields: "a_Name a = ?n" "a_Namespace a = application_GetNamespace inm" "a_Reference a = application_GetReference inm"
    "a_SparsePath a = application_GetSparsePath inm"
    using a(1) by (simp_all add: same_request_def request_app_def)
  have "repo_at ?u q" using AddOrUpdateApplication_wf[OF q(1) ret r] by simp
  from apps_at_found[OF wf i this a(2)] q(2) fields
  show ?thesis by (intro exI[of _ a]) simp
qed

lemma app_msgs [simp]:
  "application_GetUrl (Some (app_delete_msg n c)) = as_URL (cr_Spec c)"
  "application_GetName (Some (app_delete_msg n c)) = n"
  "application_GetUrl (Some (app_sync_msg n c)) = as_URL (cr_Spec c)"
  "application_GetName (Some (app_sync_msg n c)) = n"
  "application_GetNamespace (Some (app_sync_msg n c)) = as_Namespace (cr_Spec c)"
  "application_GetReference (Some (app_sync_msg n c)) = as_Reference (cr_Spec c)"
  "application_GetSparsePath (Some (app_sync_msg n c)) = as_SparsePath (cr_Spec c)"
  by (simp_all add: app_delete_msg_def app_sync_msg_def getters Let_def)

lemma ApplicationReconcile_deleted:
  assumes "kube_reads K view" and "kube_updates K view" and "finalizer_helpers K"
    and "view k req = Some c" and "om_Deleted (cr_meta c)" and "app_finalizer \<in> set (om_Finalizers (cr_meta c))"
    and "ApplicationReconcile K C req (k, s) = (Ret x, (k', s'))"
  shows "dc_DeleteApplication C (Some (app_delete_msg (snd req) c)) s = (Ret (), s') \<and>
    (\<forall>n. n \<noteq> req \<longrightarrow> view k' n = view k n)"
proof -
  note d = assms(7)[unfolded ApplicationReconcile_def]
  show ?thesis
  proof (rule app_reconcile_deleted[OF assms(1-6), where C = C and s = s], goal_cases)
    case (1 k1)
    with d show ?thesis by (auto simp: after_def split: prod.splits res.splits)
  next
    case (2 e k1)
    with d show ?thesis by (auto simp: after_def split: prod.splits res.splits)
  qed
qed

lemma ApplicationReconcile_live:
  assumes "kube_reads K view" and "kube_updates K view" and "finalizer_helpers K"
    and "view k req = Some c" and "\<not> om_Deleted (cr_meta c)"
    and "ApplicationReconcile K C req (k, s) = (Ret x, (k', s'))"
  shows "dc_AddOrUpdateApplication C (Some (app_sync_msg (snd req) c)) s = (Ret (), s')"
proof -
  note r = assms(6)[unfolded ApplicationReconcile_def]
  show ?thesis
  proof (rule app_reconcile_live[OF assms(1-5), where C = C and s = s], goal_cases)
    case (1 c' k1)
    have "app_sync_msg (snd req) c' = app_sync_msg (snd req) c" using 1(2) by (simp add: app_sync_msg_def)
    with 1(5) r show ?thesis by (auto simp: after_def split: prod.splits res.splits)
  qed (use r in simp)
qed

lemma server_client_sel [simp]:
  "dc_DeleteApplication (server_client X cmp_equal) = rpc_DeleteApplication X"
  "dc_AddOrUpdateApplication (server_client X cmp_equal) = rpc_AddOrUpdateApplication X cmp_equal"
  by (simp_all add: server_client_def)

subsection \<open>Properties\<close>

text \<open>
  When the reconciliation of an application object succeeds against the server, the server's store is
  what the object asks for: for an object that is marked for deletion and still had the finalizer, the server has
  no application of its name and URL any more; for any other, exactly one, with the object's
  namespace, reference and path. The applications of all other names and URLs are as before.
\<close>

lemma reconciled_application_in_store:
  assumes "kube_reads K view" and "kube_updates K view" and "finalizer_helpers K"
    and "foreign_errors X" and "cmp_documented cmp_equal" and "handler_wf (sv_Handler s)"
    and "view k req = Some c"
    and "ApplicationReconcile K (server_client X cmp_equal) req (k, (s, w)) = (Ret x, (k', (s', w')))"
    and "om_Deleted (cr_meta c) \<longrightarrow> app_finalizer \<in> set (om_Finalizers (cr_meta c))"
  shows "(if om_Deleted (cr_meta c) then apps_at (sv_Handler s') (as_URL (cr_Spec c), snd req) = {}
     else \<exists>a. apps_at (sv_Handler s') (as_URL (cr_Spec c), snd req) = {a} \<and>
       a_Namespace a = as_Namespace (cr_Spec c) \<and> a_Reference a = as_Reference (cr_Spec c) \<and>
       a_SparsePath a = as_SparsePath (cr_Spec c)) \<and>
    (\<forall>key. key \<noteq> (as_URL (cr_Spec c), snd req) \<longrightarrow> apps_at (sv_Handler s') key = apps_at (sv_Handler s) key)"
proof (cases "om_Deleted (cr_meta c)")
  case True
  from ApplicationReconcile_deleted[OF assms(1-3,7) True _ assms(8)] assms(9) True
  have "rpc_DeleteApplication X (Some (app_delete_msg (snd req) c)) (s, w) = (Ret (), (s', w'))" by simp
  from rpc_DeleteApplication_at[OF this assms(6)] True show ?thesis by simp
next
  case False
  from ApplicationReconcile_live[OF assms(1-3,7) False assms(8)]
  have "rpc_AddOrUpdateApplication X cmp_equal (Some (app_sync_msg (snd req) c)) (s, w) = (Ret (), (s', w'))" by simp
  from rpc_AddOrUpdateApplication_at[OF assms(4,5) this assms(6)] False show ?thesis by auto
qed

lemma sample_foreign: "foreign_errors sample_offline"
  by (simp add: foreign_errors_def never_fails_def sample_offline_def sample_chart_def sample_def s_clone_def comp_defs)

lemma server1_wf: "handler_wf (sv_Handler server1)"
  by (simp add: handler_wf_def server1_def)

text \<open>The reconciliation of an object that carries the finalizer already, by the request it makes.\<close>

lemma list_reconcile:
  "dc_AddOrUpdateApplication C (Some (app_sync_msg ''a'' (app_cr False [app_finalizer]))) s = (Ret (), s') \<Longrightarrow>
     ApplicationReconcile list_kube C (''ops'', ''a'') ([app_cr False [app_finalizer]], s) =
       (Ret requeue_minute, ([app_cr False [app_finalizer]], s'))"
  by (simp add: ApplicationReconcile_def reconcile_def list_kube_def)

lemma reconciled_application_in_store_witness:
  "\<exists>a s' w'. ApplicationReconcile list_kube (server_client sample_offline five_equal) (''ops'', ''a'')
       ([app_cr False [app_finalizer]], (server1, pod_world)) =
       (Ret requeue_minute, ([app_cr False [app_finalizer]], (s', w'))) \<and>
     apps_at (sv_Handler s') (''https://h/r'', ''a'') = {a} \<and> a_Namespace a = ''default''"
proof -
  let ?c = "app_cr False [app_finalizer]"
  obtain a v where "rpc_AddOrUpdateApplication sample_offline five_equal (Some (app_sync_msg ''a'' ?c)) (server1, pod_world) =
      (Ret (), (server_with a, v))" using request_added[of "Some (app_sync_msg ''a'' ?c)"] by auto
  then have m: "ApplicationReconcile list_kube (server_client sample_offline five_equal) (''ops'', ''a'')
      ([?c], (server1, pod_world)) = (Ret requeue_minute, ([?c], (server_with a, v)))"
    by (intro list_reconcile) simp
  have v: "l_view [?c] (''ops'', ''a'') = Some ?c" by simp
  have "as_Namespace (cr_Spec ?c) = ''default''" by (simp add: app_cr_def)
  with reconciled_application_in_store[OF list_kube_reads list_kube_updates list_kube_finalizers sample_foreign
      five_equal_documented server1_wf v m] m show ?thesis by auto
qed

text \<open>
  C38. An application is known to the server by its name and URL alone: two application objects of the same name
  and URL in different namespaces of the cluster share one application of the server. Once the deletion of
  one has been reconciled, the application of the other is gone from the server as well.
\<close>

theorem same_name_shares_application:
  assumes "kube_reads K view" and "kube_updates K view" and "finalizer_helpers K" and "handler_wf (sv_Handler s)"
    and "view k (ns1, n) = Some c1" and "view k (ns2, n) = Some c2" and "as_URL (cr_Spec c1) = as_URL (cr_Spec c2)"
    and "om_Deleted (cr_meta c1)" and "app_finalizer \<in> set (om_Finalizers (cr_meta c1))" and "ns1 \<noteq> ns2"
    and "ApplicationReconcile K (server_client X cmp_equal) (ns1, n) (k, (s, w)) = (Ret x, (k', (s', w')))"
  shows "view k' (ns2, n) = Some c2 \<and> apps_at (sv_Handler s') (as_URL (cr_Spec c2), n) = {}"
proof -
  from ApplicationReconcile_deleted[OF assms(1-3,5,8,9,11)]
  have r: "rpc_DeleteApplication X (Some (app_delete_msg n c1)) (s, w) = (Ret (), (s', w'))"
    and o: "view k' (ns2, n) = view k (ns2, n)" using assms(10) by simp_all
  with rpc_DeleteApplication_at(1)[OF r assms(4)] assms(6,7) show ?thesis by simp
qed

definition twin_cr :: application_cr where
  "twin_cr = (app_cr False [app_finalizer])\<lparr>cr_meta := \<lparr>om_Name = ''a'', om_Namespace = ''team'', om_Deleted = False,
     om_Finalizers = [app_finalizer]\<rparr>\<rparr>"

theorem same_name_shares_application_witness:
  "\<exists>k' s' w'. ApplicationReconcile list_kube (server_client sample five_equal) (''ops'', ''a'')
       ([app_cr True [app_finalizer], twin_cr], (server1, pod_world)) = (Ret 0, (k', (s', w'))) \<and>
     l_view k' (''team'', ''a'') = Some twin_cr \<and> apps_at (sv_Handler s') (''https://h/r'', ''a'') = {}"
proof -
  let ?c = "app_cr True [app_finalizer]" and ?k = "[app_cr True [app_finalizer], twin_cr]"
  have k: "cr_key twin_cr = (''team'', ''a'')" "as_URL (cr_Spec twin_cr) = ''https://h/r''"
    by (simp_all add: twin_cr_def cr_key_def app_cr_def)
  have v: "l_view ?k (''ops'', ''a'') = Some ?c" "l_view ?k (''team'', ''a'') = Some twin_cr"
    using k by (simp_all add: l_view_def)
  have u: "repo_url (new_repository \<lparr>rc_Name = n, rc_Settings = request_settings repo_request, rc_auth = None\<rparr>) = ''https://h/r''" for n
    by (simp add: repo_url_def request_settings_def)
  have "rpc_DeleteApplication sample (Some (app_delete_msg ''a'' ?c)) (server1, pod_world) = (Ret (), (server1, pod_world))"
    by (simp add: rpc_DeleteApplication_def server1_def server0_def GetRepositoryConfig_def u on_handler_def on_repo_def
        DeleteApplication_def pure_res_def andthen_def)
  then have m: "\<exists>k'. ApplicationReconcile list_kube (server_client sample five_equal) (''ops'', ''a'')
      (?k, (server1, pod_world)) = (Ret 0, (k', (server1, pod_world)))"
    using v(1) by (simp add: ApplicationReconcile_def reconcile_def list_kube_def l_update_def Let_def)
  then obtain k' where m: "ApplicationReconcile list_kube (server_client sample five_equal) (''ops'', ''a'')
      (?k, (server1, pod_world)) = (Ret 0, (k', (server1, pod_world)))" by blast
  have "l_view k' (''team'', ''a'') = Some twin_cr \<and>
      apps_at (sv_Handler server1) (as_URL (cr_Spec twin_cr), ''a'') = {}"
    by (rule same_name_shares_application[OF list_kube_reads list_kube_updates list_kube_finalizers server1_wf
        v(1) v(2) _ _ _ _ m]) (simp_all add: k)
  with m k show ?thesis by auto
qed

end
