(* ===== verification/QueryProps.thy ===== *)
theory QueryProps
  imports EndToEnd
begin

section \<open>What the server tells about its store\<close>

text \<open>
  The listing of \<^verbatim>\<open>GetApplications\<close>: which applications it names, and that an application added through the
  service is found in it.
\<close>

subsection \<open>The listing\<close>

definition all_apps :: "handler \<Rightarrow> application list" where
  "all_apps h = concat (map (\<lambda>r. live_apps (rc_Apps r)) (h_Repos h))"

lemma list_apps_live: "None \<notin> set slots \<Longrightarrow> list_apps X slots s = (Ret (map (application_item X) (live_apps slots)), s)"
proof (induction slots)
  case (Cons slot slots)
  then show ?case by (cases slot) (simp_all add: list_apps_def)
qed (simp add: list_apps_def)

lemma list_apps_nil: "None \<in> set slots \<Longrightarrow> list_apps X slots s = (Panic NilDereference, s)"
proof (induction slots)
  case (Cons slot slots)
  then show ?case by (cases slot) (auto simp: list_apps_def)
qed simp

text \<open>The whole list in the order of the store; with a nil slot anywhere the call panics.\<close>

lemma rpc_GetApplications_all:
  "rpc_GetApplications X (s, w) =
     (if no_nil (sv_Handler s) then (Ret \<lparr>pas_Items = map (application_item X) (all_apps (sv_Handler s))\<rparr>, (s, w))
      else (Panic NilDereference, (s, w)))"
proof -
  have "map_each (\<lambda>r. list_apps X (rc_Apps r)) rs (s, w) =
     (if \<forall>r\<in>set rs. None \<notin> set (rc_Apps r) then (Ret (map (\<lambda>r. map (application_item X) (live_apps (rc_Apps r))) rs), (s, w))
      else (Panic NilDereference, (s, w)))" for rs
  proof (induction rs)
    case (Cons r rs)
    then show ?case
      by (cases "None \<in> set (rc_Apps r)") (simp_all add: list_apps_live list_apps_nil)
  qed simp
  from this[of "h_Repos (sv_Handler s)"] show ?thesis
    by (cases "no_nil (sv_Handler s)") (simp_all add: rpc_GetApplications_def no_nil_def all_apps_def map_concat comp_def)
qed

lemma apps_at_listed:
  assumes "handler_wf h"
  shows "apps_at h key = {a \<in> set (all_apps h). (a_URL a, a_Name a) = key}"
proof -
  have "a_URL a = repo_url r" if "r \<in> set (h_Repos h)" "a \<in> set (live_apps (rc_Apps r))" for r a
    using assms that by (simp add: handler_wf_def repo_wf_def slots_wf_def app_wf_def)
  then show ?thesis by (cases key) (auto simp: apps_at_def all_apps_def)
qed

lemma distinct_apps:
  assumes "handler_wf h"
  shows "distinct (map (\<lambda>a. (a_URL a, a_Name a)) (all_apps h))"
proof -
  have "distinct (map (\<lambda>a. (a_URL a, a_Name a)) (concat (map (\<lambda>r. live_apps (rc_Apps r)) rs)))"
    if "distinct (map repo_url rs)" "\<forall>r\<in>set rs. repo_wf r" for rs
    using that
  proof (induction rs)
    case (Cons r rs)
    have url: "a_URL a = repo_url q" if "q \<in> set (r # rs)" "a \<in> set (live_apps (rc_Apps q))" for q a
      using Cons.prems that by (auto simp: repo_wf_def slots_wf_def app_wf_def)
    have "distinct (map a_Name (live_apps (rc_Apps r)))" using Cons.prems by (simp add: repo_wf_def slots_wf_def)
    then have "distinct (map (\<lambda>a. (a_URL a, a_Name a)) (live_apps (rc_Apps r)))"
      by (auto simp: distinct_map inj_on_def)
    moreover have "(a_URL a, a_Name a) \<noteq> (a_URL b, a_Name b)"
      if "a \<in> set (live_apps (rc_Apps r))" "q \<in> set rs" "b \<in> set (live_apps (rc_Apps q))" for a q b
      using that url[of r a] url[of q b] Cons.prems(1) by (simp add: image_iff)
    ultimately show ?case using Cons by fastforce
  qed simp
  with assms show ?thesis by (simp add: handler_wf_def all_apps_def)
qed

lemma filter_singleton: "distinct xs \<Longrightarrow> set (filter P xs) = {a} \<Longrightarrow> filter P xs = [a]"
  by (metis distinct_filter distinct_card card.empty card.insert empty_iff finite.emptyI length_0_conv length_Suc_conv
      list.set_intros(1) singletonD One_nat_def)

subsection \<open>Adding leaves no nil slot\<close>

lemma AddOrUpdateApplication_slots:
  assumes m: "AddOrUpdateApplication X K cmp_equal app (r, w) = (Ret (), (r', w'))"
  shows "None \<in> set (rc_Apps r') \<Longrightarrow> None \<in> set (rc_Apps r)"
proof -
  obtain slot where f: "find_app_first (a_Name app) (rc_Apps r) 0 = Ret slot"
    using m by (auto simp: AddOrUpdateApplication_def andthen_eq_Ret pure_res_def)
  have "\<exists>a. rc_Apps r' = rc_Apps r @ [Some a] \<or> (\<exists>i. rc_Apps r' = (rc_Apps r)[i := Some a])"
  proof (cases slot)
    case None
    obtain res v where "NewApplication X K app w = (res, v)" by (metis prod.exhaust)
    with m f None show ?thesis
      by (cases res; cases "rc_Mutex r")
        (auto simp: AddOrUpdateApplication_def pure_res_def andthen_def lock_repo_def defer_unlock_repo_def)
  next
    case (Some i)
    obtain res r1 w1 where p: "replace_app X K i app (r\<lparr>rc_Mutex := True\<rparr>, w) = (res, (r1, w1))" by (metis prod.exhaust)
    have q: "res = Ret ()" "rc_Apps r' = rc_Apps r1"
      using m f Some p
      by (cases "rc_Mutex r"; cases res; auto simp: AddOrUpdateApplication_def pure_res_def andthen_def
          lock_repo_def defer_unlock_repo_def split: if_splits)+
    from replace_app_Ret[OF p[unfolded q(1)]] q(2) show ?thesis by auto
  qed
  then show "None \<in> set (rc_Apps r') \<Longrightarrow> None \<in> set (rc_Apps r)"
    using set_update_subset_insert by fastforce
qed

lemma rpc_AddOrUpdateApplication_no_nil:
  assumes X: "foreign_errors X" and c: "cmp_documented cmp_equal"
    and m: "rpc_AddOrUpdateApplication X cmp_equal inm (s, w) = (Ret (), (s', w'))" and nil: "no_nil (sv_Handler s)"
  shows "no_nil (sv_Handler s')"
proof -
  let ?h = "sv_Handler s"
  obtain i res q w1 where i: "i < length (h_Repos ?h)"
    and q: "AddOrUpdateApplication X (sv_KubeConfig s) cmp_equal (request_app inm (repo_core.truncate (h_Repos ?h ! i)))
        (h_Repos ?h ! i, w) = (res, (q, w1))"
      "sv_Handler s' = ?h\<lparr>h_Repos := (h_Repos ?h)[i := q]\<rparr>"
    and res: "res = Ret () \<or> res = Fail NoErrAlreadyUpTodate"
    by (rule rpc_AddOrUpdateApplication_call[OF m])
  have "None \<notin> set (rc_Apps (h_Repos ?h ! i))" using nil i by (simp add: no_nil_def)
  then have "None \<notin> set (rc_Apps q)"
    using res AddOrUpdateApplication_slots AddOrUpdateApplication_uptodate[OF X c] q(1) by metis
  with nil q(2) show ?thesis
    using set_update_subset_insert[of "h_Repos ?h" i q] by (auto simp: no_nil_def)
qed

subsection \<open>Properties\<close>

text \<open>
  C23. What was put in comes out: after a successful request to add or update an application, the listing of
  the server returns and contains exactly one item of that URL and name, with the namespace and the
  reference of the request; its items of other names or URLs are the applications the server had before.
\<close>

theorem added_application_listed:
  assumes "foreign_errors X" and "cmp_documented cmp_equal" and "server_inv (s, w)" and "no_nil (sv_Handler s)"
    and "rpc_AddOrUpdateApplication X cmp_equal inm (s, w) = (Ret (), (s', w'))"
  shows "\<exists>items item. rpc_GetApplications X (s', w') = (Ret \<lparr>pas_Items = items\<rparr>, (s', w')) \<and>
    filter (\<lambda>m. (pa_Url m, pa_Name m) = (application_GetUrl inm, application_GetName inm)) items = [item] \<and>
    pa_Namespace item = application_GetNamespace inm \<and> pa_Reference item = application_GetReference inm \<and>
    {m \<in> set items. (pa_Url m, pa_Name m) \<noteq> (application_GetUrl inm, application_GetName inm)} =
      application_item X ` {a \<in> set (all_apps (sv_Handler s)). (a_URL a, a_Name a) \<noteq> (application_GetUrl inm, application_GetName inm)}"
proof -
  let ?key = "(application_GetUrl inm, application_GetName inm)"
  have wf0: "handler_wf (sv_Handler s)" and wf: "handler_wf (sv_Handler s')"
    using maintainsD[OF rpc_AddOrUpdateApplication_inv assms(5) _ assms(3)] assms(3) by (simp_all add: server_inv_def)
  from rpc_AddOrUpdateApplication_at[OF assms(1,2,5) wf0] obtain a where a: "apps_at (sv_Handler s') ?key = {a}"
    "a_Namespace a = application_GetNamespace inm" "a_Reference a = application_GetReference inm"
    "\<forall>key. key \<noteq> ?key \<longrightarrow> apps_at (sv_Handler s') key = apps_at (sv_Handler s) key" by auto
  let ?P = "\<lambda>a. (a_URL a, a_Name a) = ?key"
  have "distinct (all_apps (sv_Handler s'))" using distinct_apps[OF wf] by (simp add: distinct_map)
  moreover have "set (filter ?P (all_apps (sv_Handler s'))) = {a}" using a(1) apps_at_listed[OF wf] by simp
  ultimately have "filter ?P (all_apps (sv_Handler s')) = [a]" by (rule filter_singleton)
  moreover have item: "(pa_Url (application_item X b), pa_Name (application_item X b)) = (a_URL b, a_Name b)" for b
    by (simp add: application_item_def)
  ultimately have f: "filter (\<lambda>m. (pa_Url m, pa_Name m) = ?key) (map (application_item X) (all_apps (sv_Handler s'))) =
      [application_item X a]" by (simp only: filter_map comp_def item) simp
  have others: "{b \<in> set (all_apps (sv_Handler s')). (a_URL b, a_Name b) \<noteq> ?key} =
      {b \<in> set (all_apps (sv_Handler s)). (a_URL b, a_Name b) \<noteq> ?key}"
    using a(4) unfolding apps_at_listed[OF wf] apps_at_listed[OF wf0] by blast
  have "{m \<in> set (map (application_item X) xs). (pa_Url m, pa_Name m) \<noteq> ?key} =
      application_item X ` {b \<in> set xs. (a_URL b, a_Name b) \<noteq> ?key}" for xs
    by (auto simp: application_item_def)
  then have "{m \<in> set (map (application_item X) (all_apps (sv_Handler s'))). (pa_Url m, pa_Name m) \<noteq> ?key} =
      application_item X ` {b \<in> set (all_apps (sv_Handler s)). (a_URL b, a_Name b) \<noteq> ?key}"
    using others by (simp only:)
  moreover have "pa_Namespace (application_item X a) = application_GetNamespace inm"
    "pa_Reference (application_item X a) = application_GetReference inm"
    using a(2,3) by (simp_all add: application_item_def)
  moreover have "rpc_GetApplications X (s', w') =
      (Ret \<lparr>pas_Items = map (application_item X) (all_apps (sv_Handler s'))\<rparr>, (s', w'))"
    using rpc_AddOrUpdateApplication_no_nil[OF assms(1,2,5,4)] by (simp add: rpc_GetApplications_all)
  ultimately show ?thesis using f by blast
qed

theorem added_application_listed_witness:
  "\<exists>item s' w'. rpc_AddOrUpdateApplication sample_offline five_equal app_request (server1, pod_world) = (Ret (), (s', w')) \<and>
     rpc_GetApplications sample_offline (s', w') = (Ret \<lparr>pas_Items = [item]\<rparr>, (s', w')) \<and>
     pa_Url item = ''https://h/r'' \<and> pa_Name item = ''a''"
proof -
  obtain a v where m: "rpc_AddOrUpdateApplication sample_offline five_equal app_request (server1, pod_world) = (Ret (), (server_with a, v))"
    using request_added[of app_request] by auto
  have I: "server_inv (server1, pod_world)" using server1_wf by (simp add: server_inv_def server1_def server0_def)
  have nil: "no_nil (sv_Handler server1)" by (simp add: no_nil_def server1_def)
  from added_application_listed[OF sample_foreign five_equal_documented I nil m] obtain items item where
    i: "rpc_GetApplications sample_offline (server_with a, v) = (Ret \<lparr>pas_Items = items\<rparr>, (server_with a, v))"
    "filter (\<lambda>m. (pa_Url m, pa_Name m) = (application_GetUrl app_request, application_GetName app_request)) items = [item]"
    by blast
  have "length items = 1" using i(1) by (auto simp: rpc_GetApplications_all no_nil_def all_apps_def split: if_splits)
  with i(2) have "items = [item]" by (cases items) (auto split: if_splits)
  moreover have "pa_Url item = ''https://h/r'' \<and> pa_Name item = ''a''" using filter_eq_ConsD[OF i(2)] by auto
  ultimately show ?thesis using m i(1) by simp
qed

subsection \<open>The revisions of an application\<close>

lemma find_append: "List.find P (xs @ ys) = (case List.find P xs of None \<Rightarrow> List.find P ys | Some x \<Rightarrow> Some x)"
  by (induction xs) simp_all

lemma find_app_in_live:
  "None \<notin> set slots \<Longrightarrow>
     find_app_in name url slots = Ret (List.find (\<lambda>a. a_Name a = name \<and> a_URL a = url) (live_apps slots))"
  by (induction name url slots rule: find_app_in.induct) simp_all

lemma GetApplication_live:
  assumes "no_nil h"
  shows "GetApplication h name url = Ret (List.find (\<lambda>a. a_Name a = name \<and> a_URL a = url) (all_apps h))"
proof -
  have "GetApplication_in name url rs =
      Ret (List.find (\<lambda>a. a_Name a = name \<and> a_URL a = url) (concat (map (\<lambda>r. live_apps (rc_Apps r)) rs)))"
    if "\<forall>r\<in>set rs. None \<notin> set (rc_Apps r)" for rs
    using that by (induction rs) (auto simp: find_append find_app_in_live split: option.splits)
  with assms show ?thesis by (simp add: GetApplication_def all_apps_def no_nil_def)
qed

lemma GetApplication_found:
  assumes "handler_wf h" and "no_nil h"
  shows "(apps_at h (url, name) = {} \<longrightarrow> GetApplication h name url = Ret None) \<and>
    (apps_at h (url, name) \<noteq> {} \<longrightarrow> (\<exists>a\<in>apps_at h (url, name). GetApplication h name url = Ret (Some a)))"
proof -
  let ?P = "\<lambda>a. a_Name a = name \<and> a_URL a = url"
  have at: "apps_at h (url, name) = {a \<in> set (all_apps h). ?P a}" using apps_at_listed[OF assms(1)] by auto
  show ?thesis
  proof (cases "List.find ?P (all_apps h)")
    case None
    with at GetApplication_live[OF assms(2)] show ?thesis by (auto simp: find_None_iff)
  next
    case (Some a)
    then have "a \<in> apps_at h (url, name)" using at by (auto simp: find_Some_iff)
    with Some GetApplication_live[OF assms(2)] show ?thesis by auto
  qed
qed

text \<open>
  C24. Asked for the revisions of an application, the server answers with the commits of its clone's log that
  touch its path, in the log's order, each with its hash and message; for an application it does not know it
  answers with an error. Its store stays as it is.
\<close>

theorem revisions_answered:
  assumes "handler_wf (sv_Handler s)" and "no_nil (sv_Handler s)"
    and "\<forall>a\<in>apps_at (sv_Handler s) (application_GetUrl inm, application_GetName inm).
      x_log X (a_repo a) (path_filter (a_SparsePath a)) w = (Ret commits, w')"
  shows "rpc_GetApplicationRevisions X inm (s, w) =
    (if apps_at (sv_Handler s) (application_GetUrl inm, application_GetName inm) = {}
     then (Fail ErrApplicationNotFound, (s, w))
     else (Ret \<lparr>pvs_Items =
         map (\<lambda>c. \<lparr>pv_Hash = x_hash_string X (c_Hash c), pv_Message = c_Message c\<rparr>) commits\<rparr>, (s, w')))"
proof (cases "apps_at (sv_Handler s) (application_GetUrl inm, application_GetName inm) = {}")
  case True
  with GetApplication_found[OF assms(1,2)] show ?thesis
    by (simp add: rpc_GetApplicationRevisions_def andthen_def)
next
  case False
  with GetApplication_found[OF assms(1,2)] assms(3) obtain a where
    "GetApplication (sv_Handler s) (application_GetName inm) (application_GetUrl inm) = Ret (Some a)"
    "x_log X (a_repo a) (path_filter (a_SparsePath a)) w = (Ret commits, w')" by blast
  with False show ?thesis
    by (simp add: rpc_GetApplicationRevisions_def GetRevisionStringsMap_def getRevisionsWithPathFilter_def
        andthen_def map_get_def comp_def)
qed

theorem revisions_answered_witness:
  "\<exists>a v. rpc_AddOrUpdateApplication sample_offline five_equal app_request (server1, pod_world) = (Ret (), (server_with a, v)) \<and>
     rpc_GetApplicationRevisions sample_offline app_request (server_with a, pod_world) =
       (Ret \<lparr>pvs_Items = [\<lparr>pv_Hash = ''1'', pv_Message = ''old''\<rparr>]\<rparr>, (server_with a, pod_world))"
proof -
  let ?key = "(application_GetUrl app_request, application_GetName app_request)"
  obtain a v where m: "rpc_AddOrUpdateApplication sample_offline five_equal app_request (server1, pod_world) = (Ret (), (server_with a, v))"
    using request_added[of app_request] by auto
  have I: "server_inv (server1, pod_world)" using server1_wf by (simp add: server_inv_def server1_def server0_def)
  have wf: "handler_wf (sv_Handler (server_with a))"
    using maintainsD[OF rpc_AddOrUpdateApplication_inv m _ I] by (simp add: server_inv_def)
  have nil: "no_nil (sv_Handler (server_with a))" by (simp add: no_nil_def)
  from rpc_AddOrUpdateApplication_at[OF sample_foreign five_equal_documented m server1_wf] obtain b where
    b: "apps_at (sv_Handler (server_with a)) ?key = {b}" "a_SparsePath b = ''r''"
    by (auto simp: app_request_def application_GetSparsePath_def)
  have "x_log sample_offline r (path_filter ''r'') pod_world = (Ret [\<lparr>c_Hash = 1, c_Message = ''old''\<rparr>], pod_world)" for r
    by (simp add: sample_offline_def sample_chart_def sample_def s_log_def pod_world_def git_world_def path_filter_def
        HasPrefix_def)
  with b have "\<forall>c\<in>apps_at (sv_Handler (server_with a)) ?key.
      x_log sample_offline (a_repo c) (path_filter (a_SparsePath c)) pod_world = (Ret [\<lparr>c_Hash = 1, c_Message = ''old''\<rparr>], pod_world)"
    by simp
  from revisions_answered[OF wf nil this] b(1)
  have "rpc_GetApplicationRevisions sample_offline app_request (server_with a, pod_world) =
      (Ret \<lparr>pvs_Items = [\<lparr>pv_Hash = ''1'', pv_Message = ''old''\<rparr>]\<rparr>, (server_with a, pod_world))"
    by (simp add: sample_offline_def sample_chart_def s_hash_one)
  with m show ?thesis by blast
qed

text \<open>
  The log is filtered by a prefix of the file names, without a separator: a commit that touches only another
  directory whose name begins with the application's path counts as a revision of the application.
\<close>

lemma path_filter_sibling: "path_filter dir (dir @ CHR ''-'' # other)"
  by (simp add: path_filter_def HasPrefix_def)

end
