(* ===== verification/PoolProofs.thy ===== *)
theory PoolProofs
  imports CleanupPool
begin

section \<open>Runs of a cleanup's goroutines\<close>

text \<open>
  The channels count the goroutines, every run ends, and a completed run has done to the cluster
  what the goroutines do as whole steps, one after the other.
\<close>

subsection \<open>Lists with one element changed or removed\<close>

lemma split_nth:
  assumes "i < length xs"
  obtains ys x zs where "xs = ys @ x # zs" "xs ! i = x"
    "\<forall>y. xs[i := y] = ys @ y # zs" "take i xs @ drop (Suc i) xs = ys @ zs"
proof
  show "xs = take i xs @ xs ! i # drop (Suc i) xs" using assms by (rule id_take_nth_drop)
  show "\<forall>y. xs[i := y] = take i xs @ y # drop (Suc i) xs" by (intro allI upd_conv_take_nth_drop assms)
qed simp_all

subsection \<open>Counting\<close>

definition running :: "'e pool \<Rightarrow> nat \<Rightarrow> nat" where
  "running p b = length (filter (\<lambda>wk. wk_blocker wk = b) (po_workers p))"

definition pool_inv :: "'e pool \<Rightarrow> bool" where
  "pool_inv p \<longleftrightarrow>
     (\<forall>wk\<in>set (po_workers p). wk_blocker wk < length (po_blockers p)) \<and>
     (\<forall>b<length (po_blockers p). po_blockers p ! b = running p b \<and> running p b \<le> blocker_cap) \<and>
     (po_ready p \<noteq> [] \<longrightarrow> po_blockers p \<noteq> [])"

lemma running_set_phase [simp]: "i < length (po_workers p) \<Longrightarrow> running (set_phase i ph p) b = running p b"
  by (rule split_nth[of i "po_workers p"], assumption) (simp add: running_def set_phase_def)

lemma pool_inv_set_phase:
  assumes "pool_inv p" and i: "i < length (po_workers p)"
  shows "pool_inv (set_phase i ph p)"
proof -
  have "wk_blocker ` set (po_workers (set_phase i ph p)) = wk_blocker ` set (po_workers p)"
    by (rule split_nth[OF i]) (simp add: set_phase_def)
  then have "(\<forall>wk\<in>set (po_workers (set_phase i ph p)). wk_blocker wk < n) \<longleftrightarrow>
      (\<forall>wk\<in>set (po_workers p). wk_blocker wk < n)" for n by (metis (no_types, lifting) imageE image_eqI)
  with assms running_set_phase[OF i] show ?thesis by (simp add: pool_inv_def) (simp add: set_phase_def)
qed

lemma pool_inv_world [simp]: "pool_inv (p\<lparr>po_world := w\<rparr>) = pool_inv p"
  by (simp add: pool_inv_def running_def)

lemma pool_inv_start_worker:
  assumes I: "pool_inv p" and r: "po_ready p = t # ts"
    and c: "po_blockers p ! (length (po_blockers p) - 1) < blocker_cap"
  shows "pool_inv (start_worker t p)"
proof -
  let ?b = "length (po_blockers p) - 1"
  have b: "?b < length (po_blockers p)" using I r by (simp add: pool_inv_def)
  have run: "running (start_worker t p) x = (if x = ?b then Suc (running p x) else running p x)" for x
    by (simp add: running_def start_worker_def Let_def)
  have "po_blockers p ! ?b = running p ?b" using I b by (simp add: pool_inv_def)
  with I b c run show ?thesis
    by (auto simp: pool_inv_def nth_list_update start_worker_def Let_def)
qed

lemma pool_inv_end_worker:
  assumes I: "pool_inv p" and i: "i < length (po_workers p)"
  shows "pool_inv (end_worker i p)"
proof -
  let ?b = "wk_blocker (po_workers p ! i)"
  obtain ys x zs where s: "po_workers p = ys @ x # zs" "po_workers p ! i = x"
    "take i (po_workers p) @ drop (Suc i) (po_workers p) = ys @ zs" by (rule split_nth[OF i])
  have n: "length (filter q (ys @ zs)) = length (filter q (po_workers p)) - (if q (po_workers p ! i) then 1 else 0)" for q
    unfolding s(2) by (simp add: s(1))
  have run: "running (end_worker i p) x = (if x = ?b then running p x - 1 else running p x)" for x
    using n[of "\<lambda>wk. wk_blocker wk = x"] s(3) by (auto simp: running_def end_worker_def Let_def)
  have sub: "set (ys @ zs) \<subseteq> set (po_workers p)" by (auto simp: s(1))
  have b: "?b < length (po_blockers p)" using I i by (simp add: pool_inv_def)
  have "\<forall>wk\<in>set (po_workers (end_worker i p)). wk_blocker wk < length (po_blockers (end_worker i p))"
    using I sub s(3) by (auto simp: pool_inv_def end_worker_def Let_def)
  moreover have "po_blockers (end_worker i p) ! x = running (end_worker i p) x \<and> running (end_worker i p) x \<le> blocker_cap"
    if "x < length (po_blockers p)" for x
    using I that b run by (auto simp: pool_inv_def nth_list_update end_worker_def Let_def)
  ultimately show ?thesis
    using I by (simp add: pool_inv_def end_worker_def Let_def)
qed

lemma pool_inv_next_version:
  assumes I: "pool_inv p" and r: "po_ready p = []"
  shows "pool_inv (p\<lparr>po_todo := gvs, po_world := w, po_ready := ts, po_blockers := po_blockers p @ [0]\<rparr>)"
proof -
  have "running p (length (po_blockers p)) = 0"
    using I by (auto simp: running_def pool_inv_def filter_empty_conv)
  with I show ?thesis by (auto simp: pool_inv_def running_def nth_append less_Suc_eq)
qed

lemma pool_inv_start: "pool_inv (pool_start groups w)"
  by (simp add: pool_inv_def pool_start_def)

lemma pool_inv_step: "pool_step X ns sel p q \<Longrightarrow> pool_inv p \<Longrightarrow> pool_inv q"
proof (induction rule: pool_step.induct)
  case (loop p q)
  from loop(1) show ?case
  proof (cases rule: loop_step_cases)
    case (Start t ts)
    then show ?thesis using pool_inv_start_worker loop(2) by metis
  next
    case (Skip g gv gvs e w)
    with loop(2) show ?thesis by (simp add: pool_inv_def running_def)
  next
    case (Version g gv gvs ns' w)
    then show ?thesis using pool_inv_next_version[OF loop(2)] by simp
  qed
next
  case (worker i p q)
  from worker(1) show ?case
  proof (cases rule: worker_step_cases)
    case (List t r w ms)
    then show ?thesis using worker(2) by (simp add: pool_inv_set_phase)
  next
    case (Delete t m ms r w)
    then show ?thesis using worker(2) by (simp add: pool_inv_set_phase)
  next
    case Finish
    then show ?thesis using worker(2) pool_inv_end_worker by blast
  qed
qed

lemma pool_inv_run: "(pool_step X ns sel)\<^sup>*\<^sup>* p q \<Longrightarrow> pool_inv p \<Longrightarrow> pool_inv q"
  by (induction rule: rtranclp_induct) (auto intro: pool_inv_step)

text \<open>The goroutines together are at most ten for each channel made.\<close>

lemma length_by_key:
  "\<forall>x\<in>set xs. f x < (n :: nat) \<Longrightarrow> length xs = (\<Sum>b<n. length (filter (\<lambda>x. f x = b) xs))"
proof (induction xs)
  case (Cons x xs)
  have "(\<Sum>b<n. length (filter (\<lambda>x. f x = b) (x # xs))) =
      (\<Sum>b<n. (if f x = b then 1 else 0) + length (filter (\<lambda>x. f x = b) xs))"
    by (intro sum.cong) auto
  also have "\<dots> = (\<Sum>b<n. if f x = b then 1 else 0) + (\<Sum>b<n. length (filter (\<lambda>x. f x = b) xs))"
    by (rule sum.distrib)
  also have "(\<Sum>b<n. if f x = b then 1 else 0 :: nat) = 1" using Cons.prems by (subst sum.delta') simp_all
  finally show ?case using Cons by simp
qed simp

lemma pool_inv_total: "pool_inv p \<Longrightarrow> length (po_workers p) \<le> blocker_cap * length (po_blockers p)"
proof -
  assume I: "pool_inv p"
  then have "length (po_workers p) = (\<Sum>b<length (po_blockers p). running p b)"
    unfolding running_def by (intro length_by_key) (simp add: pool_inv_def)
  also have "\<dots> \<le> (\<Sum>b<length (po_blockers p). blocker_cap)"
    using I by (intro sum_mono) (simp add: pool_inv_def)
  finally show ?thesis by (simp add: mult.commute)
qed

subsection \<open>Every run ends\<close>

definition listing :: "worker \<Rightarrow> nat" where
  "listing wk = (case wk_phase wk of Listing \<Rightarrow> 1 | Deleting _ \<Rightarrow> 0)"

definition left_to_do :: "worker \<Rightarrow> nat" where
  "left_to_do wk = (case wk_phase wk of Listing \<Rightarrow> 0 | Deleting ms \<Rightarrow> Suc (length ms))"

definition pool_order :: "('e pool \<times> 'e pool) set" where
  "pool_order = measures [\<lambda>p. length (po_todo p), \<lambda>p. length (po_ready p),
     \<lambda>p. sum_list (map listing (po_workers p)), \<lambda>p. sum_list (map left_to_do (po_workers p))]"

lemma sum_set_phase:
  assumes "i < length (po_workers p)"
  shows "sum_list (map f (po_workers (set_phase i ph p))) + f (po_workers p ! i) =
    sum_list (map f (po_workers p)) + (f ((po_workers p ! i)\<lparr>wk_phase := ph\<rparr>) :: nat)"
proof -
  obtain ys x zs where s: "po_workers p = ys @ x # zs" "po_workers p ! i = x"
    "\<forall>y. (po_workers p)[i := y] = ys @ y # zs" by (rule split_nth[OF assms])
  show ?thesis unfolding set_phase_def s(2) by (simp add: s(3)) (simp add: s(1))
qed

lemma sum_end_worker:
  assumes "i < length (po_workers p)"
  shows "sum_list (map f (po_workers (end_worker i p))) + (f (po_workers p ! i) :: nat) = sum_list (map f (po_workers p))"
proof -
  obtain ys x zs where s: "po_workers p = ys @ x # zs" "po_workers p ! i = x"
    "take i (po_workers p) @ drop (Suc i) (po_workers p) = ys @ zs" by (rule split_nth[OF assms])
  have "po_workers (end_worker i p) = ys @ zs" using s(3) by (simp add: end_worker_def Let_def)
  then show ?thesis unfolding s(2) by (simp add: s(1))
qed

lemma set_phase_simps [simp]:
  "po_todo (set_phase i ph p) = po_todo p" "po_ready (set_phase i ph p) = po_ready p"
  "po_blockers (set_phase i ph p) = po_blockers p" "po_world (set_phase i ph p) = po_world p"
  by (simp_all add: set_phase_def)

lemma end_worker_simps [simp]:
  "po_todo (end_worker i p) = po_todo p" "po_ready (end_worker i p) = po_ready p" "po_world (end_worker i p) = po_world p"
  by (simp_all add: end_worker_def Let_def)

lemma start_worker_simps [simp]:
  "po_todo (start_worker t p) = po_todo p" "po_ready (start_worker t p) = tl (po_ready p)"
  "po_world (start_worker t p) = po_world p"
  by (simp_all add: start_worker_def Let_def)

lemma pool_step_decreases: "pool_step X ns sel p q \<Longrightarrow> (q, p) \<in> pool_order"
proof (induction rule: pool_step.induct)
  case (loop p q)
  then show ?case by (cases rule: loop_step_cases) (simp_all add: pool_order_def)
next
  case (worker i p q)
  then show ?case
  proof (cases rule: worker_step_cases)
    case (List t r w ms)
    with sum_set_phase[of i "p\<lparr>po_world := w\<rparr>" listing "Deleting ms"] show ?thesis
      by (simp add: pool_order_def listing_def)
  next
    case (Delete t m ms r w)
    with sum_set_phase[of i "p\<lparr>po_world := w\<rparr>" listing "Deleting ms"]
      sum_set_phase[of i "p\<lparr>po_world := w\<rparr>" left_to_do "Deleting ms"] show ?thesis
      by (simp add: pool_order_def listing_def left_to_do_def)
  next
    case Finish
    with sum_end_worker[of i p listing] sum_end_worker[of i p left_to_do] show ?thesis
      by (simp add: pool_order_def listing_def left_to_do_def)
  qed
qed

lemma pool_step_wf: "wf {(q, p). pool_step X ns sel p q}"
  by (rule wf_subset[of pool_order]) (auto simp: pool_order_def intro: pool_step_decreases[unfolded pool_order_def])

subsection \<open>Nothing gets stuck\<close>

lemma pool_progress:
  assumes X: "cluster_reads X view" "cluster_writes X view" "discovery X groups kinds"
    and I: "pool_inv p" and "\<not> pool_done p"
  shows "\<exists>q. pool_step X ns sel p q"
proof (cases "po_workers p")
  case (Cons wk wks)
  then have i: "0 < length (po_workers p)" "po_workers p ! 0 = wk" by simp_all
  have "\<exists>q. worker_step X 0 p = (Ret True, q)"
  proof (cases "wk_phase wk")
    case Listing
    obtain ms where "x_list X (ct_gvr (wk_task wk)) (ct_namespace (wk_task wk)) (ct_selector (wk_task wk)) (po_world p)
        = (Ret ms, po_world p)" by (rule cluster_list[OF X(1)])
    with i Listing show ?thesis by (simp add: worker_step_def in_pool_def attempt_def andthen_def)
  next
    case (Deleting ms)
    show ?thesis
    proof (cases ms)
      case Nil
      have "running p (wk_blocker wk) \<noteq> 0" using Cons by (simp add: running_def)
      moreover have "po_blockers p ! wk_blocker wk = running p (wk_blocker wk)"
        using I Cons by (simp add: pool_inv_def)
      ultimately show ?thesis using i Deleting Nil by (simp add: worker_step_def)
    next
      case (Cons m ms')
      obtain r w where "x_delete X (ct_gvr (wk_task wk)) (ct_namespace (wk_task wk)) (m_name m) (po_world p) = (r, w)"
        "r = Ret () \<or> (\<exists>e. r = Fail e)" by (rule cluster_delete[OF X(2)])
      with i Deleting Cons show ?thesis by (auto simp: worker_step_def in_pool_def attempt_def andthen_def)
    qed
  qed
  then show ?thesis by (blast intro: pool_step.worker)
next
  case Nil
  have "\<exists>q. loop_step X ns sel p = (Ret True, q)"
  proof (cases "po_ready p")
    case (Cons t ts)
    then have "po_blockers p ! (length (po_blockers p) - 1) = 0"
      using I Nil by (simp add: pool_inv_def running_def)
    with Cons show ?thesis by (simp add: loop_step_def blocker_cap_def)
  next
    case ready: Nil
    with Nil assms(5) obtain g gv gvs where "po_todo p = (g, gv) # gvs"
      by (cases "po_todo p") (auto simp: pool_done_def)
    with ready X(3) show ?thesis
      by (cases "kinds (fst gv)")
        (auto simp: loop_step_def next_version_def in_pool_def attempt_def andthen_def discovery_def)
  qed
  then show ?thesis by (blast intro: pool_step.loop)
qed

lemma pool_completes:
  assumes X: "cluster_reads X view" "cluster_writes X view" "discovery X groups kinds" and "pool_inv p"
  shows "\<exists>q. (pool_step X ns sel)\<^sup>*\<^sup>* p q \<and> pool_done q"
  using assms(4)
proof (induction p rule: wf_induct_rule[OF pool_step_wf[of X ns sel]])
  case (1 p)
  show ?case
  proof (cases "pool_done p")
    case False
    with pool_progress[OF X 1(2)] obtain q where q: "pool_step X ns sel p q" by blast
    with 1 pool_inv_step[OF q] show ?thesis by (blast intro: converse_rtranclp_into_rtranclp)
  qed blast
qed

subsection \<open>What a completed run has deleted\<close>

definition version_list :: "(string \<Rightarrow> string list option) \<Rightarrow> string \<Rightarrow> requirement list \<Rightarrow>
    (string \<times> string \<times> string) list \<Rightarrow> clean_task list" where
  "version_list kinds ns sel gvs =
     concat (map (\<lambda>(g, gv). resource_tasks ns sel g gv (kind_names kinds (fst gv))) gvs)"

lemma version_list_simps [simp]:
  "version_list kinds ns sel [] = []"
  "version_list kinds ns sel ((g, gv) # gvs) =
     resource_tasks ns sel g gv (kind_names kinds (fst gv)) @ version_list kinds ns sel gvs"
  by (simp_all add: version_list_def)

lemma group_tasks_list:
  "discovery X groups kinds \<Longrightarrow>
     group_tasks X ns sel groups w = (Ret (version_list kinds ns sel (group_versions groups)), w)"
  using map_each_pure[of "group_versions groups" "\<lambda>(g, gv). version_tasks X ns sel g gv" w
      "\<lambda>(g, gv). resource_tasks ns sel g gv (kind_names kinds (fst gv))"]
  by (auto simp: group_tasks_def version_list_def group_versions_def version_tasks_run resource_tasks_def)

definition covers :: "(obj_key \<rightharpoonup> manifest) \<Rightarrow> worker \<Rightarrow> bool" where
  "covers objs wk \<longleftrightarrow> (case wk_phase wk of Listing \<Rightarrow> True
     | Deleting ms \<Rightarrow> \<forall>k. matching (wk_task wk) objs k \<longrightarrow> snd (snd k) \<in> m_name ` set ms)"

definition task_key :: "clean_task \<Rightarrow> manifest \<Rightarrow> obj_key" where
  "task_key t m = (ct_gvr t, ct_namespace t, m_name m)"

definition deletes_only :: "(obj_key \<rightharpoonup> manifest) \<Rightarrow> worker \<Rightarrow> bool" where
  "deletes_only objs wk \<longleftrightarrow> (case wk_phase wk of Listing \<Rightarrow> True
     | Deleting ms \<Rightarrow> \<forall>m\<in>set ms. matching (wk_task wk) objs (task_key (wk_task wk) m))"

text \<open>
  The invariant of a run from the objects \<open>v0\<close> for the tasks \<open>all\<close>: only matching objects are gone, and
  a task is to come, or its goroutine will delete what is left of it, or nothing is left.
\<close>

definition cleaning :: "clean_task set \<Rightarrow> (obj_key \<rightharpoonup> manifest) \<Rightarrow> (obj_key \<rightharpoonup> manifest) \<Rightarrow>
    clean_task list \<Rightarrow> worker list \<Rightarrow> bool" where
  "cleaning all v0 v pend wks \<longleftrightarrow>
     (\<forall>k. v k = v0 k \<or> v k = None \<and> (\<exists>t\<in>all. matching t v0 k)) \<and>
     (\<forall>t\<in>all. t \<in> set pend \<or> (\<exists>wk\<in>set wks. wk_task wk = t) \<or> (\<forall>k. \<not> matching t v k)) \<and>
     (\<forall>wk\<in>set wks. wk_task wk \<in> all \<and> covers v wk \<and> deletes_only v0 wk) \<and> set pend \<subseteq> all"

lemma matching_shrink: "matching t v' k \<Longrightarrow> (\<And>k. v' k = v k \<or> v' k = None) \<Longrightarrow> matching t v k"
  unfolding matching_def by (metis option.distinct(1))

lemma covers_shrink: "covers v wk \<Longrightarrow> (\<And>k. v' k = v k \<or> v' k = None) \<Longrightarrow> covers v' wk"
  using matching_shrink[of "wk_task wk" v' _ v] by (cases "wk_phase wk") (simp_all add: covers_def del: split_paired_All)

lemma cleaning_view: "cleaning all v0 v pend wks \<Longrightarrow> v k = v0 k \<or> v k = None \<and> (\<exists>t\<in>all. matching t v0 k)"
  unfolding cleaning_def by blast

lemma cleaning_start: "cleaning all v0 v (t # pend) wks \<Longrightarrow>
    cleaning all v0 v pend (wks @ [\<lparr>wk_blocker = b, wk_task = t, wk_phase = Listing\<rparr>])"
  unfolding cleaning_def by (auto simp: covers_def deletes_only_def)

lemma cleaning_replace:
  assumes C: "cleaning all v0 v pend (ys @ x # zs)"
    and v': "\<And>k. v' k = v k \<or> v' k = None \<and> matching (wk_task x) v0 k"
    and y: "wk_task y = wk_task x" "covers v' y" "deletes_only v0 y"
  shows "cleaning all v0 v' pend (ys @ y # zs)"
proof -
  have shrink: "v' k = v k \<or> v' k = None" for k using v'[of k] by auto
  have "v' k = v0 k \<or> v' k = None \<and> (\<exists>t\<in>all. matching t v0 k)" for k
  proof -
    have "wk_task x \<in> all" using C by (simp add: cleaning_def)
    with v'[of k] cleaning_view[OF C, of k] show ?thesis by metis
  qed
  moreover have "t \<in> set pend \<or> (\<exists>wk\<in>set (ys @ y # zs). wk_task wk = t) \<or> (\<forall>k. \<not> matching t v' k)"
    if "t \<in> all" for t
  proof -
    from C that have "t \<in> set pend \<or> (\<exists>wk\<in>set (ys @ x # zs). wk_task wk = t) \<or> (\<forall>k. \<not> matching t v k)"
      by (simp add: cleaning_def)
    moreover have "matching t v' k \<Longrightarrow> matching t v k" for k by (rule matching_shrink[OF _ shrink])
    ultimately show ?thesis using y(1) by (auto simp del: split_paired_All)
  qed
  moreover have "\<forall>wk\<in>set (ys @ y # zs). wk_task wk \<in> all \<and> covers v' wk \<and> deletes_only v0 wk"
    using C y covers_shrink[OF _ shrink] by (auto simp: cleaning_def)
  ultimately show ?thesis using C by (simp add: cleaning_def)
qed

lemma cleaning_remove:
  assumes C: "cleaning all v0 v pend (ys @ x # zs)" and x: "wk_phase x = Deleting []"
  shows "cleaning all v0 v pend (ys @ zs)"
proof -
  have "\<forall>k. \<not> matching (wk_task x) v k" using C x by (simp add: cleaning_def covers_def)
  moreover from C have "t \<in> set pend \<or> t = wk_task x \<or> (\<exists>wk\<in>set (ys @ zs). wk_task wk = t) \<or> (\<forall>k. \<not> matching t v k)"
    if "t \<in> all" for t using that by (auto simp: cleaning_def)
  ultimately have "t \<in> set pend \<or> (\<exists>wk\<in>set (ys @ zs). wk_task wk = t) \<or> (\<forall>k. \<not> matching t v k)" if "t \<in> all" for t
    using that by metis
  with C show ?thesis by (simp add: cleaning_def)
qed

definition pool_cleaning :: "('e world \<Rightarrow> obj_key \<rightharpoonup> manifest) \<Rightarrow> (string \<Rightarrow> string list option) \<Rightarrow> string \<Rightarrow>
    requirement list \<Rightarrow> clean_task set \<Rightarrow> (obj_key \<rightharpoonup> manifest) \<Rightarrow> 'e pool \<Rightarrow> bool" where
  "pool_cleaning view kinds ns sel all v0 p \<longleftrightarrow>
     cleaning all v0 (view (po_world p)) (po_ready p @ version_list kinds ns sel (po_todo p)) (po_workers p)"

lemma pool_cleaning_start:
  "pool_cleaning view kinds ns sel (set (version_list kinds ns sel (group_versions groups))) (view w) (pool_start groups w)"
  by (simp add: pool_cleaning_def pool_start_def cleaning_def)

lemma discovery_resources:
  "discovery X groups kinds \<Longrightarrow> x_server_resources X gv w = (r, w') \<Longrightarrow> w' = w \<and>
     (r = Ret (kind_names kinds gv) \<or> (\<exists>e. r = Fail e) \<and> kind_names kinds gv = [])"
  by (auto simp: discovery_def kind_names_def split: option.splits)

lemma resource_tasks_Nil [simp]: "resource_tasks ns sel g gv [] = []"
  by (simp add: resource_tasks_def)

lemma pool_cleaning_loop:
  assumes D: "discovery X groups kinds" and s: "loop_step X ns sel p = (Ret True, q)"
    and C: "pool_cleaning view kinds ns sel all v0 p"
  shows "pool_cleaning view kinds ns sel all v0 q"
  using s
proof (cases rule: loop_step_cases)
  case (Start t ts)
  then have "cleaning all v0 (view (po_world p)) (t # (ts @ version_list kinds ns sel (po_todo p))) (po_workers p)"
    using C by (simp add: pool_cleaning_def)
  from cleaning_start[OF this] Start show ?thesis by (simp add: pool_cleaning_def start_worker_def Let_def)
next
  case (Skip g gv gvs e w)
  with C discovery_resources[OF D Skip(3)] show ?thesis by (simp add: pool_cleaning_def)
next
  case (Version g gv gvs ns' w)
  with C discovery_resources[OF D Version(3)] show ?thesis by (simp add: pool_cleaning_def)
qed

lemma set_phase_world [simp]: "po_workers (set_phase i ph (p\<lparr>po_world := w\<rparr>)) = po_workers (set_phase i ph p)"
  by (simp add: set_phase_def)

lemma worker_split:
  assumes "i < length (po_workers p)"
  obtains ys x zs where "po_workers p = ys @ x # zs" "po_workers p ! i = x"
    "\<forall>ph. po_workers (set_phase i ph p) = ys @ x\<lparr>wk_phase := ph\<rparr> # zs"
    "po_workers (end_worker i p) = ys @ zs"
proof -
  obtain ys x zs where s: "po_workers p = ys @ x # zs" "po_workers p ! i = x"
    "\<forall>y. (po_workers p)[i := y] = ys @ y # zs" "take i (po_workers p) @ drop (Suc i) (po_workers p) = ys @ zs"
    by (rule split_nth[OF assms])
  show thesis
    by (rule that[OF s(1,2)]) (use s in \<open>simp_all add: set_phase_def end_worker_def Let_def\<close>)
qed

text \<open>A goroutine that has listed what its selector matches, and one that has deleted the next object.\<close>

lemma cleaning_listed:
  assumes C: "cleaning all v0 v ts (ys @ x # zs)"
    and ms: "m_name ` set ms = {n. \<exists>m. v (ct_gvr (wk_task x), ct_namespace (wk_task x), n) = Some m \<and>
      sel_matches (ct_selector (wk_task x)) (m_labels m)}"
  shows "cleaning all v0 v ts (ys @ x\<lparr>wk_phase := Deleting ms\<rparr> # zs)"
proof (rule cleaning_replace[OF C])
  have sub: "v k = v0 k \<or> v k = None" for k using cleaning_view[OF C, of k] by auto
  have "matching (wk_task x) v (task_key (wk_task x) m)" if "m \<in> set ms" for m
    using imageI[OF that, of m_name] unfolding ms matching_def task_key_def by blast
  with matching_shrink[OF _ sub] show "deletes_only v0 (x\<lparr>wk_phase := Deleting ms\<rparr>)" by (simp add: deletes_only_def)
  show "covers v (x\<lparr>wk_phase := Deleting ms\<rparr>)" by (auto simp: covers_def matching_def ms)
qed simp_all

lemma cleaning_deleted:
  assumes C: "cleaning all v0 v ts (ys @ x # zs)" and x: "wk_phase x = Deleting (m # ms)"
    and v': "v' = v(task_key (wk_task x) m := None)"
  shows "cleaning all v0 v' ts (ys @ x\<lparr>wk_phase := Deleting ms\<rparr> # zs)"
proof (rule cleaning_replace[OF C])
  let ?t = "wk_task x"
  have d: "\<forall>m'\<in>set (m # ms). matching ?t v0 (task_key ?t m')"
    using C x by (simp add: cleaning_def deletes_only_def)
  show "v' k = v k \<or> v' k = None \<and> matching ?t v0 k" for k using d by (simp add: v')
  show "deletes_only v0 (x\<lparr>wk_phase := Deleting ms\<rparr>)" using d by (simp add: deletes_only_def)
  have c: "\<forall>k. matching ?t v k \<longrightarrow> snd (snd k) \<in> m_name ` set (m # ms)"
    using C x by (simp add: cleaning_def covers_def)
  have "snd (snd k) \<in> m_name ` set ms" if "matching ?t v' k" for k
  proof -
    from that have "matching ?t v k" "k \<noteq> task_key ?t m" "fst k = ct_gvr ?t" "fst (snd k) = ct_namespace ?t"
      by (auto simp: v' matching_def split: if_splits)
    moreover from c this(1) have "snd (snd k) \<in> m_name ` set (m # ms)" by blast
    ultimately show ?thesis by (auto simp: task_key_def prod_eq_iff simp del: split_paired_All)
  qed
  then show "covers v' (x\<lparr>wk_phase := Deleting ms\<rparr>)" by (simp add: covers_def)
qed simp

lemma pool_cleaning_worker:
  assumes X: "cluster_reads X view" "cluster_writes X view" and s: "worker_step X i p = (Ret True, q)"
    and C: "pool_cleaning view kinds ns sel all v0 p"
  shows "pool_cleaning view kinds ns sel all v0 q"
proof -
  have "i < length (po_workers p)" using s by (cases rule: worker_step_cases)
  then obtain ys x zs where split: "po_workers p = ys @ x # zs" "po_workers p ! i = x"
    "\<forall>ph. po_workers (set_phase i ph p) = ys @ x\<lparr>wk_phase := ph\<rparr> # zs"
    "po_workers (end_worker i p) = ys @ zs" by (rule worker_split)
  let ?v = "view (po_world p)" and ?t = "wk_task x"
  have C': "cleaning all v0 ?v (po_ready p @ version_list kinds ns sel (po_todo p)) (ys @ x # zs)"
    using C by (simp add: pool_cleaning_def split(1))
  show ?thesis using s
  proof (cases rule: worker_step_cases)
    case (List t r w ms)
    obtain ms' where ms': "x_list X (ct_gvr ?t) (ct_namespace ?t) (ct_selector ?t) (po_world p) = (Ret ms', po_world p)"
      "m_name ` set ms' = {n. \<exists>m. ?v (ct_gvr ?t, ct_namespace ?t, n) = Some m \<and> sel_matches (ct_selector ?t) (m_labels m)}"
      by (rule cluster_list[OF X(1)])
    have "w = po_world p" "ms = ms'" using List(2,4,5) split(2) ms'(1) by auto
    with cleaning_listed[OF C' ms'(2)] List(6) split(3) show ?thesis by (simp add: pool_cleaning_def)
  next
    case (Delete t m ms r w)
    obtain w' where "x_delete X (ct_gvr ?t) (ct_namespace ?t) (m_name m) (po_world p) = (r, w')"
      "view w' = ?v((ct_gvr ?t, ct_namespace ?t, m_name m) := None)"
      using cluster_delete[OF X(2), of "ct_gvr ?t" "ct_namespace ?t" "m_name m" "po_world p"] Delete(2,4) split(2)
      by (metis prod.inject)
    then have "view w = ?v(task_key ?t m := None)" using Delete(2,4) split(2) by (simp add: task_key_def)
    from cleaning_deleted[OF C' _ this] Delete(3,5) split(2,3) show ?thesis by (simp add: pool_cleaning_def)
  next
    case Finish
    with cleaning_remove[OF C'] split show ?thesis by (simp add: pool_cleaning_def)
  qed
qed

lemma pool_cleaning_run:
  assumes X: "cluster_reads X view" "cluster_writes X view" "discovery X groups kinds"
    and "(pool_step X ns sel)\<^sup>*\<^sup>* p q" and "pool_cleaning view kinds ns sel all v0 p"
  shows "pool_cleaning view kinds ns sel all v0 q"
  using assms(4,5)
proof (induction rule: rtranclp_induct)
  case (step q q')
  from step(2) show ?case
  proof cases
    case loop
    then show ?thesis using pool_cleaning_loop[OF X(3)] step by blast
  next
    case (worker i)
    then show ?thesis using pool_cleaning_worker[OF X(1,2)] step by blast
  qed
qed

lemma pool_cleaning_done:
  assumes "pool_cleaning view kinds ns sel all v0 p" and "pool_done p"
  shows "view (po_world p) = (\<lambda>k. if \<exists>t\<in>all. matching t v0 k then None else v0 k)"
proof
  fix k
  have C: "cleaning all v0 (view (po_world p)) [] []" using assms by (simp add: pool_cleaning_def pool_done_def)
  have "\<forall>t\<in>all. \<not> matching t (view (po_world p)) k" using C by (simp add: cleaning_def del: split_paired_All)
  moreover have "view (po_world p) k = v0 k \<Longrightarrow> matching t (view (po_world p)) k \<longleftrightarrow> matching t v0 k" for t
    by (auto simp: matching_def)
  ultimately show "view (po_world p) k = (if \<exists>t\<in>all. matching t v0 k then None else v0 k)"
    using cleaning_view[OF C, of k] by auto
qed

end
