(* ===== verification/PoolProps.thy ===== *)
theory PoolProps
  imports PoolProofs
begin

section \<open>Properties of the cleanup's goroutines\<close>

text \<open>
  How many goroutines a cleanup runs at once, that it ends, that the order of their steps does not
  matter, and what a goroutine that is late does to the next delivery.
\<close>

subsection \<open>Bounds, termination, refinement\<close>

lemma group_versions_made:
  "pool_step X ns sel p q \<Longrightarrow> length (po_blockers q) + length (po_todo q) \<le> length (po_blockers p) + length (po_todo p)"
proof (induction rule: pool_step.induct)
  case (loop p q)
  then show ?case
    by (cases rule: loop_step_cases) (simp_all add: start_worker_def Let_def)
next
  case (worker i p q)
  then show ?case
    by (cases rule: worker_step_cases) (simp_all add: end_worker_def Let_def)
qed

lemma group_versions_run:
  "(pool_step X ns sel)\<^sup>*\<^sup>* p q \<Longrightarrow>
     length (po_blockers q) + length (po_todo q) \<le> length (po_blockers p) + length (po_todo p)"
proof (induction rule: rtranclp_induct)
  case (step q q')
  then show ?case using group_versions_made by (meson le_trans)
qed simp

text \<open>
  C17. In every interleaving of a cleanup, whatever the API server answers, the elements in a channel
  are the running goroutines of its group version, at most ten. The channel is made anew for each
  group version, so that ten bounds the goroutines of one version; all together they are at most ten for
  each version.
\<close>

theorem cleanup_pool_bounded:
  assumes "(pool_step X ns sel)\<^sup>*\<^sup>* (pool_start groups w) p"
  shows "(\<forall>b<length (po_blockers p).
      po_blockers p ! b = length (filter (\<lambda>wk. wk_blocker wk = b) (po_workers p)) \<and> po_blockers p ! b \<le> 10) \<and>
    length (po_workers p) \<le> 10 * length (group_versions groups)"
proof -
  have I: "pool_inv p" using pool_inv_run[OF assms pool_inv_start] .
  have "length (po_workers p) \<le> 10 * length (po_blockers p)"
    using pool_inv_total[OF I] by (simp add: blocker_cap_def)
  moreover have "length (po_blockers p) \<le> length (group_versions groups)"
    using group_versions_run[OF assms] by (simp add: pool_start_def)
  ultimately show ?thesis using I by (auto simp: pool_inv_def running_def blocker_cap_def)
qed

text \<open>A run that has two goroutines of the first group version under way.\<close>

definition sample_task :: "string \<Rightarrow> clean_task" where
  "sample_task n = \<lparr>ct_gvr = \<lparr>g_group = [], g_version = ''v1'', g_resource = n\<rparr>, ct_namespace = ''default'', ct_selector = []\<rparr>"

definition sample_pool :: "sample_ext pool" where
  "sample_pool = \<lparr>po_todo = [(''x'', ''x/v1'', ''v1'')], po_ready = [], po_blockers = [2],
     po_workers = map (\<lambda>n. \<lparr>wk_blocker = 0, wk_task = sample_task n, wk_phase = Listing\<rparr>) [''configmaps'', ''secrets''],
     po_world = world0\<rparr>"

lemma sample_pool_run: "(pool_step sample ''default'' [])\<^sup>*\<^sup>* (pool_start sample_groups world0) sample_pool"
proof -
  let ?step = "pool_step sample ''default'' []"
  let ?a = "pool_start sample_groups world0"
  let ?b = "\<lparr>po_todo = [(''x'', ''x/v1'', ''v1'')], po_ready = map sample_task [''configmaps'', ''secrets''], po_blockers = [0],
      po_workers = [], po_world = world0\<rparr>"
  have "?step ?a ?b"
    by (rule pool_step.loop) (simp add: loop_step_def pool_start_def group_versions_def sample_groups_def next_version_def
        in_pool_def attempt_def andthen_def sample_def sample_kinds_def resource_tasks_def sample_task_def)
  moreover have "?step ?b (start_worker (sample_task ''configmaps'') ?b)"
    by (rule pool_step.loop) (simp add: loop_step_def blocker_cap_def)
  moreover have "?step (start_worker (sample_task ''configmaps'') ?b) sample_pool"
    by (rule pool_step.loop) (simp add: loop_step_def start_worker_def blocker_cap_def sample_pool_def)
  ultimately show ?thesis by (meson converse_rtranclp_into_rtranclp rtranclp.rtrancl_refl)
qed

theorem cleanup_pool_bounded_witness:
  "po_blockers sample_pool ! 0 = length (po_workers sample_pool) \<and> length (po_workers sample_pool) \<le> 20"
proof -
  have "length (group_versions sample_groups) = 2" by (simp add: group_versions_def sample_groups_def)
  with cleanup_pool_bounded[OF sample_pool_run] show ?thesis by (simp add: sample_pool_def)
qed

text \<open>
  C16. A cleanup ends: no schedule of the loop and its goroutines is infinite, whatever the API server
  answers, and where its calls return, no reachable state is stuck, so that every run can only end with
  all group versions visited and no goroutine left.
\<close>

theorem cleanup_pool_finishes:
  assumes "cluster_reads X view" and "cluster_writes X view" and "discovery X groups kinds"
    and "(pool_step X ns sel)\<^sup>*\<^sup>* (pool_start groups w) p"
  shows "wf {(q', q). pool_step X ns sel q q'} \<and>
    (pool_done p \<or> (\<exists>q. pool_step X ns sel p q)) \<and>
    (\<exists>q. (pool_step X ns sel)\<^sup>*\<^sup>* p q \<and> pool_done q)"
proof -
  have I: "pool_inv p" using pool_inv_run[OF assms(4) pool_inv_start] .
  with pool_step_wf pool_progress[OF assms(1-3) I] pool_completes[OF assms(1-3) I] show ?thesis by blast
qed

theorem cleanup_pool_finishes_witness:
  "\<exists>q. (pool_step sample ''default'' [])\<^sup>*\<^sup>* sample_pool q \<and> pool_done q"
  using cleanup_pool_finishes[OF sample_reads sample_writes sample_discovery sample_pool_run] by blast

text \<open>
  C15. The order of the steps does not matter: however the loop, the list calls and the single delete
  calls of a cleanup interleave, a completed run leaves the cluster as the goroutines leave it when they
  run one after the other, each as one step, in any order after the loop has ended.
\<close>

theorem cleanup_pool_refines:
  assumes "cluster_reads X view" and "cluster_writes X view" and "discovery X groups kinds"
    and "(pool_step X ns sel)\<^sup>*\<^sup>* (pool_start groups w) p" and "pool_done p"
  shows "\<exists>ts. group_tasks X ns sel groups w = (Ret ts, w) \<and>
    (\<forall>ts'. mset ts' = mset ts \<longrightarrow>
       (\<exists>w'. for_each (run_clean_task X) ts' w = (Ret (), w') \<and> view w' = view (po_world p)))"
proof -
  let ?ts = "version_list kinds ns sel (group_versions groups)"
  have v: "view (po_world p) = (\<lambda>k. if \<exists>t\<in>set ?ts. matching t (view w) k then None else view w k)"
    using pool_cleaning_done[OF pool_cleaning_run[OF assms(1-4) pool_cleaning_start] assms(5)] .
  have "\<exists>w'. for_each (run_clean_task X) ts' w = (Ret (), w') \<and> view w' = view (po_world p)"
    if "mset ts' = mset ?ts" for ts'
    using run_clean_tasks_spec[OF assms(1,2), of ts' w] mset_eq_setD[OF that] v by auto
  with group_tasks_list[OF assms(3)] show ?thesis by blast
qed

theorem cleanup_pool_refines_witness:
  "\<exists>q ts w'. (pool_step sample ''default'' [])\<^sup>*\<^sup>* (pool_start sample_groups world0) q \<and>
     group_tasks sample ''default'' [] sample_groups world0 = (Ret ts, world0) \<and>
     for_each (run_clean_task sample) (rev ts) world0 = (Ret (), w') \<and> s_view w' = s_view (po_world q)"
proof -
  obtain q where q: "(pool_step sample ''default'' [])\<^sup>*\<^sup>* sample_pool q" "pool_done q"
    using pool_completes[OF sample_reads sample_writes sample_discovery pool_inv_run[OF sample_pool_run pool_inv_start]] by blast
  have r: "(pool_step sample ''default'' [])\<^sup>*\<^sup>* (pool_start sample_groups world0) q"
    using sample_pool_run q(1) by simp
  from cleanup_pool_refines[OF sample_reads sample_writes sample_discovery r q(2)] obtain ts where ts:
    "group_tasks sample ''default'' [] sample_groups world0 = (Ret ts, world0)"
    "\<And>ts'. mset ts' = mset ts \<Longrightarrow>
       \<exists>w'. for_each (run_clean_task sample) ts' world0 = (Ret (), w') \<and> s_view w' = s_view (po_world q)" by blast
  have "mset (rev ts) = mset ts" by simp
  from ts(2)[OF this] ts(1) r show ?thesis by blast
qed

subsection \<open>A goroutine that is late\<close>

text \<open>
  C39. Nobody waits for the deletion goroutines, and the provider is unlocked while they still run. A
  goroutine that a cleanup of one revision has started selects every object of the application that does
  not carry that revision: when it lists after the next revision has been delivered, it deletes the
  objects this delivery has just created or replaced.
\<close>

theorem late_cleanup_deletes_delivery:
  assumes "cluster_reads X view" and "cluster_writes X view" and "discovery X groups kinds"
    and "accepts_label X (rp_appName p)" and "accepts_label X (x_hash_string X h1)"
    and "\<not> IsZero h1" and "rp_mutex p" and "raw_ok p" and "x_hash_string X h1 \<noteq> x_hash_string X h2"
    and "cleanup_goroutine X h1 (p, w) = (Ret (), (p1, w\<lparr>spawned := spawned w @ ts\<rparr>))"
    and "delivery_resources X p1 w1 = Ret rs" and "distinct (map (resource_key (rp_namespace p1)) rs)"
    and "raw_Delivery X h2 (p1, w1) = (Ret (), (p2, w2))"
    and "r \<in> set rs" and "resource_gvr r \<in> discovered groups kinds"
    and "view w2 (resource_key (rp_namespace p1) r) \<noteq> view w1 (resource_key (rp_namespace p1) r)"
  shows "\<exists>w3. for_each (run_clean_task X) ts w2 = (Ret (), w3) \<and> view w3 (resource_key (rp_namespace p1) r) = None"
proof -
  let ?k = "resource_key (rp_namespace p1) r"
  from cleanResources_spawns[OF assms(3-7), of False w] obtain us where us:
    "cleanResources X False h1 (p, w) = (Ret (), (p\<lparr>rp_mutex := False\<rparr>, w\<lparr>spawned := spawned w @ us\<rparr>))"
    "ct_gvr ` set us = discovered groups kinds"
    "\<forall>t\<in>set us. ct_namespace t = rp_namespace p \<and>
       ct_selector t = stale_selector False (rp_appName p) (x_hash_string X h1)" by blast
  have p1: "p1 = p\<lparr>rp_mutex := False, rp_cleanups := rp_cleanups p - 1\<rparr>" and "w\<lparr>spawned := spawned w @ ts\<rparr> = w\<lparr>spawned := spawned w @ us\<rparr>"
    using assms(10) by (simp_all add: cleanup_goroutine_def us(1))
  from arg_cong[OF this(2), of spawned] have ts: "ts = us" by simp
  from raw_Delivery_spec[OF assms(1,2,11,12), of h2] assms(13) have d:
    "rp_labels p2 = (rp_labels p1)(revision_label \<mapsto> x_hash_string X h2)"
    "\<forall>r\<in>set rs. delivered (rp_labels p2) (r_obj r)
       (view w1 (resource_key (rp_namespace p1) r)) (view w2 (resource_key (rp_namespace p1) r))" by auto
  from d(2) assms(14,16) obtain rv where "view w2 ?k = Some ((r_obj r)\<lparr>m_labels := rp_labels p2, m_resourceVersion := rv\<rparr>)"
    by (fastforce simp: delivered_def split: option.splits if_splits)
  then have "stale False (discovered groups kinds) p (x_hash_string X h1) (view w2) ?k"
    using assms(8,9,15) by (simp add: stale_def resource_key_def d(1) p1 raw_ok_def)
  with stale_tasks_run[OF assms(1,2) us(2,3), of ts w2] ts show ?thesis by auto
qed

theorem late_cleanup_deletes_delivery_witness:
  "\<exists>p1 ts p2 w2 w3. cleanup_goroutine sample 1 (raw2, world0) = (Ret (), (p1, world0\<lparr>spawned := ts\<rparr>)) \<and>
     raw_Delivery sample 2 (p1, world0) = (Ret (), (p2, w2)) \<and> s_view w2 (cm_gvr, ''default'', ''c'') \<noteq> None \<and>
     for_each (run_clean_task sample) ts w2 = (Ret (), w3) \<and> s_view w3 (cm_gvr, ''default'', ''c'') = None"
proof -
  have nz: "\<not> IsZero (1 :: hash)" by (simp add: IsZero_def ZeroHash_def)
  have raw2: "rp_mutex raw2" "raw_ok raw2" by (simp_all add: raw2_def raw1_def raw0_def raw_ok_def)
  have h: "x_hash_string sample 1 \<noteq> x_hash_string sample 2" using s_hash_one s_hash_two by (simp add: sample_def)
  from cleanResources_spawns[OF sample_discovery sample_accepts sample_accepts nz raw2(1), of False world0] obtain ts where
    c: "cleanup_goroutine sample 1 (raw2, world0) =
      (Ret (), (raw2\<lparr>rp_mutex := False, rp_cleanups := rp_cleanups raw2 - 1\<rparr>, world0\<lparr>spawned := spawned world0 @ ts\<rparr>))"
    by (auto simp: cleanup_goroutine_def)
  let ?p1 = "raw2\<lparr>rp_mutex := False, rp_cleanups := rp_cleanups raw2 - 1\<rparr>"
  have rs: "delivery_resources sample ?p1 world0 = Ret [cm_resource ''c'']"
    by (simp add: delivery_resources_def raw2_def raw1_def raw0_def raw1_files raw_files_found raw_files_read
        del: NewUnstructuredResources.simps)
  have k: "resource_key (rp_namespace ?p1) (cm_resource ''c'') = (cm_gvr, ''default'', ''c'')"
    by (simp add: resource_key_def resource_gvr_def cm_resource_def cm_gvr_def cm_def raw2_def raw1_def raw0_def)
  from raw_Delivery_spec[OF sample_reads sample_writes rs, of 2] obtain p2 w2 where
    d: "raw_Delivery sample 2 (?p1, world0) = (Ret (), (p2, w2))"
    "delivered (rp_labels p2) (cm ''c'' Map.empty) (s_view world0 (cm_gvr, ''default'', ''c'')) (s_view w2 (cm_gvr, ''default'', ''c''))"
    using k by (auto simp: cm_resource_def)
  have v: "s_view world0 (cm_gvr, ''default'', ''c'') = None" by (simp add: s_view_def world0_def ext0_def)
  with d(2) have v2: "s_view w2 (cm_gvr, ''default'', ''c'') \<noteq> None" by (auto simp: delivered_def)
  have g: "resource_gvr (cm_resource ''c'') \<in> discovered sample_groups sample_kinds"
    using sample_discovered by (simp add: resource_gvr_def cm_resource_def)
  from late_cleanup_deletes_delivery[OF sample_reads sample_writes sample_discovery sample_accepts sample_accepts nz raw2 h c rs _ d(1) _ g]
  have "\<exists>w3. for_each (run_clean_task sample) ts w2 = (Ret (), w3) \<and> s_view w3 (cm_gvr, ''default'', ''c'') = None"
    using k v v2 by simp
  with c d(1) v2 show ?thesis by (auto simp: world0_def)
qed

end
