(* ===== verification/FileProps.thy ===== *)
theory FileProps
  imports ServiceProps RawProps
begin

section \<open>Properties of the files\<close>

text \<open>
  What is written is read back, and whatever the program does to its directory leaves a tree whose
  entries have proper and distinct names.
\<close>

subsection \<open>Round trip\<close>

text \<open>
  A file that was written is read back with exactly the data written, however the path is spelled, and
  every other file reads as before; a write that fails changes nothing.
\<close>

lemma written_file_read_back:
  assumes "WriteFile p d w = (r, w')"
  shows "(r = Ret () \<and> (\<forall>q. ReadFile q w' = (if path_comps q = path_comps p then Some d else ReadFile q w))) \<or>
    ((\<exists>e. r = Fail e) \<and> w' = w)"
proof (cases "put_file (path_comps p) d (disk w)")
  case None
  with assms show ?thesis by (auto simp: WriteFile_def)
next
  case (Some n)
  with assms have "WriteFile p d w = (Ret (), w')" "r = Ret ()" by (auto simp: WriteFile_def)
  with WriteFile_ReadFile show ?thesis by blast
qed

lemma written_file_read_back_witness:
  "\<exists>w'. WriteFile ''/r/./b.yaml'' ''x'' world0 = (Ret (), w') \<and> ReadFile ''/r/b.yaml'' w' = Some ''x'' \<and>
     ReadFile ''/r/a.yaml'' w' = Some ''c''"
proof -
  have p: "path_comps ''/r/./b.yaml'' = [''r'', ''b.yaml'']" "path_comps ''/r/b.yaml'' = [''r'', ''b.yaml'']"
    "path_comps ''/r/a.yaml'' = [''r'', ''a.yaml'']" by code_simp+
  obtain r w' where w': "WriteFile ''/r/./b.yaml'' ''x'' world0 = (r, w')" by (metis prod.exhaust)
  then have "r = Ret ()" by (auto simp: WriteFile_def p world0_def)
  moreover have "ReadFile ''/r/a.yaml'' world0 = Some ''c''" by (simp add: ReadFile_def p world0_def)
  ultimately show ?thesis using written_file_read_back[OF w'] w' p by auto
qed

subsection \<open>The tree stays well formed\<close>

lemma set_entry_names: "fst ` set (set_entry x n es) = insert x (fst ` set es)"
  by (induction x n es rule: set_entry.induct) auto

lemma distinct_set_entry: "distinct (map fst es) \<Longrightarrow> distinct (map fst (set_entry x n es))"
proof (induction x n es rule: set_entry.induct)
  case (2 x n y m es)
  then show ?case by (auto simp: set_entry_names simp flip: image_set)
qed simp

lemma set_set_entry: "set (set_entry x n es) \<subseteq> insert (x, n) (set es)"
  by (induction x n es rule: set_entry.induct) auto

lemma wf_set_entry:
  "wf_node (Dir es) \<Longrightarrow> plain_comp x \<Longrightarrow> wf_node n \<Longrightarrow> wf_node (Dir (set_entry x n es))"
  using set_set_entry[of x n es] by (auto simp: distinct_set_entry)

lemma wf_entry: "wf_node (Dir es) \<Longrightarrow> map_of es x = Some n \<Longrightarrow> wf_node n"
  by (auto dest: map_of_SomeD)

lemma wf_put_file:
  "put_file p d n = Some n' \<Longrightarrow> wf_node n \<Longrightarrow> \<forall>x\<in>set p. plain_comp x \<Longrightarrow> wf_node n'"
proof (induction p d n arbitrary: n' rule: put_file.induct)
  case (3 x d es)
  then have "n' = Dir (set_entry x (File d) es)" by (auto split: option.splits node.splits)
  with 3 show ?case by (simp only: wf_set_entry list.set_intros wf_node.simps(1))
next
  case (4 x y xs d es)
  then obtain m m' where m: "map_of es x = Some m" "put_file (y # xs) d m = Some m'" "n' = Dir (set_entry x m' es)"
    by (auto split: option.splits)
  then have "wf_node m'" using 4 wf_entry by simp
  with m 4 show ?case by (simp only: wf_set_entry list.set_intros)
qed auto

lemma wf_mk_dirs:
  "mk_dirs p n = Some n' \<Longrightarrow> wf_node n \<Longrightarrow> \<forall>x\<in>set p. plain_comp x \<Longrightarrow> wf_node n'"
proof (induction p n arbitrary: n' rule: mk_dirs.induct)
  case (3 x xs es)
  let ?m = "case map_of es x of None \<Rightarrow> Dir [] | Some n \<Rightarrow> n"
  obtain m' where m: "mk_dirs xs ?m = Some m'" "n' = Dir (set_entry x m' es)"
    using 3(2) by auto
  have "wf_node ?m" using wf_entry[OF 3(3)] by (cases "map_of es x") auto
  with m(1) 3 have "wf_node m'" by simp
  with m 3 show ?case by (simp only: wf_set_entry list.set_intros)
qed auto

lemma wf_rm_all: "rm_all p n = Some n' \<Longrightarrow> wf_node n \<Longrightarrow> \<forall>x\<in>set p. plain_comp x \<Longrightarrow> wf_node n'"
proof (induction p n arbitrary: n' rule: rm_all.induct)
  case (3 x es)
  then have "n' = Dir (filter (\<lambda>e. fst e \<noteq> x) es)" by simp
  with 3(2) show ?case by (auto simp: distinct_map inj_on_def)
next
  case (4 x y xs es)
  show ?case
  proof (cases "map_of es x")
    case None
    with 4 show ?thesis by simp
  next
    case (Some m)
    then obtain m' where m: "rm_all (y # xs) m = Some m'" "n' = Dir (set_entry x m' es)" using 4(2) by auto
    then have "wf_node m'" using 4 Some wf_entry by simp
    with m 4 show ?thesis by (simp only: wf_set_entry list.set_intros)
  qed
qed auto

definition disk_wf :: "'e world \<Rightarrow> bool" where
  "disk_wf w \<longleftrightarrow> wf_node (disk w)"

lemma keeps_disk [keeps_intros]:
  "keeps disk_wf (WriteFile p d)" "keeps disk_wf (MkdirAll p)" "keeps disk_wf (RemoveAll p)"
  using wf_put_file[OF _ _ path_comps_plain] wf_mk_dirs[OF _ _ path_comps_plain] wf_rm_all[OF _ _ path_comps_plain]
  by (auto simp: keeps_def disk_wf_def WriteFile_def MkdirAll_def RemoveAll_def split: option.split)

lemma keeps_deref_home [keeps_intros]: "keeps P deref_home"
  by (simp add: keeps_def deref_home_def split: option.split)

lemma keeps_materialize [keeps_intros]: "keeps disk_wf (materialize file data set_file target cfg)"
  unfolding materialize_def by (intro keeps_intros)

text \<open>
  Whatever paths they are given, writing and removing files, storing known hosts and setting up the
  cluster configuration keep the tree well formed: however they end, no directory has two entries of one
  name, and no entry is named by the empty name, a dot name or a name with a slash. This is what the
  walk over the manifests asks of the tree.
\<close>

lemma disk_stays_well_formed:
  "keeps disk_wf (WriteFile p d) \<and> keeps disk_wf (RemoveAll q) \<and> keeps disk_wf (NewKnownHosts hosts) \<and>
   keeps disk_wf (NewKubernetesConfig cfg)"
  unfolding NewKnownHosts_def NewKubernetesConfig_def Let_def by (intro conjI keeps_intros)

end
