(* ===== verification/ConcurrentAdds.thy ===== *)
theory ConcurrentAdds
  imports Repository
begin

section \<open>Requests that add applications at the same time\<close>

text \<open>
  gRPC runs every request in a goroutine of its own, so calls of \<^verbatim>\<open>AddOrUpdateApplication\<close> on one
  repository interleave: the search for the application and the comparison run without a lock, and a
  new application is built before the lock is taken. \<open>add_step\<close> is the function cut at these points;
  \<open>None\<close> is a turn of a loop \<^verbatim>\<open>for !m.TryLock() {}\<close> that does not get the mutex, or a call that never
  returns. A position holds what the goroutine has in its variables.
\<close>

datatype add_pc =
    Search app_spec                       \<comment> \<open>the loop over \<^verbatim>\<open>r.Apps\<close>\<close>
  | Build app_spec                        \<comment> \<open>no index was found: \<^verbatim>\<open>NewApplication\<close>\<close>
  | AwaitAppend application               \<comment> \<open>the loop on \<^verbatim>\<open>r.Mutex\<close> before the append\<close>
  | Append application
  | Compare nat app_spec                  \<comment> \<open>\<^verbatim>\<open>cmp.Equal\<close>\<close>
  | AwaitRepo nat app_spec                \<comment> \<open>the loop on \<^verbatim>\<open>r.Mutex\<close> before the update\<close>
  | AwaitApp nat app_spec                 \<comment> \<open>the loop on the application's mutex\<close>
  | Remove nat app_spec application       \<comment> \<open>\<^verbatim>\<open>os.RemoveAll\<close>, both mutexes held\<close>
  | Rebuild nat app_spec application      \<comment> \<open>\<^verbatim>\<open>NewApplication\<close>, both mutexes held\<close>
  | Added                                 \<comment> \<open>returned nil after the append\<close>
  | Finished "unit res"                   \<comment> \<open>any other end\<close>

text \<open>The two deferred calls of \<^verbatim>\<open>Unlock\<close> where the slot still holds the old application.\<close>

definition release :: "nat \<Rightarrow> application \<Rightarrow> repo_config \<Rightarrow> repo_config" where
  "release i old r =
     r\<lparr>rc_Apps := (rc_Apps r)[i := Some (old\<lparr>a_mutex := False\<rparr>)], rc_Mutex := False\<rparr>"

text \<open>\<^verbatim>\<open>cmp.Equal\<close> of a nil pointer with a pointer that is not nil is false.\<close>

definition same_application :: "app_cmp \<Rightarrow> application option \<Rightarrow> app_spec \<Rightarrow> bool" where
  "same_application cmp_equal slot app =
     (case slot of None \<Rightarrow> False | Some a \<Rightarrow> cmp_equal (app_spec.truncate a) app)"

fun add_step :: "'e externals \<Rightarrow> rest_config \<Rightarrow> app_cmp \<Rightarrow> add_pc \<Rightarrow> repo_config \<times> 'e world \<Rightarrow>
    (add_pc \<times> repo_config \<times> 'e world) option" where
  "add_step X K cmp_equal (Search app) (r, w) =
     (case find_app_first (a_Name app) (rc_Apps r) 0 of
        Ret None \<Rightarrow> Some (Build app, (r, w))
      | Ret (Some i) \<Rightarrow> Some (Compare i app, (r, w))
      | Fail e \<Rightarrow> Some (Finished (Fail e), (r, w))
      | Panic q \<Rightarrow> Some (Finished (Panic q), (r, w))
      | Spin \<Rightarrow> None)"
| "add_step X K cmp_equal (Build app) (r, w) =
     (case NewApplication X K app w of
        (Ret a, w') \<Rightarrow> Some (AwaitAppend a, (r, w'))
      | (Fail e, w') \<Rightarrow> Some (Finished (Fail e), (r, w'))
      | (Panic q, w') \<Rightarrow> Some (Finished (Panic q), (r, w'))
      | (Spin, w') \<Rightarrow> None)"
| "add_step X K cmp_equal (AwaitAppend a) (r, w) =
     (if rc_Mutex r then None else Some (Append a, (r\<lparr>rc_Mutex := True\<rparr>, w)))"
| "add_step X K cmp_equal (Append a) (r, w) =
     Some (Added, (r\<lparr>rc_Apps := rc_Apps r @ [Some a], rc_Mutex := False\<rparr>, w))"
| "add_step X K cmp_equal (Compare i app) (r, w) =
     Some (if same_application cmp_equal (rc_Apps r ! i) app then (Finished (Fail NoErrAlreadyUpTodate), (r, w))
           else (AwaitRepo i app, (r, w)))"
| "add_step X K cmp_equal (AwaitRepo i app) (r, w) =
     (if rc_Mutex r then None else Some (AwaitApp i app, (r\<lparr>rc_Mutex := True\<rparr>, w)))"
| "add_step X K cmp_equal (AwaitApp i app) (r, w) =
     (case rc_Apps r ! i of
        None \<Rightarrow> Some (Finished (Panic NilDereference), (r\<lparr>rc_Mutex := False\<rparr>, w))
      | Some old \<Rightarrow>
          if a_mutex old then None
          else Some (Remove i app (old\<lparr>a_mutex := True\<rparr>),
                     (r\<lparr>rc_Apps := (rc_Apps r)[i := Some (old\<lparr>a_mutex := True\<rparr>)]\<rparr>, w)))"
| "add_step X K cmp_equal (Remove i app old) (r, w) =
     (case RemoveAll (a_storagePath old) w of
        (Ret _, w') \<Rightarrow> Some (Rebuild i app old, (r, w'))
      | (Fail e, w') \<Rightarrow> Some (Finished (Fail e), (release i old r, w'))
      | (Panic q, w') \<Rightarrow> Some (Finished (Panic q), (release i old r, w'))
      | (Spin, w') \<Rightarrow> None)"
| "add_step X K cmp_equal (Rebuild i app old) (r, w) =
     (case NewApplication X K app w of
        (Ret new, w') \<Rightarrow>
          Some (Finished (Ret ()), (r\<lparr>rc_Apps := (rc_Apps r)[i := Some new], rc_Mutex := False\<rparr>, w'))
      | (Fail e, w') \<Rightarrow>
          Some (Finished (Fail e), (r\<lparr>rc_Apps := (rc_Apps r)[i := None], rc_Mutex := False\<rparr>, w'))
      | (Panic q, w') \<Rightarrow> Some (Finished (Panic q), (release i old r, w'))
      | (Spin, w') \<Rightarrow> None)"
| "add_step X K cmp_equal Added s = None"
| "add_step X K cmp_equal (Finished res) s = None"

text \<open>One request alone, and any number of them: a step of one of the goroutines.\<close>

fun add_alone :: "'e externals \<Rightarrow> rest_config \<Rightarrow> app_cmp \<Rightarrow> nat \<Rightarrow> add_pc \<Rightarrow> repo_config \<times> 'e world \<Rightarrow>
    add_pc \<times> repo_config \<times> 'e world" where
  "add_alone X K cmp_equal 0 pc s = (pc, s)"
| "add_alone X K cmp_equal (Suc n) pc s =
     (case add_step X K cmp_equal pc s of None \<Rightarrow> (pc, s) | Some (pc', s') \<Rightarrow> add_alone X K cmp_equal n pc' s')"

type_synonym 'e adds = "add_pc list \<times> repo_config \<times> 'e world"

inductive adds_step :: "'e externals \<Rightarrow> rest_config \<Rightarrow> app_cmp \<Rightarrow> 'e adds \<Rightarrow> 'e adds \<Rightarrow> bool"
  for X K cmp_equal where
  adds_step: "i < length pcs \<Longrightarrow> add_step X K cmp_equal (pcs ! i) s = Some (pc', s') \<Longrightarrow>
    adds_step X K cmp_equal (pcs, s) (pcs[i := pc'], s')"

inductive_cases adds_stepE: "adds_step X K cmp_equal p q"

definition requests :: "app_spec list \<Rightarrow> repo_config \<times> 'e world \<Rightarrow> 'e adds" where
  "requests apps s = (map Search apps, s)"

text \<open>A schedule names, step by step, the goroutine that moves.\<close>

fun adds_schedule :: "'e externals \<Rightarrow> rest_config \<Rightarrow> app_cmp \<Rightarrow> nat list \<Rightarrow> 'e adds \<Rightarrow> 'e adds option" where
  "adds_schedule X K cmp_equal [] p = Some p"
| "adds_schedule X K cmp_equal (i # is) (pcs, s) =
     (if i < length pcs then
        case add_step X K cmp_equal (pcs ! i) s of
          None \<Rightarrow> None
        | Some (pc', s') \<Rightarrow> adds_schedule X K cmp_equal is (pcs[i := pc'], s')
      else None)"

fun add_answer :: "add_pc \<Rightarrow> unit res option" where
  "add_answer Added = Some (Ret ())"
| "add_answer (Finished res) = Some res"
| "add_answer pc = None"

end
