(* ===== verification/ConcurrentAddsProofs.thy ===== *)
theory ConcurrentAddsProofs
  imports ConcurrentAdds TickerProofs PoolProofs
begin

section \<open>Runs of requests that add applications\<close>

subsection \<open>One request alone\<close>

lemma same_application_some: "same_application cmp_equal (Some a) app = cmp_equal (app_spec.truncate a) app"
  by (simp add: same_application_def)

lemma add_alone_new:
  assumes "find_app_first (a_Name app) (rc_Apps r) 0 = Ret None"
    and "AddOrUpdateApplication X K cmp_equal app (r, w) = (res, s)"
  shows "\<exists>pc t. add_alone X K cmp_equal 6 (Search app) (r, w) = (pc, t) \<and>
    (res \<noteq> Spin \<longrightarrow> add_answer pc = Some res \<and> t = s) \<and> (res = Spin \<longrightarrow> add_answer pc = None)"
proof (cases "NewApplication X K app w")
  case (Pair n v)
  show ?thesis
    using assms Pair
    by (cases n; cases "rc_Mutex r")
      (auto simp: AddOrUpdateApplication_def pure_res_def andthen_def lock_repo_def defer_unlock_repo_def
        numeral_eq_Suc)
qed

lemma add_alone_update:
  assumes f: "find_app_first (a_Name app) (rc_Apps r) 0 = Ret (Some i)"
    and m: "AddOrUpdateApplication X K cmp_equal app (r, w) = (res, s)"
  shows "\<exists>pc t. add_alone X K cmp_equal 6 (Search app) (r, w) = (pc, t) \<and>
    (res \<noteq> Spin \<longrightarrow> add_answer pc = Some res \<and> t = s) \<and> (res = Spin \<longrightarrow> add_answer pc = None)"
proof -
  from find_app_first_Some[OF f] obtain a where a: "i < length (rc_Apps r)" "rc_Apps r ! i = Some a" by auto
  let ?old = "a\<lparr>a_mutex := True\<rparr>"
  obtain d v where d: "RemoveAll (a_storagePath a) w = (d, v)" by (metis prod.exhaust)
  obtain n u where n: "NewApplication X K app v = (n, u)" by (metis prod.exhaust)
  show ?thesis
    using f m a d n
    by (cases "cmp_equal (app_spec.truncate a) app"; cases "rc_Mutex r"; cases "a_mutex a"; cases d; cases n)
      (auto simp: AddOrUpdateApplication_def pure_res_def andthen_def lock_repo_def defer_unlock_repo_def
        replace_app_def rebuild_app_def Let_def lock_app_def numeral_eq_Suc same_application_some release_def)
qed

lemma find_app_first_append:
  "find_app_first name slots k = Ret None \<Longrightarrow> a_Name a = name \<Longrightarrow>
     find_app_first name (slots @ [Some a]) k = Ret (Some (k + length slots))"
  by (induction name slots k rule: find_app_first.induct) (auto split: if_splits)

lemma find_app_first_not_stuck: "find_app_first name slots k \<noteq> Fail e" "find_app_first name slots k \<noteq> Spin"
  by (induction name slots k rule: find_app_first.induct) simp_all

lemma add_alone_AddOrUpdateApplication:
  assumes "AddOrUpdateApplication X K cmp_equal app (r, w) = (res, s)"
  shows "\<exists>pc t. add_alone X K cmp_equal 6 (Search app) (r, w) = (pc, t) \<and>
    (res \<noteq> Spin \<longrightarrow> add_answer pc = Some res \<and> t = s) \<and> (res = Spin \<longrightarrow> add_answer pc = None)"
proof (cases "find_app_first (a_Name app) (rc_Apps r) 0")
  case (Ret slot)
  with assms show ?thesis
    by (cases slot) (simp_all only: add_alone_new add_alone_update)
next
  case (Panic q)
  with assms show ?thesis
    by (auto simp: AddOrUpdateApplication_def pure_res_def andthen_def numeral_eq_Suc)
qed (simp_all add: find_app_first_not_stuck)

subsection \<open>The locks\<close>

text \<open>\<open>in_critical\<close>: the goroutine holds the repository's mutex; \<open>holds_app\<close>: the slots whose application it has locked.\<close>

fun in_critical :: "add_pc \<Rightarrow> bool" where
  "in_critical (Append a) = True"
| "in_critical (AwaitApp i app) = True"
| "in_critical (Remove i app old) = True"
| "in_critical (Rebuild i app old) = True"
| "in_critical pc = False"

fun holds_app :: "add_pc \<Rightarrow> nat set" where
  "holds_app (Remove i app old) = {i}"
| "holds_app (Rebuild i app old) = {i}"
| "holds_app pc = {}"

definition locked_slots :: "application option list \<Rightarrow> nat set" where
  "locked_slots slots = {i. i < length slots \<and> (\<exists>a. slots ! i = Some a \<and> a_mutex a)}"

text \<open>An index a goroutine has found is one of the slice; an application it has built is not locked.\<close>

fun pc_ok :: "nat \<Rightarrow> add_pc \<Rightarrow> bool" where
  "pc_ok n (AwaitAppend a) = (\<not> a_mutex a)"
| "pc_ok n (Append a) = (\<not> a_mutex a)"
| "pc_ok n (Compare i app) = (i < n)"
| "pc_ok n (AwaitRepo i app) = (i < n)"
| "pc_ok n (AwaitApp i app) = (i < n)"
| "pc_ok n (Remove i app old) = (i < n)"
| "pc_ok n (Rebuild i app old) = (i < n)"
| "pc_ok n pc = True"

lemma pc_ok_mono: "pc_ok n pc \<Longrightarrow> n \<le> m \<Longrightarrow> pc_ok m pc"
  by (cases "(n, pc)" rule: pc_ok.cases) auto

lemma holds_app_critical: "holds_app pc \<noteq> {} \<Longrightarrow> in_critical pc"
  by (cases pc) auto

text \<open>
  The goroutines and the repository agree: the mutex is taken exactly while one of them is in the
  critical section, the locked slots are those the goroutines have locked, an index a goroutine has
  found is one of the slice, and every append has made the slice longer.
\<close>

definition adds_inv :: "nat \<Rightarrow> 'e adds \<Rightarrow> bool" where
  "adds_inv n0 p \<longleftrightarrow> (case p of (pcs, (r, w)) \<Rightarrow>
     length (filter in_critical pcs) = (if rc_Mutex r then 1 else 0) \<and>
     locked_slots (rc_Apps r) = (\<Union>pc\<in>set pcs. holds_app pc) \<and>
     (\<forall>pc\<in>set pcs. pc_ok (length (rc_Apps r)) pc) \<and>
     length (rc_Apps r) = n0 + length (filter (\<lambda>pc. pc = Added) pcs))"

text \<open>What one step does to the part of the repository the invariant speaks of.\<close>

definition step_effect :: "add_pc \<Rightarrow> repo_config \<Rightarrow> add_pc \<Rightarrow> repo_config \<Rightarrow> bool" where
  "step_effect pc r pc' r' \<longleftrightarrow>
     (if in_critical pc = in_critical pc' then rc_Mutex r' = rc_Mutex r
      else rc_Mutex r = in_critical pc \<and> rc_Mutex r' = in_critical pc') \<and>
     (pc \<noteq> Added) \<and> length (rc_Apps r') = length (rc_Apps r) + (if pc' = Added then 1 else 0) \<and>
     pc_ok (length (rc_Apps r')) pc' \<and>
     locked_slots (rc_Apps r') = (locked_slots (rc_Apps r) - holds_app pc) \<union> holds_app pc'"

lemma locked_slots_update:
  "i < length slots \<Longrightarrow> locked_slots (slots[i := x]) =
     (case x of None \<Rightarrow> locked_slots slots - {i}
      | Some a \<Rightarrow> if a_mutex a then insert i (locked_slots slots) else locked_slots slots - {i})"
  by (auto simp: locked_slots_def nth_list_update split: option.splits if_splits)

lemma locked_slots_append: "\<not> a_mutex a \<Longrightarrow> locked_slots (slots @ [Some a]) = locked_slots slots"
  by (auto simp: locked_slots_def nth_append split: if_splits)

lemma add_step_effect:
  assumes "add_step X K cmp_equal pc (r, w) = Some (pc', (r', w'))"
    and "pc_ok (length (rc_Apps r)) pc" and "in_critical pc \<Longrightarrow> rc_Mutex r"
    and "holds_app pc \<subseteq> locked_slots (rc_Apps r)"
  shows "step_effect pc r pc' r'"
proof (cases pc)
  case (Search app)
  with assms show ?thesis
    by (auto simp: step_effect_def split: res.splits option.splits dest: find_app_first_Some)
next
  case (Build app)
  with assms show ?thesis
    by (auto simp: step_effect_def split: res.splits prod.splits dest: NewApplication_fields(4))
next
  case (Rebuild i app old)
  with assms show ?thesis
    by (auto simp: step_effect_def release_def locked_slots_update split: res.splits prod.splits
        dest: NewApplication_fields(4))
qed (use assms in \<open>auto simp: step_effect_def release_def locked_slots_update locked_slots_append
    split: res.splits prod.splits option.splits if_splits\<close>)

lemma adds_inv_step:
  assumes "adds_step X K cmp_equal p q" and "adds_inv n0 p"
  shows "adds_inv n0 q"
proof -
  from assms(1) obtain pcs r w i pc' r' w' where p: "p = (pcs, (r, w))" and q: "q = (pcs[i := pc'], (r', w'))"
    and i: "i < length pcs" and st: "add_step X K cmp_equal (pcs ! i) (r, w) = Some (pc', (r', w'))"
    by (cases p; cases q) (auto elim!: adds_stepE)
  obtain ys pc zs where pcs: "pcs = ys @ pc # zs" "pcs ! i = pc" "\<forall>y. pcs[i := y] = ys @ y # zs"
    by (rule split_nth[OF i])
  let ?others = "filter in_critical (ys @ zs)"
  have I: "length ?others + (if in_critical pc then 1 else 0) = (if rc_Mutex r then 1 else 0)"
    "locked_slots (rc_Apps r) = holds_app pc \<union> (\<Union>x\<in>set (ys @ zs). holds_app x)"
    "\<forall>x\<in>set (ys @ zs). pc_ok (length (rc_Apps r)) x" "pc_ok (length (rc_Apps r)) pc"
    "length (rc_Apps r) = n0 + length (filter (\<lambda>x. x = Added) (ys @ zs)) + (if pc = Added then 1 else 0)"
    using assms(2) by (auto simp: adds_inv_def p pcs(1) split: if_splits)
  have alone: "\<forall>x\<in>set (ys @ zs). \<not> in_critical x" if "in_critical pc"
  proof -
    have "?others = []" using I(1) that by (simp split: if_splits)
    then show ?thesis by (simp only: filter_empty_conv)
  qed
  have mutex: "rc_Mutex r" if "in_critical pc" using I(1) that by (cases "rc_Mutex r") simp_all
  have "holds_app pc \<subseteq> locked_slots (rc_Apps r)" unfolding I(2) by blast
  then have e: "step_effect pc r pc' r'" using add_step_effect[OF st] I(4) mutex pcs(2) by simp
  have sep: "(\<Union>x\<in>set (ys @ zs). holds_app x) - holds_app pc = (\<Union>x\<in>set (ys @ zs). holds_app x)"
    using alone holds_app_critical by fastforce
  have "length ?others + (if in_critical pc' then 1 else 0) = (if rc_Mutex r' then 1 else 0)"
    using I(1) e by (auto simp: step_effect_def split: if_splits)
  moreover have "locked_slots (rc_Apps r') = holds_app pc' \<union> (\<Union>x\<in>set (ys @ zs). holds_app x)"
    using e sep I(2) by (auto simp: step_effect_def)
  moreover have "\<forall>x\<in>set (ys @ zs). pc_ok (length (rc_Apps r')) x" "pc_ok (length (rc_Apps r')) pc'"
    using I(3) e by (auto simp: step_effect_def intro: pc_ok_mono)
  moreover have "length (rc_Apps r') = n0 + length (filter (\<lambda>x. x = Added) (ys @ zs)) + (if pc' = Added then 1 else 0)"
    using I(5) e by (auto simp: step_effect_def)
  ultimately show ?thesis
    by (auto simp: adds_inv_def q pcs(3) split: if_splits)
qed

lemma adds_inv_requests:
  assumes "\<not> rc_Mutex r" and "\<forall>a\<in>set (live_apps (rc_Apps r)). \<not> a_mutex a"
  shows "adds_inv (length (rc_Apps r)) (requests apps (r, w))"
  using assms by (auto simp: adds_inv_def requests_def locked_slots_def set_live_apps filter_empty_conv image_iff
      dest!: nth_mem)

lemma adds_inv_reachable:
  assumes "(adds_step X K cmp_equal)\<^sup>*\<^sup>* (requests apps (r, w)) q" and "\<not> rc_Mutex r"
    and "\<forall>a\<in>set (live_apps (rc_Apps r)). \<not> a_mutex a"
  shows "adds_inv (length (rc_Apps r)) q"
  using assms(1)
proof (induction rule: rtranclp_induct)
  case base
  show ?case by (rule adds_inv_requests[OF assms(2,3)])
qed (rule adds_inv_step)

subsection \<open>Every run ends\<close>

fun steps_left :: "add_pc \<Rightarrow> nat" where
  "steps_left (Search app) = 6"
| "steps_left (Compare i app) = 5"
| "steps_left (AwaitRepo i app) = 4"
| "steps_left (Build app) = 3"
| "steps_left (AwaitApp i app) = 3"
| "steps_left (AwaitAppend a) = 2"
| "steps_left (Remove i app old) = 2"
| "steps_left (Append a) = 1"
| "steps_left (Rebuild i app old) = 1"
| "steps_left Added = 0"
| "steps_left (Finished res) = 0"

lemma add_step_decreases:
  "add_step X K cmp_equal pc s = Some (pc', s') \<Longrightarrow> steps_left pc' < steps_left pc"
  by (cases s; cases pc) (auto split: res.splits option.splits prod.splits if_splits)

lemma adds_step_decreases:
  assumes "adds_step X K cmp_equal p q"
  shows "sum_list (map steps_left (fst q)) < sum_list (map steps_left (fst p))"
proof -
  from assms obtain pcs s i pc' s' where p: "p = (pcs, s)" "q = (pcs[i := pc'], s')" and i: "i < length pcs"
    and st: "add_step X K cmp_equal (pcs ! i) s = Some (pc', s')"
    by (cases p; cases q) (auto elim!: adds_stepE)
  obtain ys pc zs where pcs: "pcs = ys @ pc # zs" "pcs ! i = pc" "\<forall>y. pcs[i := y] = ys @ y # zs"
    by (rule split_nth[OF i])
  from add_step_decreases[OF st] pcs(2) have "steps_left pc' < steps_left pc" by simp
  then show ?thesis by (simp add: p pcs(3)) (simp add: pcs(1))
qed

lemma adds_run_length:
  "(adds_step X K cmp_equal ^^ k) p q \<Longrightarrow> k + sum_list (map steps_left (fst q)) \<le> sum_list (map steps_left (fst p))"
proof (induction k arbitrary: q)
  case (Suc k)
  then obtain m where m: "(adds_step X K cmp_equal ^^ k) p m" "adds_step X K cmp_equal m q" by auto
  from Suc.IH[OF m(1)] adds_step_decreases[OF m(2)] show ?case by simp
qed simp

lemma steps_left_requests: "sum_list (map steps_left (fst (requests apps s))) = 6 * length apps"
  by (induction apps) (auto simp: requests_def)

subsection \<open>No run is stuck before every request has its answer\<close>

text \<open>The calls a request makes outside the locks' loops return or panic.\<close>

definition calls_end :: "'e externals \<Rightarrow> rest_config \<Rightarrow> bool" where
  "calls_end X K \<longleftrightarrow> (\<forall>app w. fst (NewApplication X K app w) \<noteq> Spin)"

lemma RemoveAll_ends: "fst (RemoveAll p w) \<noteq> Spin"
  by (auto simp: RemoveAll_def split: option.splits)

lemma add_step_enabled:
  assumes "calls_end X K" and "add_answer pc = None" and "rc_Mutex r \<Longrightarrow> in_critical pc"
    and "\<And>i app. pc = AwaitApp i app \<Longrightarrow> i \<notin> locked_slots (rc_Apps r) \<and> i < length (rc_Apps r)"
  shows "\<exists>pc' s. add_step X K cmp_equal pc (r, w) = Some (pc', s)"
proof -
  have n: "NewApplication X K app v \<noteq> (Spin, v')" for app v v'
    using assms(1) unfolding calls_end_def by (metis fst_conv)
  have d: "RemoveAll p w \<noteq> (Spin, v')" for p v' by (metis RemoveAll_ends fst_conv)
  show ?thesis
  proof (cases pc)
    case (AwaitApp i app)
    with assms(4) show ?thesis by (auto simp: locked_slots_def split: option.splits)
  qed (use assms(2,3) n d in \<open>auto simp: find_app_first_not_stuck split: res.splits prod.splits option.splits\<close>)
qed

lemma in_critical_open: "in_critical pc \<Longrightarrow> add_answer pc = None"
  by (cases pc) simp_all

lemma adds_not_stuck:
  assumes "adds_inv n0 (pcs, (r, w))" and "calls_end X K" and "pc \<in> set pcs" and "add_answer pc = None"
  shows "\<exists>q. adds_step X K cmp_equal (pcs, (r, w)) q"
proof -
  have I: "length (filter in_critical pcs) = (if rc_Mutex r then 1 else 0)"
    "locked_slots (rc_Apps r) = (\<Union>pc\<in>set pcs. holds_app pc)" "\<forall>pc\<in>set pcs. pc_ok (length (rc_Apps r)) pc"
    using assms(1) unfolding adds_inv_def prod.case by blast+
  obtain x where x: "x \<in> set pcs" "add_answer x = None" "rc_Mutex r \<Longrightarrow> in_critical x"
  proof (cases "rc_Mutex r")
    case True
    with I(1) have "filter in_critical pcs \<noteq> []" by auto
    then obtain x where "x \<in> set pcs" "in_critical x" by (auto simp: filter_empty_conv)
    moreover from \<open>in_critical x\<close> have "add_answer x = None" by (rule in_critical_open)
    ultimately show thesis using that by blast
  qed (use assms(3,4) that in blast)
  have sep: "i \<notin> locked_slots (rc_Apps r) \<and> i < length (rc_Apps r)" if a: "x = AwaitApp i app" for i app
  proof -
    obtain ys zs where s: "pcs = ys @ x # zs" using x(1) by (meson split_list)
    from a s I(1) have "filter in_critical (ys @ zs) = []" by (simp split: if_splits)
    then have "\<forall>y\<in>set (ys @ zs). holds_app y = {}"
      using holds_app_critical by (simp only: filter_empty_conv) blast
    with I(2) a s have "locked_slots (rc_Apps r) = {}" by auto
    with I(3) x(1) a show ?thesis by force
  qed
  have "\<exists>pc' s. add_step X K cmp_equal x (r, w) = Some (pc', s)"
    by (rule add_step_enabled[OF assms(2) x(2)]) (use x(3) sep in blast)+
  then obtain pc' s where st: "add_step X K cmp_equal x (r, w) = Some (pc', s)" by blast
  from x(1) obtain i where "i < length pcs" "pcs ! i = x" by (auto simp: in_set_conv_nth)
  with st show ?thesis using adds_step.intros[of i pcs X K cmp_equal "(r, w)" pc' s] by blast
qed

lemma answered_free:
  assumes "adds_inv n0 (pcs, (r, w))" and "\<forall>pc\<in>set pcs. add_answer pc \<noteq> None"
  shows "\<not> rc_Mutex r" and "locked_slots (rc_Apps r) = {}"
proof -
  have c: "\<not> in_critical pc \<and> holds_app pc = {}" if "pc \<in> set pcs" for pc
    using assms(2) that by (cases pc) auto
  then have "filter in_critical pcs = []" by (auto simp: filter_empty_conv)
  with assms(1) c show "\<not> rc_Mutex r" and "locked_slots (rc_Apps r) = {}"
    by (auto simp: adds_inv_def split: if_splits)
qed

end
