(* ===== verification/ConcurrentAddsProps.thy ===== *)
theory ConcurrentAddsProps
  imports ConcurrentAddsProofs TickerProps
begin

section \<open>Properties of concurrent requests for one repository\<close>

subsection \<open>A request that is not disturbed\<close>

text \<open>
  C14. The steps of one request, with no other request between them, compute \<^verbatim>\<open>AddOrUpdateApplication\<close>: six
  steps lead to its answer and its state; and where it never returns, they end before an answer.
\<close>

theorem add_request_alone:
  assumes "AddOrUpdateApplication X K cmp_equal app (r, w) = (res, s)"
  shows "\<exists>pc t. add_alone X K cmp_equal 6 (Search app) (r, w) = (pc, t) \<and>
    (if res = Spin then add_answer pc = None else add_answer pc = Some res \<and> t = s)"
  using add_alone_AddOrUpdateApplication[OF assms] by (cases "res = Spin") auto

text \<open>An outside world where every application can be built.\<close>

lemma offline_made_home:
  "\<exists>a v. NewApplication sample_offline K app (w\<lparr>home := Some hm\<rparr>) = (Ret a, v) \<and> home v = Some hm"
  by (simp add: NewApplication_def deref_home_def GetUserHome_def NewGitRepository_def s_clone_def sample_offline_def
      sample_chart_def sample_def choose_provider_def object_after_def NewHelmProvider_def NewHelmManager_def
      NewHelmSettings_def NewHelmChart_def Let_def andthen_def attempt_def helm_check_def comp_defs set_ext_def)

lemma offline_builds:
  assumes "home w = Some hm"
  shows "\<exists>a v. NewApplication sample_offline K app w = (Ret a, v) \<and> home v = Some hm"
proof -
  from assms have "w\<lparr>home := Some hm\<rparr> = w" by simp
  with offline_made_home[where w = w and hm = hm and K = K and app = app] show ?thesis by simp
qed

lemma offline_calls_end: "calls_end sample_offline K"
  unfolding calls_end_def
proof (intro allI)
  fix app w
  show "fst (NewApplication sample_offline K app w) \<noteq> Spin"
  proof (cases "home w")
    case None
    then show ?thesis by (simp add: NewApplication_def deref_home_def GetUserHome_def andthen_def)
  next
    case (Some hm)
    from offline_builds[OF this] show ?thesis by (metis fst_conv res.distinct(5))
  qed
qed

lemma repo1_free: "\<forall>a\<in>set (live_apps (rc_Apps repo1)). \<not> a_mutex a"
  by simp

lemma schedule_steps:
  "adds_schedule X K cmp_equal is p = Some q \<Longrightarrow> (adds_step X K cmp_equal ^^ length is) p q"
proof (induction "is" arbitrary: p)
  case (Cons i is')
  obtain pcs s where p: "p = (pcs, s)" by (metis prod.exhaust)
  with Cons.prems obtain pc' s' where st: "i < length pcs" "add_step X K cmp_equal (pcs ! i) s = Some (pc', s')"
    and rest: "adds_schedule X K cmp_equal is' (pcs[i := pc'], s') = Some q"
    by (auto split: if_splits option.splits)
  have "adds_step X K cmp_equal p (pcs[i := pc'], s')" unfolding p by (rule adds_step.intros[OF st])
  from relpowp_Suc_I2[OF this Cons.IH[OF rest]] show ?case by simp
qed simp

theorem add_request_alone_witness:
  "\<exists>pc t. add_alone sample_offline rest0 five_equal 6 (Search spec0) (repo1, pod_world) = (pc, t) \<and>
     add_answer pc = Some (Ret ())"
proof -
  have "home pod_world = Some ''/root''" by (simp add: pod_world_def git_world_def)
  from offline_builds[OF this] obtain a v where n: "NewApplication sample_offline rest0 spec0 pod_world = (Ret a, v)"
    by blast
  have "AddOrUpdateApplication sample_offline rest0 five_equal spec0 (repo1, pod_world) =
      (Ret (), (repo1\<lparr>rc_Mutex := False, rc_Apps := [Some a]\<rparr>, v))"
    using AddOrUpdateApplication_new[OF _ n, of repo1 five_equal] by simp
  from add_request_alone[OF this] show ?thesis by auto
qed

subsection \<open>Requests in any interleaving\<close>

text \<open>
  C12. Whatever calls of \<^verbatim>\<open>AddOrUpdateApplication\<close> run on a repository at the same time, in every interleaving
  at most one of them is between the lock and the unlock of the repository's mutex, which is taken exactly
  then; the locked applications are exactly those these calls have locked; and no append is lost: the slice
  has grown by one for every call that has returned from an append.
\<close>

theorem concurrent_adds_invariant:
  assumes "(adds_step X K cmp_equal)\<^sup>*\<^sup>* (requests apps (r0, w0)) (pcs, (r, w))"
    and "\<not> rc_Mutex r0" and "\<forall>a\<in>set (live_apps (rc_Apps r0)). \<not> a_mutex a"
  shows "length (filter in_critical pcs) = (if rc_Mutex r then 1 else 0) \<and>
    locked_slots (rc_Apps r) = (\<Union>pc\<in>set pcs. holds_app pc) \<and>
    length (rc_Apps r) = length (rc_Apps r0) + length (filter (\<lambda>pc. pc = Added) pcs)"
  using adds_inv_reachable[OF assms] unfolding adds_inv_def prod.case by blast

text \<open>
  C13. Every interleaving of such calls ends, after at most six steps for each, and it ends only when all of
  them have their answers and the repository's and the applications' mutexes are free again: the loops that
  wait for a mutex never wait for each other.
\<close>

theorem concurrent_adds_answered:
  assumes "(adds_step X K cmp_equal ^^ k) (requests apps (r0, w0)) (pcs, (r, w))"
    and "\<not> rc_Mutex r0" and "\<forall>a\<in>set (live_apps (rc_Apps r0)). \<not> a_mutex a" and "calls_end X K"
  shows "k \<le> 6 * length apps \<and>
    ((\<exists>q. adds_step X K cmp_equal (pcs, (r, w)) q) \<or>
     (\<forall>pc\<in>set pcs. add_answer pc \<noteq> None) \<and> \<not> rc_Mutex r \<and> locked_slots (rc_Apps r) = {})"
proof -
  have I: "adds_inv (length (rc_Apps r0)) (pcs, (r, w))"
    by (rule adds_inv_reachable[OF relpowp_imp_rtranclp[OF assms(1)] assms(2,3)])
  have "k \<le> 6 * length apps"
    using adds_run_length[OF assms(1)] unfolding steps_left_requests by linarith
  with adds_not_stuck[OF I assms(4)] answered_free[OF I] show ?thesis by blast
qed

text \<open>The witnesses: two requests for one name on the empty repository.\<close>

lemma pod_home: "home pod_world = Some ''/root''"
  by (simp add: pod_world_def git_world_def)

theorem concurrent_adds_invariant_witness:
  "\<exists>a v. (adds_step sample_offline rest0 five_equal)\<^sup>*\<^sup>* (requests [spec0, spec0] (repo1, pod_world))
      ([Append a, Search spec0], (repo1\<lparr>rc_Mutex := True\<rparr>, v)) \<and>
     length (filter in_critical [Append a, Search spec0]) = 1 \<and> locked_slots (rc_Apps repo1) = {}"
proof -
  from offline_builds[OF pod_home] obtain a v where n: "NewApplication sample_offline rest0 spec0 pod_world = (Ret a, v)"
    by blast
  then have "adds_schedule sample_offline rest0 five_equal [0, 0, 0] (requests [spec0, spec0] (repo1, pod_world)) =
      Some ([Append a, Search spec0], (repo1\<lparr>rc_Mutex := True\<rparr>, v))"
    by (simp add: requests_def)
  from relpowp_imp_rtranclp[OF schedule_steps[OF this]]
  have r: "(adds_step sample_offline rest0 five_equal)\<^sup>*\<^sup>* (requests [spec0, spec0] (repo1, pod_world))
      ([Append a, Search spec0], (repo1\<lparr>rc_Mutex := True\<rparr>, v))" .
  from concurrent_adds_invariant[OF r _ repo1_free] r show ?thesis by auto
qed

theorem concurrent_adds_answered_witness:
  "\<exists>q. adds_step sample_offline rest0 five_equal (requests [spec0] (repo1, pod_world)) q"
proof -
  have "(adds_step sample_offline rest0 five_equal ^^ 0) (requests [spec0] (repo1, pod_world)) ([Search spec0], (repo1, pod_world))"
    by (simp add: requests_def)
  from concurrent_adds_answered[OF this _ repo1_free offline_calls_end]
  show ?thesis by (simp add: requests_def)
qed

text \<open>
  C36. The search and the append are not one step: two calls for the same new application can both find no
  index, and both append, so that the repository has two applications of one name, although the second
  call finds the first application when it runs after it.
\<close>

theorem concurrent_adds_duplicate:
  assumes "find_app_first (a_Name app) (rc_Apps r) 0 = Ret None" and "\<not> rc_Mutex r"
    and "NewApplication X K app w = (Ret a, w1)" and "NewApplication X K app w1 = (Ret b, w2)"
    and "cmp_equal app app"
  shows "(\<exists>r'. (adds_step X K cmp_equal)\<^sup>*\<^sup>* (requests [app, app] (r, w)) ([Added, Added], (r', w2)) \<and>
      \<not> distinct (map a_Name (live_apps (rc_Apps r')))) \<and>
    (\<exists>r1. (adds_step X K cmp_equal)\<^sup>*\<^sup>* (requests [app, app] (r, w))
        ([Added, Finished (Fail NoErrAlreadyUpTodate)], (r1, w1)) \<and> rc_Apps r1 = rc_Apps r @ [Some a])"
proof -
  let ?r2 = "r\<lparr>rc_Apps := rc_Apps r @ [Some a, Some b], rc_Mutex := False\<rparr>"
  let ?r1 = "r\<lparr>rc_Apps := rc_Apps r @ [Some a], rc_Mutex := False\<rparr>"
  have n: "app_spec.truncate a = app" "a_Name a = a_Name app" "a_Name b = a_Name app"
    using NewApplication_fields(1)[OF assms(3)] NewApplication_wf(2)[OF assms(3)] NewApplication_wf(2)[OF assms(4)]
    by simp_all
  have f: "find_app_first (a_Name app) (rc_Apps r @ [Some a]) 0 = Ret (Some (length (rc_Apps r)))"
    using find_app_first_append[OF assms(1) n(2)] by simp
  have "adds_schedule X K cmp_equal [0, 1, 0, 1, 0, 0, 1, 1] (requests [app, app] (r, w)) = Some ([Added, Added], (?r2, w2))"
    using assms(1-4) by (simp add: requests_def)
  then have "(adds_step X K cmp_equal)\<^sup>*\<^sup>* (requests [app, app] (r, w)) ([Added, Added], (?r2, w2))"
    by (rule relpowp_imp_rtranclp[OF schedule_steps])
  moreover have "\<not> distinct (map a_Name (live_apps (rc_Apps ?r2)))" using n by simp
  moreover have "adds_schedule X K cmp_equal [0, 0, 0, 0, 1, 1] (requests [app, app] (r, w)) =
      Some ([Added, Finished (Fail NoErrAlreadyUpTodate)], (?r1, w1))"
    using assms(1-3,5) n(1) f by (simp add: requests_def same_application_def)
  then have "(adds_step X K cmp_equal)\<^sup>*\<^sup>* (requests [app, app] (r, w))
      ([Added, Finished (Fail NoErrAlreadyUpTodate)], (?r1, w1))"
    by (rule relpowp_imp_rtranclp[OF schedule_steps])
  moreover have "rc_Apps ?r1 = rc_Apps r @ [Some a]" by simp
  ultimately show ?thesis by blast
qed

theorem concurrent_adds_duplicate_witness:
  "\<exists>r' w. (adds_step sample_offline rest0 five_equal)\<^sup>*\<^sup>* (requests [spec0, spec0] (repo1, pod_world))
      ([Added, Added], (r', w)) \<and> \<not> distinct (map a_Name (live_apps (rc_Apps r')))"
proof -
  obtain a w1 where n1: "NewApplication sample_offline rest0 spec0 pod_world = (Ret a, w1)" "home w1 = Some ''/root''"
    using offline_builds[OF pod_home] by blast
  obtain b w2 where n2: "NewApplication sample_offline rest0 spec0 w1 = (Ret b, w2)"
    using offline_builds[OF n1(2)] by blast
  from concurrent_adds_duplicate[of spec0 repo1, OF _ _ n1(1) n2, of five_equal]
  show ?thesis by (auto simp: five_equal_def)
qed

end
