(* ===== verification/ConcurrentRepos.thy ===== *)
theory ConcurrentRepos
  imports Server
begin

section \<open>Requests on repositories at the same time\<close>

text \<open>
  The RPCs of \<^verbatim>\<open>server.go\<close> that change the store, cut where other requests can come between: a look-up by URL
  runs without a lock and yields a pointer, the lists of repositories change under the handler's mutex, and a
  request on an application works through the pointer it has found, whatever has become of the handler's
  list. So the repositories are objects here: \<open>st_heap\<close> has all that were ever made, a pointer is an
  index, and \<open>st_repos\<close> is the slice \<^verbatim>\<open>h.Repos\<close>. What a call on one repository does with its applications is one
  step (theory \<open>ConcurrentAdds\<close> cuts it further); \<open>None\<close> is a turn of a loop \<^verbatim>\<open>for !m.TryLock() {}\<close> that does not
  get the mutex, or a call that never returns.
\<close>

record 'e store =
  st_heap :: "repo_config list"
  st_repos :: "nat list"
  st_mutex :: mutex
  st_world :: "'e world"

text \<open>The handler of theory \<open>Handler\<close> that such a store amounts to; \<open>ns\<close> is \<^verbatim>\<open>CurrentNamespace\<close>.\<close>

definition handler_view :: "string \<Rightarrow> 'e store \<Rightarrow> handler" where
  "handler_view ns s =
     \<lparr>h_Repos = map (\<lambda>p. st_heap s ! p) (st_repos s), h_Mutex = st_mutex s, h_CurrentNamespace = ns\<rparr>"

datatype req_pc =
    FindAdd "repository_msg option"        \<comment> \<open>\<^verbatim>\<open>AddRepository\<close>: the look-up\<close>
  | AwaitAdd "repository_msg option"       \<comment> \<open>the loop on the handler's mutex\<close>
  | MakeRepo "repository_msg option"       \<comment> \<open>\<^verbatim>\<open>NewRepositoryConfig\<close>, the mutex held\<close>
  | RegisterRepo nat                       \<comment> \<open>\<^verbatim>\<open>h.AddRepository\<close> of a new object, the mutex held\<close>
  | AwaitDelete "repository_msg option"    \<comment> \<open>\<^verbatim>\<open>DeleteRepository\<close>: the loop on the handler's mutex\<close>
  | FindDelete "repository_msg option"     \<comment> \<open>the loop over \<^verbatim>\<open>h.Repos\<close> and the one on the repository's mutex\<close>
  | UninstallRepo nat nat                  \<comment> \<open>the goroutines, awaited; index and pointer, both mutexes held\<close>
  | DropRepo nat nat                       \<comment> \<open>the removal from the slice, both mutexes held\<close>
  | FindForApp "application_msg option"    \<comment> \<open>\<^verbatim>\<open>AddOrUpdateApplication\<close>: the look-up\<close>
  | ApplyApp nat "application_msg option"  \<comment> \<open>the call on the repository\<close>
  | FindForDelete "application_msg option" \<comment> \<open>\<^verbatim>\<open>DeleteApplication\<close>: the search\<close>
  | ApplyDelete nat "application_msg option"
  | Answered "unit res"

definition put_repo :: "nat \<Rightarrow> repo_config \<Rightarrow> 'e store \<Rightarrow> 'e store" where
  "put_repo p r s = s\<lparr>st_heap := (st_heap s)[p := r]\<rparr>"

text \<open>The deferred \<^verbatim>\<open>Unlock\<close> of the handler's mutex, and of the mutex of a repository.\<close>

definition unlock_handler :: "'e store \<Rightarrow> 'e store" where
  "unlock_handler s = s\<lparr>st_mutex := False\<rparr>"

definition unlock_repo :: "nat \<Rightarrow> 'e store \<Rightarrow> 'e store" where
  "unlock_repo p s = put_repo p ((st_heap s ! p)\<lparr>rc_Mutex := False\<rparr>) s"

definition reply_error :: "unit res \<Rightarrow> unit res" where
  "reply_error res = (case res of Fail e \<Rightarrow> if e = NoErrAlreadyUpTodate then Ret () else Fail e | _ \<Rightarrow> res)"

fun req_step :: "'e externals \<Rightarrow> rest_config \<Rightarrow> string \<Rightarrow> app_cmp \<Rightarrow> req_pc \<Rightarrow> 'e store \<Rightarrow> (req_pc \<times> 'e store) option" where
  "req_step X K ns cmp_equal (FindAdd inm) s =
     Some (case GetRepositoryConfig (handler_view ns s) (repository_GetUrl inm) of
             Some i \<Rightarrow> Answered (Ret ())
           | None \<Rightarrow> AwaitAdd inm, s)"
| "req_step X K ns cmp_equal (AwaitAdd inm) s =
     (if st_mutex s then None else Some (MakeRepo inm, s\<lparr>st_mutex := True\<rparr>))"
| "req_step X K ns cmp_equal (MakeRepo inm) s =
     (case NewRepositoryConfig X K (repository_GetName inm) (request_settings inm) ns (st_world s) of
        (Ret core, w) \<Rightarrow>
          Some (RegisterRepo (length (st_heap s)), s\<lparr>st_heap := st_heap s @ [new_repository core], st_world := w\<rparr>)
      | (Fail e, w) \<Rightarrow> Some (Answered (Fail e), unlock_handler (s\<lparr>st_world := w\<rparr>))
      | (Panic q, w) \<Rightarrow> Some (Answered (Panic q), unlock_handler (s\<lparr>st_world := w\<rparr>))
      | (Spin, w) \<Rightarrow> None)"
| "req_step X K ns cmp_equal (RegisterRepo p) s =
     Some (if list_ex (\<lambda>q. repo_url (st_heap s ! q) = repo_url (st_heap s ! p)) (st_repos s)
           then (Answered (Fail ErrRepositoryAlreadyExist), unlock_handler s)
           else (Answered (Ret ()), unlock_handler (s\<lparr>st_repos := st_repos s @ [p]\<rparr>)))"
| "req_step X K ns cmp_equal (AwaitDelete inm) s =
     (if st_mutex s then None else Some (FindDelete inm, s\<lparr>st_mutex := True\<rparr>))"
| "req_step X K ns cmp_equal (FindDelete inm) s =
     (case last_index (\<lambda>p. rc_Name (st_heap s ! p) = repository_GetName inm) (st_repos s) of
        None \<Rightarrow> Some (Answered (Fail ErrRepositoryConfigNotFound), unlock_handler s)
      | Some i \<Rightarrow>
          let p = st_repos s ! i in
          if rc_Mutex (st_heap s ! p) then None
          else Some (UninstallRepo i p, put_repo p ((st_heap s ! p)\<lparr>rc_Mutex := True\<rparr>) s))"
| "req_step X K ns cmp_equal (UninstallRepo i p) s =
     (case for_each (uninstall_goroutine X) (rc_Apps (st_heap s ! p)) (st_world s) of
        (Ret _, w) \<Rightarrow> Some (DropRepo i p, s\<lparr>st_world := w\<rparr>)
      | (Fail e, w) \<Rightarrow> Some (Answered (Fail e), unlock_handler (unlock_repo p (s\<lparr>st_world := w\<rparr>)))
      | (Panic q, w) \<Rightarrow> Some (Answered (Panic q), unlock_handler (unlock_repo p (s\<lparr>st_world := w\<rparr>)))
      | (Spin, w) \<Rightarrow> None)"
| "req_step X K ns cmp_equal (DropRepo i p) s =
     Some (Answered (Ret ()), unlock_handler (unlock_repo p (s\<lparr>st_repos := swap_remove (st_repos s) i\<rparr>)))"
| "req_step X K ns cmp_equal (FindForApp inm) s =
     Some (case GetRepositoryConfig (handler_view ns s) (application_GetUrl inm) of
             None \<Rightarrow> Answered (Fail ErrRepositoryConfigNotFound)
           | Some i \<Rightarrow> ApplyApp (st_repos s ! i) inm, s)"
| "req_step X K ns cmp_equal (ApplyApp p inm) s =
     (case AddOrUpdateApplication X K cmp_equal (request_app inm (repo_core.truncate (st_heap s ! p)))
         (st_heap s ! p, st_world s) of
        (Spin, t) \<Rightarrow> None
      | (res, (r, w)) \<Rightarrow> Some (Answered (reply_error res), put_repo p r (s\<lparr>st_world := w\<rparr>)))"
| "req_step X K ns cmp_equal (FindForDelete inm) s =
     Some (case GetRepositoryConfig (handler_view ns s) (application_GetUrl inm) of
             None \<Rightarrow> Answered (Ret ())
           | Some i \<Rightarrow> ApplyDelete (st_repos s ! i) inm, s)"
| "req_step X K ns cmp_equal (ApplyDelete p inm) s =
     (case DeleteApplication X (application_GetName inm) (st_heap s ! p, st_world s) of
        (Spin, t) \<Rightarrow> None
      | (res, (r, w)) \<Rightarrow> Some (Answered res, put_repo p r (s\<lparr>st_world := w\<rparr>)))"
| "req_step X K ns cmp_equal (Answered res) s = None"

text \<open>One request alone, any number of them, and a schedule that names the request that moves.\<close>

fun req_alone :: "'e externals \<Rightarrow> rest_config \<Rightarrow> string \<Rightarrow> app_cmp \<Rightarrow> nat \<Rightarrow> req_pc \<Rightarrow> 'e store \<Rightarrow> req_pc \<times> 'e store" where
  "req_alone X K ns cmp_equal 0 pc s = (pc, s)"
| "req_alone X K ns cmp_equal (Suc n) pc s =
     (case req_step X K ns cmp_equal pc s of None \<Rightarrow> (pc, s) | Some (pc', s') \<Rightarrow> req_alone X K ns cmp_equal n pc' s')"

inductive reqs_step ::
    "'e externals \<Rightarrow> rest_config \<Rightarrow> string \<Rightarrow> app_cmp \<Rightarrow> req_pc list \<times> 'e store \<Rightarrow> req_pc list \<times> 'e store \<Rightarrow> bool"
  for X K ns cmp_equal where
  reqs_step: "i < length pcs \<Longrightarrow> req_step X K ns cmp_equal (pcs ! i) s = Some (pc', s') \<Longrightarrow>
    reqs_step X K ns cmp_equal (pcs, s) (pcs[i := pc'], s')"

inductive_cases reqs_stepE: "reqs_step X K ns cmp_equal a b"

fun reqs_schedule ::
    "'e externals \<Rightarrow> rest_config \<Rightarrow> string \<Rightarrow> app_cmp \<Rightarrow> nat list \<Rightarrow> req_pc list \<times> 'e store \<Rightarrow>
     (req_pc list \<times> 'e store) option" where
  "reqs_schedule X K ns cmp_equal [] a = Some a"
| "reqs_schedule X K ns cmp_equal (i # is) (pcs, s) =
     (if i < length pcs then
        case req_step X K ns cmp_equal (pcs ! i) s of
          None \<Rightarrow> None
        | Some (pc', s') \<Rightarrow> reqs_schedule X K ns cmp_equal is (pcs[i := pc'], s')
      else None)"

text \<open>Where a request begins, and which RPC it is.\<close>

fun starts :: "req_pc \<Rightarrow> bool" where
  "starts (FindAdd inm) = True"
| "starts (AwaitDelete inm) = True"
| "starts (FindForApp inm) = True"
| "starts (FindForDelete inm) = True"
| "starts pc = False"

fun rpc_of :: "'e externals \<Rightarrow> app_cmp \<Rightarrow> req_pc \<Rightarrow> (server \<times> 'e world, unit) comp" where
  "rpc_of X cmp_equal (FindAdd inm) = rpc_AddRepository X inm"
| "rpc_of X cmp_equal (AwaitDelete inm) = rpc_DeleteRepository X inm"
| "rpc_of X cmp_equal (FindForApp inm) = rpc_AddOrUpdateApplication X cmp_equal inm"
| "rpc_of X cmp_equal (FindForDelete inm) = rpc_DeleteApplication X inm"
| "rpc_of X cmp_equal pc = spinc"

end
