(* ===== verification/ConcurrentReposProofs.thy ===== *)
theory ConcurrentReposProofs
  imports ConcurrentRepos ServerProofs
begin

section \<open>Repositories as objects: refinement and invariant\<close>

subsection \<open>The handler a store amounts to\<close>

definition store_ok :: "'e store \<Rightarrow> bool" where
  "store_ok s \<longleftrightarrow> distinct (st_repos s) \<and> (\<forall>p\<in>set (st_repos s). p < length (st_heap s))"

lemma handler_view_sel [simp]:
  "h_Repos (handler_view ns s) = map (\<lambda>p. st_heap s ! p) (st_repos s)"
  "h_Mutex (handler_view ns s) = st_mutex s" "h_CurrentNamespace (handler_view ns s) = ns"
  by (simp_all add: handler_view_def)

lemma put_repo_sel [simp]:
  "st_repos (put_repo p r s) = st_repos s" "st_mutex (put_repo p r s) = st_mutex s"
  "st_world (put_repo p r s) = st_world s" "length (st_heap (put_repo p r s)) = length (st_heap s)"
  "st_heap (put_repo p r s) = (st_heap s)[p := r]"
  by (simp_all add: put_repo_def)

lemma unlock_sel [simp]:
  "st_repos (unlock_handler s) = st_repos s" "st_heap (unlock_handler s) = st_heap s"
  "st_world (unlock_handler s) = st_world s" "\<not> st_mutex (unlock_handler s)"
  "st_repos (unlock_repo p s) = st_repos s" "st_mutex (unlock_repo p s) = st_mutex s"
  "st_world (unlock_repo p s) = st_world s" "length (st_heap (unlock_repo p s)) = length (st_heap s)"
  "st_heap (unlock_repo p s) = (st_heap s)[p := (st_heap s ! p)\<lparr>rc_Mutex := False\<rparr>]"
  by (simp_all add: unlock_handler_def unlock_repo_def)

lemma map_heap_update:
  assumes "distinct ps" and "\<forall>p\<in>set ps. p < length heap" and "i < length ps"
  shows "map (\<lambda>p. heap[ps ! i := r] ! p) ps = (map (\<lambda>p. heap ! p) ps)[i := r]"
proof (rule nth_equalityI)
  fix j assume "j < length (map (\<lambda>p. heap[ps ! i := r] ! p) ps)"
  then have j: "j < length ps" by simp
  with assms nth_mem[OF assms(3)] show "map (\<lambda>p. heap[ps ! i := r] ! p) ps ! j = (map (\<lambda>p. heap ! p) ps)[i := r] ! j"
    by (cases "j = i") (simp_all add: nth_list_update nth_eq_iff_index_eq)
qed simp

lemma map_heap_other: "p \<notin> set ps \<Longrightarrow> map (\<lambda>q. heap[p := r] ! q) ps = map (\<lambda>q. heap ! q) ps"
  by (metis (no_types, lifting) map_eq_conv nth_list_update_neq)

lemma handler_view_put:
  assumes "store_ok s" and "i < length (st_repos s)"
  shows "handler_view ns (put_repo (st_repos s ! i) r s) =
    (handler_view ns s)\<lparr>h_Repos := (h_Repos (handler_view ns s))[i := r]\<rparr>"
  using assms map_heap_update[of "st_repos s" "st_heap s" i r] by (simp add: handler_view_def store_ok_def)

lemma last_index_map: "last_index P (map f xs) = last_index (\<lambda>x. P (f x)) xs"
  by (induction xs) (auto split: option.splits)

lemma map_swap_remove: "i < length xs \<Longrightarrow> map f (swap_remove xs i) = swap_remove (map f xs) i"
  by (simp add: swap_remove_def map_update flip: take_map)

lemma store_view: "handler_view ns s = \<lparr>h_Repos = hs, h_Mutex = m, h_CurrentNamespace = n\<rparr> \<longleftrightarrow>
    map (\<lambda>p. st_heap s ! p) (st_repos s) = hs \<and> st_mutex s = m \<and> ns = n"
  by (simp add: handler_view_def)

subsection \<open>One request alone\<close>

definition answers :: "req_pc \<Rightarrow> bool" where
  "answers pc \<longleftrightarrow> (\<exists>res. pc = Answered res)"

definition same_end :: "string \<Rightarrow> unit res \<times> (server \<times> 'e world) \<Rightarrow> req_pc \<times> 'e store \<Rightarrow> bool" where
  "same_end ns a b \<longleftrightarrow>
     (if fst a = Spin then \<not> answers (fst b)
      else fst b = Answered (fst a) \<and> st_world (snd b) = snd (snd a) \<and>
        handler_view ns (snd b) = sv_Handler (fst (snd a)))"

lemma alone_AddRepository:
  assumes "store_ok s"
  shows "same_end ns (rpc_AddRepository X inm (\<lparr>sv_KubeConfig = K, sv_Handler = handler_view ns s\<rparr>, st_world s))
    (req_alone X K ns cmp_equal 4 (FindAdd inm) s)"
proof -
  obtain r w where n: "NewRepositoryConfig X K (repository_GetName inm) (request_settings inm) ns (st_world s) = (r, w)"
    by (metis prod.exhaust)
  have heap: "map (\<lambda>p. (st_heap s @ xs) ! p) (st_repos s) = map (\<lambda>p. st_heap s ! p) (st_repos s)" for xs
    using assms by (auto simp: store_ok_def nth_append)
  have ex: "list_ex (\<lambda>q. repo_url ((st_heap s @ [x]) ! q) = repo_url x) (st_repos s) =
      list_ex (\<lambda>r. repo_url r = repo_url x) (h_Repos (handler_view ns s))" for x
    using assms by (auto simp: list_ex_iff store_ok_def nth_append)
  show ?thesis
    using n heap
    by (cases "GetRepositoryConfig (handler_view ns s) (repository_GetUrl inm)"; cases "st_mutex s"; cases r)
      (auto simp: same_end_def answers_def rpc_AddRepository_def on_handler_def with_handler_lock_def lock_handler_def
        defer_unlock_handler_def register_repository_def AddRepository_def andthen_def numeral_eq_Suc ex store_view
        handler_view_def[of ns "unlock_handler _"] unlock_handler_def list_ex_iff
        split: if_splits)
qed

lemma heap_free: "\<not> rc_Mutex (heap ! p) \<Longrightarrow> heap[p := (heap ! p)\<lparr>rc_Mutex := False\<rparr>] = heap"
proof -
  assume "\<not> rc_Mutex (heap ! p)"
  then have "(heap ! p)\<lparr>rc_Mutex := False\<rparr> = heap ! p" by (cases "heap ! p") simp
  then show ?thesis by simp
qed

lemma alone_DeleteRepository:
  assumes "store_ok s"
  shows "same_end ns (rpc_DeleteRepository X inm (\<lparr>sv_KubeConfig = K, sv_Handler = handler_view ns s\<rparr>, st_world s))
    (req_alone X K ns cmp_equal 4 (AwaitDelete inm) s)"
proof (cases "st_mutex s")
  case True
  then show ?thesis
    by (simp add: same_end_def answers_def rpc_DeleteRepository_def on_handler_def with_handler_lock_def
        lock_handler_def numeral_eq_Suc andthen_def)
next
  case free: False
  let ?P = "\<lambda>p. rc_Name (st_heap s ! p) = repository_GetName inm"
  show ?thesis
  proof (cases "last_index ?P (st_repos s)")
    case None
    with free show ?thesis
      by (simp add: same_end_def answers_def rpc_DeleteRepository_def on_handler_def with_handler_lock_def
          lock_handler_def defer_unlock_handler_def DeleteRepository_def last_index_map numeral_eq_Suc handler_view_def
          unlock_handler_def)
  next
    case (Some i)
    then have i: "i < length (st_repos s)" by (simp add: last_index_Some)
    then have p: "st_repos s ! i < length (st_heap s)" using assms by (simp add: store_ok_def)
    define p where "p = st_repos s ! i"
    obtain r w where u: "for_each (uninstall_goroutine X) (rc_Apps (st_heap s ! p)) (st_world s) = (r, w)"
      by (metis prod.exhaust)
    have "DeleteRepository X (repository_GetName inm) ((handler_view ns s)\<lparr>h_Mutex := True\<rparr>, st_world s) =
      (if rc_Mutex (st_heap s ! p) then (Spin, ((handler_view ns s)\<lparr>h_Mutex := True\<rparr>, st_world s))
       else case r of
         Ret _ \<Rightarrow> (Ret (), ((handler_view ns s)\<lparr>h_Mutex := True, h_Repos := swap_remove (h_Repos (handler_view ns s)) i\<rparr>, w))
       | Fail e \<Rightarrow> (Fail e, ((handler_view ns s)\<lparr>h_Mutex := True\<rparr>, w))
       | Panic q \<Rightarrow> (Panic q, ((handler_view ns s)\<lparr>h_Mutex := True\<rparr>, w))
       | Spin \<Rightarrow> (Spin, ((handler_view ns s)\<lparr>h_Mutex := True\<rparr>, w)))"
      using Some u i by (cases r) (simp_all add: DeleteRepository_def last_index_map p_def andthen_def)
    then show ?thesis
      using free Some u p i
      by (cases "rc_Mutex (st_heap s ! p)"; cases r)
        (simp_all add: same_end_def answers_def rpc_DeleteRepository_def on_handler_def with_handler_lock_def
          lock_handler_def defer_unlock_handler_def numeral_eq_Suc andthen_def p_def handler_view_def unlock_handler_def
          unlock_repo_def put_repo_def map_swap_remove Let_def heap_free)
  qed
qed

lemma on_found:
  assumes "store_ok s" and "i < length (st_repos s)" and "m (st_heap s ! (st_repos s ! i), st_world s) = (res, (r, w))"
  shows "on_handler (on_repo i m) (\<lparr>sv_KubeConfig = K, sv_Handler = handler_view ns s\<rparr>, st_world s) =
    (res, (\<lparr>sv_KubeConfig = K, sv_Handler = handler_view ns (put_repo (st_repos s ! i) r (s\<lparr>st_world := w\<rparr>))\<rparr>, w))"
proof -
  have "handler_view ns (put_repo (st_repos s ! i) r (s\<lparr>st_world := w\<rparr>)) = handler_view ns (put_repo (st_repos s ! i) r s)"
    by (simp add: handler_view_def put_repo_def)
  with assms handler_view_put[OF assms(1,2)] show ?thesis by (simp add: on_handler_def on_repo_def)
qed

lemma lookup_index: "GetRepositoryConfig (handler_view ns s) u = Some i \<Longrightarrow> i < length (st_repos s)"
  by (simp add: GetRepositoryConfig_def first_index_Some)

lemma alone_AddOrUpdateApplication:
  assumes "store_ok s"
  shows "same_end ns (rpc_AddOrUpdateApplication X cmp_equal inm
      (\<lparr>sv_KubeConfig = K, sv_Handler = handler_view ns s\<rparr>, st_world s))
    (req_alone X K ns cmp_equal 4 (FindForApp inm) s)"
proof (cases "GetRepositoryConfig (handler_view ns s) (application_GetUrl inm)")
  case None
  then show ?thesis
    by (simp add: same_end_def answers_def rpc_AddOrUpdateApplication_def numeral_eq_Suc)
next
  case (Some i)
  let ?p = "st_repos s ! i" and ?app = "request_app inm (repo_core.truncate (st_heap s ! (st_repos s ! i)))"
  obtain res r w where m: "AddOrUpdateApplication X K cmp_equal ?app (st_heap s ! ?p, st_world s) = (res, (r, w))"
    by (metis prod.exhaust)
  note o = on_found[where m = "AddOrUpdateApplication X K cmp_equal ?app", OF assms lookup_index[OF Some] m, of K ns]
  have w: "st_world (put_repo p r (s\<lparr>st_world := w\<rparr>)) = w" for p r by simp
  show ?thesis
    using Some m o lookup_index[OF Some]
    by (cases res) (simp_all add: same_end_def answers_def rpc_AddOrUpdateApplication_def numeral_eq_Suc reply_error_def
        andthen_def)
qed

lemma alone_DeleteApplication:
  assumes "store_ok s"
  shows "same_end ns (rpc_DeleteApplication X inm (\<lparr>sv_KubeConfig = K, sv_Handler = handler_view ns s\<rparr>, st_world s))
    (req_alone X K ns cmp_equal 4 (FindForDelete inm) s)"
proof (cases "GetRepositoryConfig (handler_view ns s) (application_GetUrl inm)")
  case None
  then show ?thesis by (simp add: same_end_def answers_def rpc_DeleteApplication_def numeral_eq_Suc)
next
  case (Some i)
  let ?p = "st_repos s ! i"
  obtain res r w where m: "DeleteApplication X (application_GetName inm) (st_heap s ! ?p, st_world s) = (res, (r, w))"
    by (metis prod.exhaust)
  note o = on_found[where m = "DeleteApplication X (application_GetName inm)", OF assms lookup_index[OF Some] m, of K ns]
  show ?thesis
    using Some m o by (cases res) (simp_all add: same_end_def answers_def rpc_DeleteApplication_def numeral_eq_Suc)
qed

subsection \<open>What every interleaving keeps\<close>

fun in_section :: "req_pc \<Rightarrow> bool" where
  "in_section (MakeRepo inm) = True"
| "in_section (RegisterRepo p) = True"
| "in_section (FindDelete inm) = True"
| "in_section (UninstallRepo i p) = True"
| "in_section (DropRepo i p) = True"
| "in_section pc = False"

fun req_ok :: "'e store \<Rightarrow> req_pc \<Rightarrow> bool" where
  "req_ok s (RegisterRepo p) \<longleftrightarrow> p < length (st_heap s) \<and> p \<notin> set (st_repos s)"
| "req_ok s (UninstallRepo i p) \<longleftrightarrow> i < length (st_repos s) \<and> st_repos s ! i = p"
| "req_ok s (DropRepo i p) \<longleftrightarrow> i < length (st_repos s) \<and> st_repos s ! i = p"
| "req_ok s (ApplyApp p inm) \<longleftrightarrow> p < length (st_heap s) \<and> repo_url (st_heap s ! p) = application_GetUrl inm"
| "req_ok s (ApplyDelete p inm) \<longleftrightarrow> p < length (st_heap s)"
| "req_ok s pc \<longleftrightarrow> True"

definition data_ok :: "'e store \<Rightarrow> bool" where
  "data_ok s \<longleftrightarrow> store_ok s \<and> distinct (map (\<lambda>p. repo_url (st_heap s ! p)) (st_repos s)) \<and>
     (\<forall>r\<in>set (st_heap s). repo_wf r)"

definition reqs_inv :: "req_pc list \<times> 'e store \<Rightarrow> bool" where
  "reqs_inv = (\<lambda>(pcs, s). data_ok s \<and> (\<forall>pc\<in>set pcs. req_ok s pc) \<and>
     length (filter in_section pcs) = (if st_mutex s then 1 else 0))"

definition step_effect :: "req_pc \<Rightarrow> 'e store \<Rightarrow> req_pc \<Rightarrow> 'e store \<Rightarrow> bool" where
  "step_effect pc s pc' s' \<longleftrightarrow>
     length (st_heap s) \<le> length (st_heap s') \<and>
     (\<forall>p<length (st_heap s). repo_url (st_heap s' ! p) = repo_url (st_heap s ! p)) \<and> (\<not> in_section pc \<longrightarrow> st_repos s' = st_repos s) \<and>
     (if in_section pc = in_section pc' then st_mutex s' = st_mutex s
      else (st_mutex s' \<longleftrightarrow> in_section pc') \<and> (in_section pc' \<longrightarrow> \<not> st_mutex s))"

lemma data_ok_frame [simp]:
  "data_ok (s\<lparr>st_world := w\<rparr>) = data_ok s" "data_ok (s\<lparr>st_mutex := m\<rparr>) = data_ok s"
  "data_ok (unlock_handler s) = data_ok s"
  by (simp_all add: data_ok_def store_ok_def unlock_handler_def)

lemma repo_wf_mutex [simp]: "repo_wf (r\<lparr>rc_Mutex := m\<rparr>) = repo_wf r" "repo_url (r\<lparr>rc_Mutex := m\<rparr>) = repo_url r"
  by (simp_all add: repo_wf_def repo_url_def)

lemma data_ok_put:
  assumes "data_ok s" and "p < length (st_heap s)" and "repo_at (repo_url (st_heap s ! p)) r"
  shows "data_ok (put_repo p r s)"
proof -
  have "repo_url ((st_heap s)[p := r] ! q) = repo_url (st_heap s ! q)" for q
    using assms(2,3) by (cases "q = p") (simp_all add: repo_at_def)
  moreover have "\<forall>r'\<in>set ((st_heap s)[p := r]). repo_wf r'"
    using assms(1,3) set_update_subset_insert[of "st_heap s" p r] by (auto simp: data_ok_def repo_at_def)
  ultimately show ?thesis using assms(1) by (simp add: data_ok_def store_ok_def)
qed

lemma data_ok_unlock:
  "data_ok s \<Longrightarrow> p < length (st_heap s) \<Longrightarrow> data_ok (unlock_repo p s)"
  unfolding unlock_repo_def by (rule data_ok_put) (auto simp: repo_at_def data_ok_def)

lemma data_ok_repo: "data_ok s \<Longrightarrow> p < length (st_heap s) \<Longrightarrow> repo_at (repo_url (st_heap s ! p)) (st_heap s ! p)"
  by (simp add: data_ok_def repo_at_def)

lemma data_ok_new:
  "data_ok s \<Longrightarrow> data_ok (s\<lparr>st_heap := st_heap s @ [new_repository core]\<rparr>)"
  by (auto simp: data_ok_def store_ok_def nth_append distinct_map inj_on_def)

lemma data_ok_register:
  assumes "data_ok s" and "p < length (st_heap s)" and "p \<notin> set (st_repos s)"
    and "\<not> list_ex (\<lambda>q. repo_url (st_heap s ! q) = repo_url (st_heap s ! p)) (st_repos s)"
  shows "data_ok (s\<lparr>st_repos := st_repos s @ [p]\<rparr>)"
  using assms by (auto simp: data_ok_def store_ok_def list_ex_iff)

lemma data_ok_remove:
  assumes "data_ok s" and "i < length (st_repos s)"
  shows "data_ok (s\<lparr>st_repos := swap_remove (st_repos s) i\<rparr>)"
proof -
  have "distinct (swap_remove (st_repos s) i)"
    using distinct_map_swap_remove(1)[of i "st_repos s" "\<lambda>x. x"] assms by (simp add: data_ok_def store_ok_def)
  moreover have "distinct (map (\<lambda>p. repo_url (st_heap s ! p)) (swap_remove (st_repos s) i))"
    by (rule distinct_map_swap_remove(1)) (use assms in \<open>simp_all add: data_ok_def\<close>)
  ultimately show ?thesis
    using assms set_swap_remove_subset[OF assms(2)] by (auto simp: data_ok_def store_ok_def)
qed

text \<open>A call on one repository leaves its URL and the other repositories.\<close>

lemma call_effect:
  assumes "data_ok s" and "p < length (st_heap s)" and "repo_at (repo_url (st_heap s ! p)) r"
    and "\<not> in_section pc" and "\<not> in_section pc'"
  shows "data_ok (put_repo p r (s\<lparr>st_world := w\<rparr>)) \<and> step_effect pc s pc' (put_repo p r (s\<lparr>st_world := w\<rparr>))"
proof -
  have "data_ok (put_repo p r (s\<lparr>st_world := w\<rparr>))" using data_ok_put[of "s\<lparr>st_world := w\<rparr>" p r] assms by simp
  with assms(2-5) show ?thesis by (auto simp: step_effect_def nth_list_update repo_at_def)
qed

lemma reply_error_returns: "returns res \<Longrightarrow> returns (reply_error res)"
  and reply_error_Panic: "reply_error res = Panic q \<longleftrightarrow> res = Panic q"
  by (cases res; simp add: reply_error_def)+

lemma ApplyApp_ok:
  assumes "req_step X K ns cmp_equal (ApplyApp p inm) s = Some (pc', s')" and "\<forall>q. pc' \<noteq> Answered (Panic q)"
    and "data_ok s" and "req_ok s (ApplyApp p inm)"
  shows "data_ok s' \<and> req_ok s' pc' \<and> step_effect (ApplyApp p inm) s pc' s'"
proof -
  let ?app = "request_app inm (repo_core.truncate (st_heap s ! p))"
  have p: "p < length (st_heap s)" "application_GetUrl inm = repo_url (st_heap s ! p)" using assms(4) by simp_all
  obtain res r w where m: "AddOrUpdateApplication X K cmp_equal ?app (st_heap s ! p, st_world s) = (res, (r, w))"
    by (metis prod.exhaust)
  with assms(1) have e: "pc' = Answered (reply_error res)" "s' = put_repo p r (s\<lparr>st_world := w\<rparr>)" "res \<noteq> Spin"
    by (cases res; simp)+
  then have "returns res" using assms(2) by (cases res) (auto simp: reply_error_def)
  then have "repo_at (repo_url (st_heap s ! p)) r"
    using AddOrUpdateApplication_wf[OF m _ data_ok_repo[OF assms(3) p(1)]] p(2) by simp
  from call_effect[OF assms(3) p(1) this, of "ApplyApp p inm" pc' w] e show ?thesis by simp
qed

lemma ApplyDelete_ok:
  assumes "req_step X K ns cmp_equal (ApplyDelete p inm) s = Some (pc', s')" and "\<forall>q. pc' \<noteq> Answered (Panic q)"
    and "data_ok s" and "req_ok s (ApplyDelete p inm)"
  shows "data_ok s' \<and> req_ok s' pc' \<and> step_effect (ApplyDelete p inm) s pc' s'"
proof -
  have p: "p < length (st_heap s)" using assms(4) by simp
  obtain res r w where m: "DeleteApplication X (application_GetName inm) (st_heap s ! p, st_world s) = (res, (r, w))"
    by (metis prod.exhaust)
  with assms(1) have e: "pc' = Answered res" "s' = put_repo p r (s\<lparr>st_world := w\<rparr>)" "res \<noteq> Spin"
    by (cases res; simp)+
  then have "returns res" using assms(2) by (cases res) auto
  from DeleteApplication_wf[OF m this data_ok_repo[OF assms(3) p]]
  have "repo_at (repo_url (st_heap s ! p)) r" .
  from call_effect[OF assms(3) p this, of "ApplyDelete p inm" pc' w] e show ?thesis by simp
qed

lemma found_pointer:
  assumes "data_ok s" and "GetRepositoryConfig (handler_view ns s) u = Some i"
  shows "st_repos s ! i < length (st_heap s)" and "repo_url (st_heap s ! (st_repos s ! i)) = u"
  using assms lookup_index[OF assms(2)]
  by (auto simp: data_ok_def store_ok_def GetRepositoryConfig_def first_index_Some)

lemma MakeRepo_ok:
  assumes "req_step X K ns cmp_equal (MakeRepo inm) s = Some (pc', s')" and "data_ok s"
  shows "data_ok s' \<and> req_ok s' pc' \<and> step_effect (MakeRepo inm) s pc' s'"
proof -
  have "p \<in> set (st_repos s) \<Longrightarrow> p < length (st_heap s)" for p using assms(2) by (simp add: data_ok_def store_ok_def)
  then have n: "length (st_heap s) \<notin> set (st_repos s)" by blast
  obtain res w where m: "NewRepositoryConfig X K (repository_GetName inm) (request_settings inm) ns (st_world s) = (res, w)"
    by (metis prod.exhaust)
  with assms n show ?thesis by (cases res) (auto simp: step_effect_def data_ok_new nth_append)
qed

lemma FindDelete_ok:
  assumes "req_step X K ns cmp_equal (FindDelete inm) s = Some (pc', s')" and "data_ok s"
  shows "data_ok s' \<and> req_ok s' pc' \<and> step_effect (FindDelete inm) s pc' s'"
proof (cases "last_index (\<lambda>p. rc_Name (st_heap s ! p) = repository_GetName inm) (st_repos s)")
  case None
  with assms show ?thesis by (auto simp: step_effect_def)
next
  case (Some i)
  then have i: "i < length (st_repos s)" by (simp add: last_index_Some)
  then have p: "st_repos s ! i < length (st_heap s)" using assms(2) by (simp add: data_ok_def store_ok_def)
  have "repo_at (repo_url (st_heap s ! (st_repos s ! i))) ((st_heap s ! (st_repos s ! i))\<lparr>rc_Mutex := True\<rparr>)"
    using data_ok_repo[OF assms(2) p] by simp
  from data_ok_put[OF assms(2) p this] assms Some i p show ?thesis
    by (auto simp: step_effect_def Let_def nth_list_update split: if_splits)
qed

lemma UninstallRepo_ok:
  assumes "req_step X K ns cmp_equal (UninstallRepo i p) s = Some (pc', s')" and "data_ok s"
    and "req_ok s (UninstallRepo i p)"
  shows "data_ok s' \<and> req_ok s' pc' \<and> step_effect (UninstallRepo i p) s pc' s'"
proof -
  have p: "p < length (st_heap s)" using assms(2,3) by (auto simp: data_ok_def store_ok_def)
  then have u: "data_ok (unlock_repo p (s\<lparr>st_world := w\<rparr>))" for w
    using data_ok_unlock[of "s\<lparr>st_world := w\<rparr>" p] assms(2) by simp
  obtain res w where "for_each (uninstall_goroutine X) (rc_Apps (st_heap s ! p)) (st_world s) = (res, w)"
    by (metis prod.exhaust)
  with assms u p show ?thesis by (cases res) (auto simp: step_effect_def nth_list_update)
qed

lemma DropRepo_ok:
  assumes "req_step X K ns cmp_equal (DropRepo i p) s = Some (pc', s')" and "data_ok s" and "req_ok s (DropRepo i p)"
  shows "data_ok s' \<and> req_ok s' pc' \<and> step_effect (DropRepo i p) s pc' s'"
proof -
  have i: "i < length (st_repos s)" "p = st_repos s ! i" using assms(3) by simp_all
  then have p: "p < length (st_heap s)" using assms(2) by (auto simp: data_ok_def store_ok_def)
  from data_ok_unlock[of "s\<lparr>st_repos := swap_remove (st_repos s) i\<rparr>" p] data_ok_remove[OF assms(2) i(1)] p
  have "data_ok (unlock_repo p (s\<lparr>st_repos := swap_remove (st_repos s) i\<rparr>))" by simp
  with assms p show ?thesis by (auto simp: step_effect_def nth_list_update)
qed

lemma Find_ok:
  assumes "req_step X K ns cmp_equal pc s = Some (pc', s')" and "data_ok s" and "starts pc"
  shows "data_ok s' \<and> req_ok s' pc' \<and> step_effect pc s pc' s'"
  using assms found_pointer[OF assms(2)]
  by (cases pc) (auto simp: step_effect_def split: option.splits if_splits)

lemma req_step_ok:
  assumes "req_step X K ns cmp_equal pc s = Some (pc', s')" and "\<forall>q. pc' \<noteq> Answered (Panic q)"
    and "data_ok s" and "req_ok s pc"
  shows "data_ok s' \<and> req_ok s' pc' \<and> step_effect pc s pc' s'"
proof (cases pc)
  case (AwaitAdd inm)
  with assms show ?thesis by (auto simp: step_effect_def split: if_splits)
next
  case (RegisterRepo p)
  with assms data_ok_register[of s p] show ?thesis by (auto simp: step_effect_def split: if_splits)
next
  case (ApplyApp p inm)
  show ?thesis using ApplyApp_ok[OF assms(1)[unfolded ApplyApp] assms(2,3) assms(4)[unfolded ApplyApp]] ApplyApp by simp
next
  case (ApplyDelete p inm)
  show ?thesis using ApplyDelete_ok[OF assms(1)[unfolded ApplyDelete] assms(2,3) assms(4)[unfolded ApplyDelete]] ApplyDelete
    by simp
next
  case (MakeRepo inm)
  with assms MakeRepo_ok show ?thesis by blast
next
  case (FindDelete inm)
  with assms FindDelete_ok show ?thesis by blast
next
  case (UninstallRepo i p)
  with assms UninstallRepo_ok show ?thesis by blast
next
  case (DropRepo i p)
  with assms DropRepo_ok show ?thesis by blast
qed (use assms(1) Find_ok[OF assms(1,3)] in simp_all)

subsection \<open>All interleavings\<close>

lemma filter_update:
  "i < length xs \<Longrightarrow> length (filter P (xs[i := y])) + (if P (xs ! i) then 1 else 0) =
     length (filter P xs) + (if P y then 1 else 0)"
proof (induction xs arbitrary: i)
  case (Cons x xs)
  show ?case
  proof (cases i)
    case (Suc j)
    with Cons.IH[of j] Cons.prems show ?thesis by (simp split: if_splits)
  qed simp
qed simp

text \<open>The positions of the other requests stay right: only one request at a time changes the slice.\<close>

lemma req_ok_other:
  assumes "step_effect pc s pc' s'" and "req_ok s pc1" and "\<not> (in_section pc \<and> in_section pc1)"
  shows "req_ok s' pc1"
  using assms by (cases pc1) (auto simp: step_effect_def)

lemma one_in_section:
  assumes "length (filter in_section pcs) \<le> 1" and "i < length pcs" and "j < length pcs" and "i \<noteq> j"
  shows "\<not> (in_section (pcs ! i) \<and> in_section (pcs ! j))"
proof
  assume "in_section (pcs ! i) \<and> in_section (pcs ! j)"
  then have "{i, j} \<subseteq> {k. k < length pcs \<and> in_section (pcs ! k)}" using assms(2,3) by auto
  then have "card {i, j} \<le> length (filter in_section pcs)"
    by (simp add: length_filter_conv_card card_mono)
  with assms(1,4) show False by simp
qed

lemma reqs_inv_step:
  assumes I: "reqs_inv a" and st: "reqs_step X K ns cmp_equal a b" and np: "\<forall>pc\<in>set (fst b). \<forall>q. pc \<noteq> Answered (Panic q)"
  shows "reqs_inv b"
proof -
  from st obtain pcs s i pc' s' where ab: "a = (pcs, s)" "b = (pcs[i := pc'], s')" "i < length pcs"
    "req_step X K ns cmp_equal (pcs ! i) s = Some (pc', s')" by (auto elim: reqs_stepE)
  have I': "data_ok s" "\<forall>pc\<in>set pcs. req_ok s pc" "length (filter in_section pcs) = (if st_mutex s then 1 else 0)"
    using I ab(1) by (simp_all add: reqs_inv_def)
  have pc': "\<forall>q. pc' \<noteq> Answered (Panic q)" using np ab(2,3) by (auto simp: set_update_memI)
  have ok: "req_ok s (pcs ! i)" using I'(2) ab(3) by simp
  from req_step_ok[OF ab(4) pc' I'(1) ok] have n: "data_ok s'" "req_ok s' pc'" "step_effect (pcs ! i) s pc' s'" by auto
  have others: "req_ok s' (pcs[i := pc'] ! j)" if "j < length pcs" for j
  proof (cases "j = i")
    case False
    have "length (filter in_section pcs) \<le> 1" using I'(3) by simp
    from one_in_section[OF this ab(3) that] False have "\<not> (in_section (pcs ! i) \<and> in_section (pcs ! j))" by blast
    with req_ok_other[OF n(3)] I'(2) that False show ?thesis by simp
  qed (use n(2) ab(3) in simp)
  then have "\<forall>pc\<in>set (pcs[i := pc']). req_ok s' pc" by (metis in_set_conv_nth length_list_update)
  moreover have "length (filter in_section (pcs[i := pc'])) = (if st_mutex s' then 1 else 0)"
    using filter_update[OF ab(3), of in_section pc'] I'(3) n(3)
    by (cases "in_section (pcs ! i)"; cases "in_section pc'") (auto simp: step_effect_def split: if_splits)
  ultimately show ?thesis using n(1) ab(2) by (simp add: reqs_inv_def)
qed

text \<open>A request that has panicked stays where it is.\<close>

lemma panic_stays:
  assumes "reqs_step X K ns cmp_equal a b" and "Answered r \<in> set (fst a)"
  shows "Answered r \<in> set (fst b)"
proof -
  from assms(1) obtain pcs s i pc' s' where ab: "a = (pcs, s)" "b = (pcs[i := pc'], s')" "i < length pcs"
    "req_step X K ns cmp_equal (pcs ! i) s = Some (pc', s')" by (auto elim: reqs_stepE)
  from assms(2) ab(1) obtain j where j: "j < length pcs" "pcs ! j = Answered r" by (auto simp: in_set_conv_nth)
  then have "j \<noteq> i" using ab(4) by auto
  with j ab(2) show ?thesis by (metis fst_conv length_list_update nth_list_update_neq nth_mem)
qed

lemma reqs_inv_reachable:
  assumes "(reqs_step X K ns cmp_equal)\<^sup>*\<^sup>* a b" and "reqs_inv a" and "\<forall>pc\<in>set (fst b). \<forall>q. pc \<noteq> Answered (Panic q)"
  shows "reqs_inv b"
  using assms(1,3)
proof (induction rule: rtranclp_induct)
  case base
  then show ?case using assms(2) by simp
next
  case (step b c)
  have "\<forall>pc\<in>set (fst b). \<forall>q. pc \<noteq> Answered (Panic q)"
    using panic_stays[OF step.hyps(2)] step.prems by blast
  with step.IH reqs_inv_step[OF _ step.hyps(2) step.prems] show ?case by blast
qed

definition new_requests :: "req_pc list \<Rightarrow> bool" where
  "new_requests pcs \<longleftrightarrow> (\<forall>pc\<in>set pcs. starts pc)"

lemma starts_outside: "starts pc \<Longrightarrow> \<not> in_section pc \<and> req_ok s pc"
  by (cases pc) simp_all

lemma reqs_inv_start:
  assumes "data_ok s" and "\<not> st_mutex s" and "new_requests pcs"
  shows "reqs_inv (pcs, s)"
proof -
  have "filter in_section pcs = []" using assms(3) starts_outside by (auto simp: new_requests_def filter_empty_conv)
  with assms starts_outside show ?thesis by (auto simp: reqs_inv_def new_requests_def)
qed

end
