(* ===== verification/ConcurrentReposProps.thy ===== *)
theory ConcurrentReposProps
  imports ConcurrentReposProofs ConcurrentAddsProps
begin

section \<open>Properties of concurrent requests on repositories\<close>

subsection \<open>A request that is not disturbed\<close>

text \<open>
  C19. The steps of a request that adds or deletes a repository or an application, with no other request between
  them, compute the RPC of theory \<open>Server\<close> on the handler the store amounts to: the answer, the handler and the
  world are the same; and where the RPC never returns, the request gets no answer.
\<close>

theorem repo_request_alone:
  assumes "store_ok s" and "starts pc"
    and "rpc_of X cmp_equal pc (\<lparr>sv_KubeConfig = K, sv_Handler = handler_view ns s\<rparr>, st_world s) = (res, (sv, w))"
  shows "\<exists>pc' t. req_alone X K ns cmp_equal 4 pc s = (pc', t) \<and>
    (if res = Spin then \<forall>r. pc' \<noteq> Answered r
     else pc' = Answered res \<and> handler_view ns t = sv_Handler sv \<and> st_world t = w)"
proof -
  have "same_end ns (rpc_of X cmp_equal pc (\<lparr>sv_KubeConfig = K, sv_Handler = handler_view ns s\<rparr>, st_world s))
      (req_alone X K ns cmp_equal 4 pc s)"
    using assms(2)
    by (cases pc) (simp_all only: rpc_of.simps starts.simps alone_AddRepository[OF assms(1)]
        alone_DeleteRepository[OF assms(1)] alone_AddOrUpdateApplication[OF assms(1)] alone_DeleteApplication[OF assms(1)])
  then show ?thesis
    unfolding assms(3) by (cases "req_alone X K ns cmp_equal 4 pc s") (auto simp: same_end_def answers_def split: if_splits)
qed

lemma reqs_schedule_steps:
  "reqs_schedule X K ns cmp_equal is a = Some b \<Longrightarrow> (reqs_step X K ns cmp_equal)\<^sup>*\<^sup>* a b"
proof (induction "is" arbitrary: a)
  case (Cons i is')
  obtain pcs s where a: "a = (pcs, s)" by (metis prod.exhaust)
  with Cons.prems obtain pc' s' where st: "i < length pcs" "req_step X K ns cmp_equal (pcs ! i) s = Some (pc', s')"
    and rest: "reqs_schedule X K ns cmp_equal is' (pcs[i := pc'], s') = Some b"
    by (auto split: if_splits option.splits)
  have "reqs_step X K ns cmp_equal a (pcs[i := pc'], s')" unfolding a by (rule reqs_step.intros[OF st])
  from converse_rtranclp_into_rtranclp[OF this Cons.IH[OF rest]] show ?case .
qed simp

definition empty_store :: "sample_ext store" where
  "empty_store = \<lparr>st_heap = [], st_repos = [], st_mutex = False, st_world = pod_world\<rparr>"

lemma empty_store_ok: "data_ok empty_store" "store_ok empty_store" "\<not> st_mutex empty_store"
  and empty_store_view: "handler_view ''prod'' empty_store = sv_Handler server0"
  by (simp_all add: empty_store_def data_ok_def store_ok_def handler_view_def server0_def)

theorem repo_request_alone_witness:
  "\<exists>t. req_alone sample (sv_KubeConfig server0) ''prod'' five_equal 4 (FindAdd repo_request) empty_store =
       (Answered (Ret ()), t) \<and>
     handler_view ''prod'' t = sv_Handler server1"
proof -
  have e: "\<lparr>sv_KubeConfig = sv_KubeConfig server0, sv_Handler = sv_Handler server0\<rparr> = server0" by simp
  have "rpc_of sample five_equal (FindAdd repo_request)
      (\<lparr>sv_KubeConfig = sv_KubeConfig server0, sv_Handler = handler_view ''prod'' empty_store\<rparr>, st_world empty_store) =
      (Ret (), (server1, st_world empty_store))" by (simp only: empty_store_view rpc_of.simps e added_repository)
  from repo_request_alone[OF empty_store_ok(2) _ this] show ?thesis by auto
qed

subsection \<open>Requests in any interleaving\<close>

text \<open>
  C18. Whatever requests that add and delete repositories and applications run at the same time, in every
  interleaving in which none of them has panicked: the repositories of the handler are different objects with
  different URLs, each with its applications in order; and at most one of the requests is between the lock
  and the unlock of the handler's mutex, which is taken exactly then. The look-up of \<^verbatim>\<open>AddRepository\<close> runs
  without the lock, but the handler looks again before it appends.
\<close>

theorem concurrent_requests_invariant:
  assumes "(reqs_step X K ns cmp_equal)\<^sup>*\<^sup>* (pcs0, s0) (pcs, s)"
    and "data_ok s0" and "\<not> st_mutex s0" and "\<forall>pc\<in>set pcs0. starts pc"
    and "\<forall>q. Answered (Panic q) \<notin> set pcs"
  shows "distinct (st_repos s) \<and> distinct (map repo_url (h_Repos (handler_view ns s))) \<and>
    handler_wf (handler_view ns s) \<and> length (filter in_section pcs) = (if st_mutex s then 1 else 0)"
proof -
  have "reqs_inv (pcs, s)"
    using reqs_inv_reachable[OF assms(1) reqs_inv_start[OF assms(2,3)]] assms(4,5) by (auto simp: new_requests_def)
  then have d: "data_ok s" "length (filter in_section pcs) = (if st_mutex s then 1 else 0)" by (simp_all add: reqs_inv_def)
  then have "handler_wf (handler_view ns s)"
    by (auto simp: handler_wf_def data_ok_def store_ok_def comp_def)
  with d show ?thesis by (simp add: handler_wf_def data_ok_def store_ok_def)
qed

lemma repo1_made: "NewRepositoryConfig X K ''repo'' (request_settings repo_request) ns w =
    (Ret \<lparr>rc_Name = ''repo'', rc_Settings = request_settings repo_request, rc_auth = None\<rparr>, w)"
  using request_is_https by (simp add: NewRepositoryConfig_def request_settings_def)

text \<open>Two requests that have both found the URL missing: the second is refused.\<close>

lemma two_adds:
  "\<exists>s. (reqs_step X K ''prod'' cmp_equal)\<^sup>*\<^sup>* ([FindAdd repo_request, FindAdd repo_request], empty_store)
       ([Answered (Ret ()), Answered (Fail ErrRepositoryAlreadyExist)], s) \<and>
     handler_view ''prod'' s = sv_Handler server1"
proof -
  let ?s = "\<lparr>st_heap = [repo1, repo1], st_repos = [0], st_mutex = False, st_world = pod_world\<rparr>"
  have "reqs_schedule X K ''prod'' cmp_equal [0, 1, 0, 0, 0, 1, 1, 1]
      ([FindAdd repo_request, FindAdd repo_request], empty_store) =
      Some ([Answered (Ret ()), Answered (Fail ErrRepositoryAlreadyExist)], ?s)"
    by (simp add: empty_store_def handler_view_def GetRepositoryConfig_def repo1_made unlock_handler_def flip: repo1_def)
  from reqs_schedule_steps[OF this] show ?thesis
    by (intro exI[of _ ?s]) (simp add: handler_view_def server1_def server0_def repo1_def)
qed

theorem concurrent_requests_invariant_witness:
  "\<exists>s. (reqs_step sample rest0 ''prod'' five_equal)\<^sup>*\<^sup>* ([FindAdd repo_request, FindAdd repo_request], empty_store)
       ([Answered (Ret ()), Answered (Fail ErrRepositoryAlreadyExist)], s) \<and>
     handler_view ''prod'' s = sv_Handler server1 \<and> handler_wf (handler_view ''prod'' s) \<and> \<not> st_mutex s"
proof -
  obtain s where s: "(reqs_step sample rest0 ''prod'' five_equal)\<^sup>*\<^sup>* ([FindAdd repo_request, FindAdd repo_request], empty_store)
       ([Answered (Ret ()), Answered (Fail ErrRepositoryAlreadyExist)], s)" "handler_view ''prod'' s = sv_Handler server1"
    using two_adds by blast
  from concurrent_requests_invariant[OF s(1) empty_store_ok(1,3)] s show ?thesis
    by (auto split: if_splits)
qed

subsection \<open>A repository that is deleted meanwhile\<close>

text \<open>The deletion of a repository whose applications can be uninstalled, step by step.\<close>

lemma delete_repo_steps:
  assumes "\<not> st_mutex s" and "last_index (\<lambda>p. rc_Name (st_heap s ! p) = repository_GetName d) (st_repos s) = Some i"
    and "st_repos s ! i = p" and "p < length (st_heap s)" and "st_heap s ! p = r" and "\<not> rc_Mutex r"
    and "for_each (uninstall_goroutine X) (rc_Apps r) (st_world s) = (Ret (), w1)"
  defines "L \<equiv> s\<lparr>st_mutex := True\<rparr>" and "s1 \<equiv> s\<lparr>st_repos := swap_remove (st_repos s) i, st_mutex := False, st_world := w1\<rparr>"
  shows "req_step X K ns cmp_equal (AwaitDelete d) s = Some (FindDelete d, L)"
    and "req_step X K ns cmp_equal (FindDelete d) L = Some (UninstallRepo i p, put_repo p (r\<lparr>rc_Mutex := True\<rparr>) L)"
    and "req_step X K ns cmp_equal (UninstallRepo i p) (put_repo p (r\<lparr>rc_Mutex := True\<rparr>) L) =
       Some (DropRepo i p, put_repo p (r\<lparr>rc_Mutex := True\<rparr>) L\<lparr>st_world := w1\<rparr>)"
    and "req_step X K ns cmp_equal (DropRepo i p) (put_repo p (r\<lparr>rc_Mutex := True\<rparr>) L\<lparr>st_world := w1\<rparr>) =
       Some (Answered (Ret ()), s1)"
proof -
  have h: "(st_heap s)[p := r\<lparr>rc_Mutex := False\<rparr>] = st_heap s"
    using assms(5,6) heap_free[of "st_heap s" p] by simp
  show "req_step X K ns cmp_equal (DropRepo i p) (put_repo p (r\<lparr>rc_Mutex := True\<rparr>) L\<lparr>st_world := w1\<rparr>) =
       Some (Answered (Ret ()), s1)"
    using assms(4) by (simp add: L_def s1_def unlock_handler_def unlock_repo_def put_repo_def h)
qed (use assms(1-7) in \<open>simp_all add: L_def Let_def put_repo_def\<close>)

text \<open>
  C35. A request for an application keeps the pointer its look-up gave. If the repository is deleted
  before the call on it, the application is built and added to the removed object, and the caller
  is told that it was: the handler has no repository of that URL, so the application is neither listed nor ever
  delivered. The same two requests one after the other answer the second with the error it should get.
\<close>

theorem application_lost:
  assumes "data_ok s" and "\<not> st_mutex s"
    and "GetRepositoryConfig (handler_view ns s) (application_GetUrl inm) = Some i"
    and "last_index (\<lambda>r. rc_Name r = repository_GetName d) (h_Repos (handler_view ns s)) = Some i"
    and "h_Repos (handler_view ns s) ! i = r" and "\<not> rc_Mutex r"
    and "for_each (uninstall_goroutine X) (rc_Apps r) (st_world s) = (Ret (), w1)"
    and "AddOrUpdateApplication X K cmp_equal (request_app inm (repo_core.truncate r)) (r, w1) = (Ret (), (r', w2))"
  shows "(\<exists>t. (reqs_step X K ns cmp_equal)\<^sup>*\<^sup>* ([FindForApp inm, AwaitDelete d], s) ([Answered (Ret ()), Answered (Ret ())], t) \<and>
      (\<forall>u\<in>set (h_Repos (handler_view ns t)). repo_url u \<noteq> application_GetUrl inm) \<and> r' \<in> set (st_heap t)) \<and>
    (\<exists>t. (reqs_step X K ns cmp_equal)\<^sup>*\<^sup>* ([FindForApp inm, AwaitDelete d], s)
      ([Answered (Fail ErrRepositoryConfigNotFound), Answered (Ret ())], t))"
proof -
  define p where "p = st_repos s ! i"
  have i: "i < length (st_repos s)" using lookup_index[OF assms(3)] .
  have p: "p < length (st_heap s)" "repo_url r = application_GetUrl inm" "st_heap s ! p = r"
    using found_pointer[OF assms(1,3)] assms(5) i by (simp_all add: p_def)
  have l: "last_index (\<lambda>p. rc_Name (st_heap s ! p) = repository_GetName d) (st_repos s) = Some i"
    using assms(4) by (simp add: last_index_map)
  define s1 where "s1 = s\<lparr>st_repos := swap_remove (st_repos s) i, st_mutex := False, st_world := w1\<rparr>"
  have "distinct (map (\<lambda>p. repo_url (st_heap s ! p)) (st_repos s))" using assms(1) by (simp add: data_ok_def)
  from distinct_map_swap_remove(2)[OF i this]
  have "application_GetUrl inm \<notin> (\<lambda>p. repo_url (st_heap s ! p)) ` set (st_repos s1)"
    using p by (simp add: s1_def flip: p_def)
  then have gone: "repo_url (st_heap s ! q) \<noteq> application_GetUrl inm" if "q \<in> set (st_repos s1)" for q
    using that by (metis image_eqI)
  let ?t = "put_repo p r' (s1\<lparr>st_world := w2\<rparr>)"
  have "p \<notin> set (st_repos s1)" using gone p by auto
  then have view: "\<forall>u\<in>set (h_Repos (handler_view ns ?t)). repo_url u \<noteq> application_GetUrl inm"
    using gone by (simp add: map_heap_other) (simp add: s1_def)
  have heap: "r' \<in> set (st_heap ?t)" using p by (simp add: s1_def put_repo_def set_update_memI)
  have found: "req_step X K ns cmp_equal (FindForApp inm) s = Some (ApplyApp p inm, s)"
    using assms(3) by (simp add: p_def)
  note delete = delete_repo_steps[OF assms(2) l p_def[symmetric] p(1,3) assms(6,7), folded s1_def]
  have apply_late: "req_step X K ns cmp_equal (ApplyApp p inm) s1 = Some (Answered (Ret ()), ?t)"
    using assms(8) p by (simp add: s1_def reply_error_def)
  have "GetRepositoryConfig (handler_view ns s1) (application_GetUrl inm) = None"
    using gone by (simp add: GetRepositoryConfig_def first_index_None) (simp add: s1_def)
  then have refused: "req_step X K ns cmp_equal (FindForApp inm) s1 = Some (Answered (Fail ErrRepositoryConfigNotFound), s1)"
    by simp
  have "reqs_schedule X K ns cmp_equal [0, 1, 1, 1, 1, 0] ([FindForApp inm, AwaitDelete d], s) =
      Some ([Answered (Ret ()), Answered (Ret ())], ?t)"
    and "reqs_schedule X K ns cmp_equal [1, 1, 1, 1, 0] ([FindForApp inm, AwaitDelete d], s) =
      Some ([Answered (Fail ErrRepositoryConfigNotFound), Answered (Ret ())], s1)"
    by (simp_all add: found delete apply_late refused del: req_step.simps)
  from this[THEN reqs_schedule_steps] view heap show ?thesis by blast
qed

text \<open>A store with one repository, as the handler of \<open>server1\<close>.\<close>

definition store1 :: "sample_ext store" where
  "store1 = \<lparr>st_heap = [repo1], st_repos = [0], st_mutex = False, st_world = pod_world\<rparr>"

lemma store1_ok: "data_ok store1" "store_ok store1" "\<not> st_mutex store1"
  by (simp_all add: store1_def data_ok_def store_ok_def repo1_def)

theorem application_lost_witness:
  "\<exists>t. (reqs_step sample_offline rest0 ''prod'' five_equal)\<^sup>*\<^sup>* ([FindForApp app_request, AwaitDelete repo_request], store1)
       ([Answered (Ret ()), Answered (Ret ())], t) \<and>
     (\<forall>u\<in>set (h_Repos (handler_view ''prod'' t)). repo_url u \<noteq> ''https://h/r'')"
proof -
  let ?app = "request_app app_request (repo_core.truncate repo1)"
  obtain a v where n: "NewApplication sample_offline rest0 ?app pod_world = (Ret a, v)"
    using offline_builds[OF pod_home] by blast
  have a: "AddOrUpdateApplication sample_offline rest0 five_equal ?app (repo1, pod_world) =
      (Ret (), (repo1\<lparr>rc_Mutex := False, rc_Apps := [Some a]\<rparr>, v))"
    using AddOrUpdateApplication_new[OF _ n, of repo1 five_equal] by simp
  have v: "h_Repos (handler_view ''prod'' store1) = [repo1]" by (simp add: store1_def)
  have nm: "rc_Name repo1 = ''repo''" by (simp add: repo1_def)
  have "GetRepositoryConfig (handler_view ''prod'' store1) (application_GetUrl app_request) = Some 0"
    using v by (simp add: GetRepositoryConfig_def)
  from application_lost[OF store1_ok(1,3) this, of repo_request repo1 sample_offline pod_world rest0 five_equal] v a nm
  show ?thesis by (auto simp: store1_def)
qed

end
