(* ===== verification/RpcProofs.thy ===== *)
theory RpcProofs
  imports Rpc Operator
begin

section \<open>Calls over gRPC\<close>

text \<open>What a call of the generated client computes over a connection that delivers it.\<close>

subsection \<open>Nil requests\<close>

text \<open>A nil request and the empty message look alike to the getters, so the server does the same for both.\<close>

lemma getters_contents:
  "repository_GetName (Some (contents empty_repository_msg p)) = repository_GetName p"
  "repository_GetUrl (Some (contents empty_repository_msg p)) = repository_GetUrl p"
  "repository_GetPrivateKeySecret (Some (contents empty_repository_msg p)) = repository_GetPrivateKeySecret p"
  "repository_GetInsecureIgnoreHostKey (Some (contents empty_repository_msg p)) = repository_GetInsecureIgnoreHostKey p"
  "application_GetName (Some (contents empty_application_msg q)) = application_GetName q"
  "application_GetNamespace (Some (contents empty_application_msg q)) = application_GetNamespace q"
  "application_GetUrl (Some (contents empty_application_msg q)) = application_GetUrl q"
  "application_GetReference (Some (contents empty_application_msg q)) = application_GetReference q"
  "application_GetSparsePath (Some (contents empty_application_msg q)) = application_GetSparsePath q"
  "application_GetHelm (Some (contents empty_application_msg q)) = application_GetHelm q"
  by (cases p; cases q; simp add: getters contents_def empty_repository_msg_def empty_application_msg_def)+

lemma request_contents:
  "request_settings (Some (contents empty_repository_msg p)) = request_settings p"
  "request_app (Some (contents empty_application_msg q)) core = request_app q core"
  "register_repository X K (Some (contents empty_repository_msg p)) = register_repository X K p"
  by (simp_all add: request_settings_def request_app_def register_repository_def getters_contents)

lemma rpc_contents:
  "rpc_AddRepository X (Some (contents empty_repository_msg p)) = rpc_AddRepository X p"
  "rpc_DeleteRepository X (Some (contents empty_repository_msg p)) = rpc_DeleteRepository X p"
  "rpc_AddOrUpdateApplication X cmp_equal (Some (contents empty_application_msg q)) =
     rpc_AddOrUpdateApplication X cmp_equal q"
  "rpc_DeleteApplication X (Some (contents empty_application_msg q)) = rpc_DeleteApplication X q"
  "rpc_GetApplicationRevisions X (Some (contents empty_application_msg q)) = rpc_GetApplicationRevisions X q"
  "rpc_CheckoutApplicationRevision (Some (contents empty_application_msg q)) = rpc_CheckoutApplicationRevision q"
  by (simp_all add: rpc_AddRepository_def rpc_DeleteRepository_def rpc_AddOrUpdateApplication_def
      rpc_DeleteApplication_def rpc_GetApplicationRevisions_def rpc_CheckoutApplicationRevision_def
      getters_contents request_contents cong: option.case_cong)

subsection \<open>Combinators\<close>

lemma checked_simps [simp]: "checked (Inr a) = ret a" "checked (Inl e) = failc e"
  by (simp_all add: checked_def)

lemma on_error_simps [simp]: "on_error st (ret a) = ret a" "on_error st (failc e) = failc (st e)"
  by (auto simp: on_error_def fun_eq_iff comp_defs)

lemma on_error_andthen_ret: "on_error st (andthen m (\<lambda>a. ret (f a))) = andthen (on_error st m) (\<lambda>a. ret (f a))"
  by (auto simp: on_error_def andthen_def fun_eq_iff split: prod.split res.split)

lemma on_error_Ret: "on_error st m s = (Ret a, s') \<longleftrightarrow> m s = (Ret a, s')"
  by (auto simp: on_error_def split: prod.splits res.splits)

lemma on_error_state: "snd (on_error st m s) = snd (m s)"
  by (auto simp: on_error_def split: prod.splits res.splits)

lemma unary_direct: "unary dec box unbox call info None = andthen dec (\<lambda>m. call (Some m))"
  by (simp add: unary_def)

text \<open>An interceptor that passes the request on is the same as none.\<close>

lemma unary_forward:
  "(\<And>m. unbox (box m) = ret m) \<Longrightarrow>
     unary dec box unbox call info (Some (\<lambda>req info handler. handler req)) = unary dec box unbox call info None"
  by (simp add: unary_def)

subsection \<open>What the connection adds to a call\<close>

text \<open>
  A request that cannot be encoded is never sent. An error of the server comes back as its status, and so
  does the failure to encode a reply.
\<close>

definition carried :: "'b codec \<Rightarrow> any_request \<Rightarrow> ('s, 'a) comp \<Rightarrow> ('s, 'a) comp" where
  "carried W args m = (case wi_marshal_request W args of Inl e \<Rightarrow> failc e | Inr b \<Rightarrow> m)"

definition answered :: "'b codec \<Rightarrow> ('a \<Rightarrow> rpc_reply) \<Rightarrow> ('s, 'a) comp \<Rightarrow> ('s, 'a) comp" where
  "answered W reply m = andthen m (\<lambda>a. andthen (checked (wi_marshal_reply W (reply a))) (\<lambda>_. ret a))"

definition over_grpc :: "'b codec \<Rightarrow> (error \<Rightarrow> error) \<Rightarrow> 's dummycd_client \<Rightarrow> 's dummycd_client" where
  "over_grpc W st C =
     \<lparr>dc_AddRepository = (\<lambda>m. carried W (RepositoryPtr m) (on_error st (dc_AddRepository C m))),
      dc_DeleteRepository = (\<lambda>m. carried W (RepositoryPtr m) (on_error st (dc_DeleteRepository C m))),
      dc_AddOrUpdateApplication =
        (\<lambda>m. carried W (ApplicationPtr m) (on_error st (dc_AddOrUpdateApplication C m))),
      dc_DeleteApplication = (\<lambda>m. carried W (ApplicationPtr m) (on_error st (dc_DeleteApplication C m))),
      dc_GetApplications =
        (\<lambda>m. carried W (EmptyPtr m) (on_error st (answered W ApplicationsReply (dc_GetApplications C m)))),
      dc_GetApplicationRevisions =
        (\<lambda>m. carried W (ApplicationPtr m) (on_error st (answered W RevisionsReply (dc_GetApplicationRevisions C m)))),
      dc_CheckoutApplicationRevision =
        (\<lambda>m. carried W (ApplicationPtr m) (on_error st (dc_CheckoutApplicationRevision C m)))\<rparr>"

text \<open>A remote call whose method is known, for a request the codec accepts or refuses.\<close>

lemma remote_call_known:
  assumes "find_method desc method = Some h"
    and "\<And>b. wi_marshal_request W args = Inr b \<Longrightarrow> h srv (decoding W b) None = replying reply m"
  shows "remote_call W st desc srv method args =
    carried W args (on_error st (andthen m (\<lambda>a. checked (wi_marshal_reply W (reply a)))))"
  using assms
  by (cases "wi_marshal_request W args") (simp_all add: remote_call_def carried_def replying_def)

lemma carried_andthen: "andthen (carried W args m) f = carried W args (andthen m f)"
  by (simp add: carried_def split: sum.split)

text \<open>The two kinds of reply: the empty one, which the codec always encodes, and one that carries data.\<close>

lemma on_error_reply_empty:
  assumes "wi_marshal_reply W EmptyReply = Inr b" and "wi_Empty W b = Inr ()"
  shows "andthen (on_error st (andthen m (\<lambda>a. checked (wi_marshal_reply W EmptyReply)))) (\<lambda>b. checked (wi_Empty W b)) =
    on_error st (m :: ('s, unit) comp)"
proof -
  have "andthen n (\<lambda>_. ret ()) = n" for n :: "('s, unit) comp"
    by (auto simp: andthen_def ret_def fun_eq_iff split: prod.split res.split)
  with assms show ?thesis by (simp add: on_error_andthen_ret del: ret_app)
qed

lemma on_error_reply_data:
  assumes "\<And>a b. wi_marshal_reply W (reply a) = Inr b \<Longrightarrow> read b = Inr a"
  shows "andthen (on_error st (andthen m (\<lambda>a. checked (wi_marshal_reply W (reply a))))) (\<lambda>b. checked (read b)) =
    on_error st (answered W reply m)"
proof
  fix s
  obtain r s' where m: "m s = (r, s')" by (metis prod.exhaust)
  have d: "read b = Inr a" if "r = Ret a" "wi_marshal_reply W (reply a) = Inr b" for a b
    using assms that(2) .
  show "andthen (on_error st (andthen m (\<lambda>a. checked (wi_marshal_reply W (reply a))))) (\<lambda>b. checked (read b)) s =
      on_error st (answered W reply m) s"
  proof (cases r)
    case (Ret a)
    with m d show ?thesis
      by (cases "wi_marshal_reply W (reply a)") (simp_all add: on_error_def answered_def andthen_def)
  qed (use m in \<open>simp_all add: on_error_def answered_def andthen_def\<close>)
qed

subsection \<open>The method table\<close>

text \<open>The client's name of each method finds that method's handler.\<close>

lemma find_method_table:
  "find_method Dummycd_ServiceDesc Dummycd_AddRepository_FullMethodName = Some Dummycd_AddRepository_Handler"
  "find_method Dummycd_ServiceDesc Dummycd_DeleteRepository_FullMethodName = Some Dummycd_DeleteRepository_Handler"
  "find_method Dummycd_ServiceDesc Dummycd_AddOrUpdateApplication_FullMethodName =
     Some Dummycd_AddOrUpdateApplication_Handler"
  "find_method Dummycd_ServiceDesc Dummycd_DeleteApplication_FullMethodName = Some Dummycd_DeleteApplication_Handler"
  "find_method Dummycd_ServiceDesc Dummycd_GetApplications_FullMethodName = Some Dummycd_GetApplications_Handler"
  "find_method Dummycd_ServiceDesc Dummycd_GetApplicationRevisions_FullMethodName =
     Some Dummycd_GetApplicationRevisions_Handler"
  "find_method Dummycd_ServiceDesc Dummycd_CheckoutApplicationRevision_FullMethodName =
     Some Dummycd_CheckoutApplicationRevision_Handler"
  by (simp_all add: find_method_def Dummycd_ServiceDesc_def FullMethodName_defs)

text \<open>Each handler, given the decoded request and no interceptor, is the server's RPC.\<close>

lemma Server_methods_sel [simp]:
  "ds_AddRepository (Server_methods X cmp_equal) = rpc_AddRepository X"
  "ds_DeleteRepository (Server_methods X cmp_equal) = rpc_DeleteRepository X"
  "ds_AddOrUpdateApplication (Server_methods X cmp_equal) = rpc_AddOrUpdateApplication X cmp_equal"
  "ds_DeleteApplication (Server_methods X cmp_equal) = rpc_DeleteApplication X"
  "ds_GetApplications (Server_methods X cmp_equal) = (\<lambda>_. rpc_GetApplications X)"
  "ds_GetApplicationRevisions (Server_methods X cmp_equal) = rpc_GetApplicationRevisions X"
  "ds_CheckoutApplicationRevision (Server_methods X cmp_equal) = rpc_CheckoutApplicationRevision"
  by (simp_all add: Server_methods_def)

lemma faithful_requests:
  assumes "faithful_codec W"
  shows "wi_marshal_request W (RepositoryPtr p) = Inr b \<Longrightarrow>
      wi_Repository W b = Inr (contents empty_repository_msg p)"
    and "wi_marshal_request W (ApplicationPtr q) = Inr b \<Longrightarrow>
      wi_Application W b = Inr (contents empty_application_msg q)"
    and "wi_marshal_request W (EmptyPtr e) = Inr b \<Longrightarrow> wi_Empty W b = Inr ()"
  using assms unfolding faithful_codec_def by blast+

lemma handler_is_rpc:
  fixes X :: "'e externals"
  assumes "faithful_codec W"
  shows "wi_marshal_request W (RepositoryPtr p) = Inr b \<Longrightarrow>
      Dummycd_AddRepository_Handler (Server_methods X cmp_equal) (decoding W b) None =
        replying (\<lambda>_. EmptyReply) (rpc_AddRepository X p)"
    and "wi_marshal_request W (RepositoryPtr p) = Inr b \<Longrightarrow>
      Dummycd_DeleteRepository_Handler (Server_methods X cmp_equal) (decoding W b) None =
        replying (\<lambda>_. EmptyReply) (rpc_DeleteRepository X p)"
    and "wi_marshal_request W (ApplicationPtr q) = Inr b \<Longrightarrow>
      Dummycd_AddOrUpdateApplication_Handler (Server_methods X cmp_equal) (decoding W b) None =
        replying (\<lambda>_. EmptyReply) (rpc_AddOrUpdateApplication X cmp_equal q)"
    and "wi_marshal_request W (ApplicationPtr q) = Inr b \<Longrightarrow>
      Dummycd_DeleteApplication_Handler (Server_methods X cmp_equal) (decoding W b) None =
        replying (\<lambda>_. EmptyReply) (rpc_DeleteApplication X q)"
    and "wi_marshal_request W (EmptyPtr e) = Inr b \<Longrightarrow>
      Dummycd_GetApplications_Handler (Server_methods X cmp_equal) (decoding W b) None =
        replying ApplicationsReply (rpc_GetApplications X)"
    and "wi_marshal_request W (ApplicationPtr q) = Inr b \<Longrightarrow>
      Dummycd_GetApplicationRevisions_Handler (Server_methods X cmp_equal) (decoding W b) None =
        replying RevisionsReply (rpc_GetApplicationRevisions X q)"
    and "wi_marshal_request W (ApplicationPtr q) = Inr b \<Longrightarrow>
      Dummycd_CheckoutApplicationRevision_Handler (Server_methods X cmp_equal) (decoding W b) None =
        replying (\<lambda>_. EmptyReply) (rpc_CheckoutApplicationRevision q)"
  by (simp_all add: Handler_defs unary_direct decoding_def faithful_requests[OF assms] rpc_contents)

end
