(* ===== verification/RpcProps.thy ===== *)
theory RpcProps
  imports RpcProofs EndToEnd
begin

section \<open>Properties of the generated gRPC code\<close>

subsection \<open>A concrete connection\<close>

text \<open>The wire carries the messages themselves; the codec refuses a repository whose name has a byte above 127.\<close>

datatype wire = RequestWire any_request | ReplyWire rpc_reply

definition plain_codec :: "wire codec" where
  "plain_codec =
     \<lparr>wi_marshal_request = (\<lambda>args. case args of
        RepositoryPtr (Some m) \<Rightarrow>
          if list_all (\<lambda>c. of_char c < (128 :: nat)) (pr_Name m) then Inr (RequestWire args)
          else Inl (OtherError ''invalid UTF-8'')
      | _ \<Rightarrow> Inr (RequestWire args)),
      wi_Repository = (\<lambda>b. case b of RequestWire (RepositoryPtr p) \<Rightarrow> Inr (contents empty_repository_msg p)
        | _ \<Rightarrow> Inl (OtherError ''wire'')),
      wi_Application = (\<lambda>b. case b of RequestWire (ApplicationPtr p) \<Rightarrow> Inr (contents empty_application_msg p)
        | _ \<Rightarrow> Inl (OtherError ''wire'')),
      wi_Empty = (\<lambda>b. Inr ()),
      wi_marshal_reply = (\<lambda>r. Inr (ReplyWire r)),
      wi_Applications = (\<lambda>b. case b of ReplyWire (ApplicationsReply m) \<Rightarrow> Inr m | _ \<Rightarrow> Inl (OtherError ''wire'')),
      wi_Revisions = (\<lambda>b. case b of ReplyWire (RevisionsReply m) \<Rightarrow> Inr m | _ \<Rightarrow> Inl (OtherError ''wire''))\<rparr>"

lemma plain_codec_faithful: "faithful_codec plain_codec"
  by (auto simp: faithful_codec_def plain_codec_def contents_def split: option.splits if_splits)

definition unknown_status :: "error \<Rightarrow> error" where
  "unknown_status e = OtherError ''rpc error''"

definition connection ::
    "'b codec \<Rightarrow> (error \<Rightarrow> error) \<Rightarrow> 's service_desc \<Rightarrow> 's dummycd_server \<Rightarrow> 's client_conn" where
  "connection W st desc srv =
     (let call = remote_call W st desc srv in
      \<lparr>cc_Invoke_Empty = (\<lambda>m args. andthen (call m args) (\<lambda>b. checked (wi_Empty W b))),
       cc_Invoke_Applications = (\<lambda>m args. andthen (call m args) (\<lambda>b. checked (wi_Applications W b))),
       cc_Invoke_Revisions = (\<lambda>m args. andthen (call m args) (\<lambda>b. checked (wi_Revisions W b)))\<rparr>)"

lemma connection_delivers: "delivers W st desc srv (connection W st desc srv)"
  by (simp add: delivers_def connection_def Let_def)

subsection \<open>Client calls\<close>

lemma call_empty:
  assumes "faithful_codec W" and "delivers W st Dummycd_ServiceDesc srv cc"
    and "find_method Dummycd_ServiceDesc method = Some h"
    and "\<And>b. wi_marshal_request W args = Inr b \<Longrightarrow> h srv (decoding W b) None = replying (\<lambda>_. EmptyReply) m"
  shows "cc_Invoke_Empty cc method args = carried W args (on_error st m)"
proof -
  obtain b where b: "wi_marshal_reply W EmptyReply = Inr b" "wi_Empty W b = Inr ()"
    using assms(1) unfolding faithful_codec_def by blast
  have "cc_Invoke_Empty cc method args =
      andthen (remote_call W st Dummycd_ServiceDesc srv method args) (\<lambda>b. checked (wi_Empty W b))"
    using assms(2) by (simp add: delivers_def)
  then show ?thesis
    by (simp only: remote_call_known[OF assms(3,4)] carried_andthen on_error_reply_empty[OF b])
qed

lemma call_applications:
  assumes "faithful_codec W" and "delivers W st Dummycd_ServiceDesc srv cc"
    and "find_method Dummycd_ServiceDesc method = Some h"
    and "\<And>b. wi_marshal_request W args = Inr b \<Longrightarrow> h srv (decoding W b) None = replying ApplicationsReply m"
  shows "cc_Invoke_Applications cc method args = carried W args (on_error st (answered W ApplicationsReply m))"
proof -
  have "cc_Invoke_Applications cc method args =
      andthen (remote_call W st Dummycd_ServiceDesc srv method args) (\<lambda>b. checked (wi_Applications W b))"
    using assms(2) by (simp add: delivers_def)
  moreover have "wi_marshal_reply W (ApplicationsReply a) = Inr b \<Longrightarrow> wi_Applications W b = Inr a" for a b
    using assms(1) by (simp add: faithful_codec_def)
  ultimately show ?thesis
    by (simp only: remote_call_known[OF assms(3,4)] carried_andthen on_error_reply_data)
qed

lemma call_revisions:
  assumes "faithful_codec W" and "delivers W st Dummycd_ServiceDesc srv cc"
    and "find_method Dummycd_ServiceDesc method = Some h"
    and "\<And>b. wi_marshal_request W args = Inr b \<Longrightarrow> h srv (decoding W b) None = replying RevisionsReply m"
  shows "cc_Invoke_Revisions cc method args = carried W args (on_error st (answered W RevisionsReply m))"
proof -
  have "cc_Invoke_Revisions cc method args =
      andthen (remote_call W st Dummycd_ServiceDesc srv method args) (\<lambda>b. checked (wi_Revisions W b))"
    using assms(2) by (simp add: delivers_def)
  moreover have "wi_marshal_reply W (RevisionsReply a) = Inr b \<Longrightarrow> wi_Revisions W b = Inr a" for a b
    using assms(1) by (simp add: faithful_codec_def)
  ultimately show ?thesis
    by (simp only: remote_call_known[OF assms(3,4)] carried_andthen on_error_reply_data)
qed

lemma generated_client:
  assumes "faithful_codec W"
    and "RegisterDummycdServer (\<lambda>desc srv. delivers W st desc srv cc) (Server_methods X cmp_equal)"
  shows "NewDummycdClient cc = over_grpc W st (server_client X cmp_equal)"
proof -
  have d: "delivers W st Dummycd_ServiceDesc (Server_methods X cmp_equal) cc"
    using assms(2) by (simp add: RegisterDummycdServer_def)
  note e = call_empty[OF assms(1) d find_method_table(1) handler_is_rpc(1)[OF assms(1)]]
    call_empty[OF assms(1) d find_method_table(2) handler_is_rpc(2)[OF assms(1)]]
    call_empty[OF assms(1) d find_method_table(3) handler_is_rpc(3)[OF assms(1)]]
    call_empty[OF assms(1) d find_method_table(4) handler_is_rpc(4)[OF assms(1)]]
    call_applications[OF assms(1) d find_method_table(5) handler_is_rpc(5)[OF assms(1)]]
    call_revisions[OF assms(1) d find_method_table(6) handler_is_rpc(6)[OF assms(1)]]
    call_empty[OF assms(1) d find_method_table(7) handler_is_rpc(7)[OF assms(1)]]
  show ?thesis
    unfolding NewDummycdClient_def over_grpc_def server_client_def client_defs dummycd_client.simps
    by (simp add: e fun_eq_iff client_defs)
qed

text \<open>
  C20. Over a connection that delivers to the registered service, and with a codec that decodes what it
  encodes, each of the seven calls of the generated client is the server's RPC of the same name on the same
  request: it reaches the right handler, a nil request counts as the empty message, an answer comes back
  as it was given, and an error comes back as its status. A request the codec refuses leaves the server as it is.
\<close>

theorem client_over_grpc:
  assumes "faithful_codec W"
    and "RegisterDummycdServer (\<lambda>desc srv. delivers W st desc srv cc) (Server_methods X cmp_equal)"
  shows "NewDummycdClient cc = over_grpc W st (server_client X cmp_equal)"
  using assms by (rule generated_client)

theorem client_over_grpc_witness:
  "\<exists>cc. NewDummycdClient cc = over_grpc plain_codec unknown_status (server_client sample five_equal) \<and>
     dc_AddRepository (NewDummycdClient cc) repo_request (server0, pod_world) = (Ret (), (server1, pod_world)) \<and>
     dc_AddRepository (NewDummycdClient cc) (Some (empty_repository_msg\<lparr>pr_Name := [CHR 0xFF]\<rparr>)) (server0, pod_world) =
       (Fail (OtherError ''invalid UTF-8''), (server0, pod_world))"
proof -
  let ?cc = "connection plain_codec unknown_status Dummycd_ServiceDesc (Server_methods sample five_equal)"
  have c: "NewDummycdClient ?cc = over_grpc plain_codec unknown_status (server_client sample five_equal)"
    by (rule client_over_grpc[OF plain_codec_faithful])
      (simp add: RegisterDummycdServer_def connection_delivers)
  have a: "wi_marshal_request plain_codec (RepositoryPtr repo_request) = Inr (RequestWire (RepositoryPtr repo_request))"
    and r: "wi_marshal_request plain_codec (RepositoryPtr (Some (empty_repository_msg\<lparr>pr_Name := [CHR 0xFF]\<rparr>))) =
      Inl (OtherError ''invalid UTF-8'')"
    by (simp_all add: plain_codec_def repo_request_def)
  have "dc_AddRepository (NewDummycdClient ?cc) repo_request (server0, pod_world) = (Ret (), (server1, pod_world))"
    unfolding c using added_repository[of sample]
    by (simp add: over_grpc_def server_client_def carried_def on_error_def a)
  moreover have "dc_AddRepository (NewDummycdClient ?cc) (Some (empty_repository_msg\<lparr>pr_Name := [CHR 0xFF]\<rparr>))
      (server0, pod_world) = (Fail (OtherError ''invalid UTF-8''), (server0, pod_world))"
    unfolding c by (simp add: over_grpc_def carried_def r)
  ultimately show ?thesis using c by blast
qed

subsection \<open>The operator behind gRPC\<close>

text \<open>\<open>succeeds_as m m'\<close>: where \<open>m\<close> succeeds, \<open>m'\<close> succeeds with the same value and the same state.\<close>

definition succeeds_as :: "('s, 'a) comp \<Rightarrow> ('s, 'a) comp \<Rightarrow> bool" where
  "succeeds_as m m' \<longleftrightarrow> (\<forall>s a t. m s = (Ret a, t) \<longrightarrow> m' s = (Ret a, t))"

named_theorems succeeds_intros

lemma succeeds_refl: "succeeds_as m m"
  by (simp add: succeeds_as_def)

lemma succeeds_andthen [succeeds_intros]:
  "succeeds_as m m' \<Longrightarrow> (\<And>a. succeeds_as (f a) (f' a)) \<Longrightarrow> succeeds_as (andthen m f) (andthen m' f')"
  unfolding succeeds_as_def andthen_eq_Ret by blast

lemma succeeds_on_world [succeeds_intros]: "succeeds_as m m' \<Longrightarrow> succeeds_as (on_world m) (on_world m')"
  by (auto simp: succeeds_as_def on_world_def split: prod.splits)

lemma succeeds_if [succeeds_intros]:
  "succeeds_as m m' \<Longrightarrow> succeeds_as n n' \<Longrightarrow> succeeds_as (if b then m else n) (if b then m' else n')"
  by simp

lemma succeeds_case_sum [succeeds_intros]:
  "(\<And>e. succeeds_as (f e) (f' e)) \<Longrightarrow> (\<And>a. succeeds_as (g a) (g' a)) \<Longrightarrow>
     succeeds_as (case x of Inl e \<Rightarrow> f e | Inr a \<Rightarrow> g a) (case x of Inl e \<Rightarrow> f' e | Inr a \<Rightarrow> g' a)"
  by (cases x) simp_all

lemma succeeds_carried: "succeeds_as (carried W args (on_error st m)) m"
  by (auto simp: succeeds_as_def carried_def on_error_Ret split: sum.splits)

lemma succeeds_reconcile:
  assumes "\<And>c. succeeds_as (sync c) (sync' c)" and "\<And>c. succeeds_as (del c) (del' c)"
  shows "succeeds_as (reconcile K f del sync req) (reconcile K f del' sync' req)"
  unfolding reconcile_def Let_def by (intro succeeds_intros succeeds_refl assms)

lemma succeeds_over_grpc:
  "succeeds_as (ApplicationReconcile K (over_grpc W st C) req) (ApplicationReconcile K C req)"
  "succeeds_as (RepositoryReconcile K' (over_grpc W st C) req) (RepositoryReconcile K' C req)"
  unfolding ApplicationReconcile_def RepositoryReconcile_def over_grpc_def dummycd_client.simps
  by (intro succeeds_reconcile succeeds_carried)+

text \<open>
  C7. When the reconciliation of an application object succeeds through the generated client, its connection, the
  codec and the handlers of the server, the server's store is
  what the object asks for: for an object that is marked for deletion and still had the finalizer, the server has
  no application of its name and URL any more; for any other, exactly one, with the object's
  namespace, reference and path. The applications of all other names and URLs are as before.
\<close>

theorem reconciled_over_grpc:
  assumes "kube_reads K view" and "kube_updates K view" and "finalizer_helpers K"
    and "foreign_errors X" and "cmp_documented cmp_equal" and "handler_wf (sv_Handler s)"
    and "faithful_codec W"
    and "RegisterDummycdServer (\<lambda>desc srv. delivers W st desc srv cc) (Server_methods X cmp_equal)"
    and "view k req = Some c"
    and "ApplicationReconcile K (NewDummycdClient cc) req (k, (s, w)) = (Ret x, (k', (s', w')))"
    and "om_Deleted (cr_meta c) \<longrightarrow> app_finalizer \<in> set (om_Finalizers (cr_meta c))"
  shows "(if om_Deleted (cr_meta c) then apps_at (sv_Handler s') (as_URL (cr_Spec c), snd req) = {}
     else \<exists>a. apps_at (sv_Handler s') (as_URL (cr_Spec c), snd req) = {a} \<and>
       a_Namespace a = as_Namespace (cr_Spec c) \<and> a_Reference a = as_Reference (cr_Spec c) \<and>
       a_SparsePath a = as_SparsePath (cr_Spec c)) \<and>
    (\<forall>key. key \<noteq> (as_URL (cr_Spec c), snd req) \<longrightarrow> apps_at (sv_Handler s') key = apps_at (sv_Handler s) key)"
proof -
  have "ApplicationReconcile K (server_client X cmp_equal) req (k, (s, w)) = (Ret x, (k', (s', w')))"
    using assms(10) succeeds_over_grpc(1) unfolding generated_client[OF assms(7,8)] succeeds_as_def by blast
  from reconciled_application_in_store[OF assms(1-6,9) this assms(11)] show ?thesis .
qed

theorem reconciled_over_grpc_witness:
  "\<exists>a s' w'. ApplicationReconcile list_kube (NewDummycdClient
       (connection plain_codec unknown_status Dummycd_ServiceDesc (Server_methods sample_offline five_equal))) (''ops'', ''a'')
       ([app_cr False [app_finalizer]], (server1, pod_world)) =
       (Ret requeue_minute, ([app_cr False [app_finalizer]], (s', w'))) \<and>
     apps_at (sv_Handler s') (''https://h/r'', ''a'') = {a} \<and> a_Namespace a = ''default''"
proof -
  let ?c = "app_cr False [app_finalizer]"
  let ?cc = "connection plain_codec unknown_status Dummycd_ServiceDesc (Server_methods sample_offline five_equal)"
  have d: "RegisterDummycdServer (\<lambda>desc srv. delivers plain_codec unknown_status desc srv ?cc)
      (Server_methods sample_offline five_equal)"
    by (simp add: RegisterDummycdServer_def connection_delivers)
  obtain a v where "rpc_AddOrUpdateApplication sample_offline five_equal (Some (app_sync_msg ''a'' ?c)) (server1, pod_world) =
      (Ret (), (server_with a, v))" using request_added[of "Some (app_sync_msg ''a'' ?c)"] by auto
  then have "dc_AddOrUpdateApplication (NewDummycdClient ?cc) (Some (app_sync_msg ''a'' ?c)) (server1, pod_world) =
      (Ret (), (server_with a, v))"
    unfolding generated_client[OF plain_codec_faithful d]
    by (simp add: over_grpc_def carried_def plain_codec_def on_error_def)
  then have m: "ApplicationReconcile list_kube (NewDummycdClient ?cc) (''ops'', ''a'') ([?c], (server1, pod_world)) =
      (Ret requeue_minute, ([?c], (server_with a, v)))" by (rule list_reconcile)
  have v: "l_view [?c] (''ops'', ''a'') = Some ?c" by simp
  have "as_Namespace (cr_Spec ?c) = ''default''" by (simp add: app_cr_def)
  with reconciled_over_grpc[OF list_kube_reads list_kube_updates list_kube_finalizers sample_foreign
      five_equal_documented server1_wf plain_codec_faithful d v m] m show ?thesis by auto
qed

end
