(* ===== verification/ServerStart.thy ===== *)
theory ServerStart
  imports Ticker Rpc
begin

section \<open>The server's start\<close>

text \<open>
  All of \<^verbatim>\<open>server/main.go\<close>, around its middle part \<open>server_main\<close>: the flags, parsed; the set-up of the
  logger; the registration of the service; the start of the loop with the ticker's interval. The logger is
  logrus' standard logger, of which the model has what \<^verbatim>\<open>main\<close> sets and the lines it has written.
\<close>

subsection \<open>Log levels\<close>

datatype log_level = ErrorLevel | InfoLevel | DebugLevel | TraceLevel

text \<open>logrus orders the levels by how much they let through.\<close>

fun verbosity :: "log_level \<Rightarrow> nat" where
  "verbosity ErrorLevel = 2"
| "verbosity InfoLevel = 4"
| "verbosity DebugLevel = 5"
| "verbosity TraceLevel = 6"

lemma verbosity_inject: "verbosity a = verbosity b \<longleftrightarrow> a = b"
  by (cases a; cases b) simp_all

instantiation log_level :: linorder
begin

definition less_eq_log_level :: "log_level \<Rightarrow> log_level \<Rightarrow> bool" where
  "a \<le> b \<longleftrightarrow> verbosity a \<le> verbosity b"

definition less_log_level :: "log_level \<Rightarrow> log_level \<Rightarrow> bool" where
  "a < b \<longleftrightarrow> verbosity a < verbosity b"

instance
  by standard (auto simp: less_eq_log_level_def less_log_level_def verbosity_inject)

end

lemma level_order: "ErrorLevel < InfoLevel" "InfoLevel < DebugLevel" "DebugLevel < TraceLevel"
  by (simp_all add: less_log_level_def)

subsection \<open>The logger\<close>

text \<open>\<^verbatim>\<open>strconv.Itoa\<close> and \<^verbatim>\<open>path.Base\<close>.\<close>

fun digits :: "nat \<Rightarrow> string" where
  "digits n = (if n < 10 then [char_of (48 + n)] else digits (n div 10) @ [char_of (48 + n mod 10)])"

definition Itoa :: "int \<Rightarrow> string" where
  "Itoa i = (if i < 0 then CHR ''-'' # digits (nat (- i)) else digits (nat i))"

definition path_Base :: "string \<Rightarrow> string" where
  "path_Base p =
     (if p = [] then ''.''
      else let q = dropWhile (\<lambda>c. c = slash) (rev p) in
        if q = [] then ''/'' else rev (takeWhile (\<lambda>c. c \<noteq> slash) q))"

record frame =
  fr_Function :: string
  fr_File :: string
  fr_Line :: int

record logger =
  lg_FullTimestamp :: bool
  lg_ForceColors :: bool
  lg_CallerPrettyfier :: "(frame \<Rightarrow> string \<times> string) option"
  lg_ReportCaller :: bool
  lg_Level :: log_level
  lg_Lines :: "(log_level \<times> string) list"

text \<open>The standard logger before \<^verbatim>\<open>main\<close> touches it: its level is info.\<close>

definition standard_logger :: logger where
  "standard_logger =
     \<lparr>lg_FullTimestamp = False, lg_ForceColors = False, lg_CallerPrettyfier = None, lg_ReportCaller = False,
      lg_Level = InfoLevel, lg_Lines = []\<rparr>"

definition log_line :: "log_level \<Rightarrow> string \<Rightarrow> logger \<Rightarrow> logger" where
  "log_line lvl line lg = (if lvl \<le> lg_Level lg then lg\<lparr>lg_Lines := lg_Lines lg @ [(lvl, line)]\<rparr> else lg)"

definition CallerPrettyfier :: "frame \<Rightarrow> string \<times> string" where
  "CallerPrettyfier fr = (let name = path_Base (fr_File fr) @ '':'' @ Itoa (fr_Line fr) in (fr_Function fr, name))"

definition set_log_level :: "string \<Rightarrow> logger \<Rightarrow> logger" where
  "set_log_level logLevel lg =
     (if logLevel = ''info'' then lg\<lparr>lg_Level := InfoLevel\<rparr>
      else if logLevel = ''error'' then lg\<lparr>lg_Level := ErrorLevel\<rparr>
      else if logLevel = ''debug'' then lg\<lparr>lg_Level := DebugLevel\<rparr>
      else if logLevel = ''trace'' then lg\<lparr>lg_Level := TraceLevel\<rparr>
      else lg)"

definition configure_log :: "string \<Rightarrow> logger \<Rightarrow> logger" where
  "configure_log logLevel lg =
     set_log_level logLevel
       (lg\<lparr>lg_FullTimestamp := True, lg_ForceColors := True, lg_CallerPrettyfier := Some CallerPrettyfier,
          lg_ReportCaller := True\<rparr>)"

subsection \<open>The resources of the operator\<close>

text \<open>Two variables of \<^verbatim>\<open>instance/handler.go\<close>.\<close>

definition repositoryGVR :: gvr where
  "repositoryGVR = \<lparr>g_group = ''dummy.cd'', g_version = ''v1alpha1'', g_resource = ''repositories''\<rparr>"

definition applicationGVR :: gvr where
  "applicationGVR = \<lparr>g_group = ''dummy.cd'', g_version = ''v1alpha1'', g_resource = ''applications''\<rparr>"

subsection \<open>The interval of the ticker\<close>

text \<open>
  \<^verbatim>\<open>time.Duration(*RunLifeCycleTimeout) * time.Second\<close> is a product of 64-bit integers, and
  \<^verbatim>\<open>time.NewTicker\<close> panics on an interval that is not positive.
\<close>

definition ticker_interval :: "64 word \<Rightarrow> 64 word" where
  "ticker_interval timeout = timeout * 1000000000"

definition NewTicker :: "64 word \<Rightarrow> ('s, unit) comp" where
  "NewTicker d = (if sint d \<le> 0 then panicc (OtherPanic ''non-positive interval for NewTicker'') else ret ())"

text \<open>The goroutine of \<^verbatim>\<open>Handle\<close> up to its loop: the process runs on, or the panic ends it.\<close>

definition start_loop :: "64 word \<Rightarrow> server \<Rightarrow> 'e world \<Rightarrow> 'e process" where
  "start_loop timeout s w =
     (case fst (NewTicker (ticker_interval timeout) ()) of
        Panic q \<Rightarrow> crash q (started s w)
      | _ \<Rightarrow> started s w)"

subsection \<open>main\<close>

record server_flags =
  sf_port :: int
  sf_logLevel :: string
  sf_RunLifeCycleTimeout :: "64 word"

definition default_server_flags :: server_flags where
  "default_server_flags = \<lparr>sf_port = 50031, sf_logLevel = ''info'', sf_RunLifeCycleTimeout = 60\<rparr>"

text \<open>
  \<open>register\<close> is \<^verbatim>\<open>RegisterService\<close> of the gRPC server. The result is the server with the service registered
  and the process: from here on requests and the loop are actors of theory \<open>Ticker\<close>.
\<close>

definition server_process ::
    "'e externals \<Rightarrow> app_cmp \<Rightarrow> rest_config \<Rightarrow> (int \<Rightarrow> ('e world, unit) comp) \<Rightarrow>
     ((server \<times> 'e world) service_desc \<Rightarrow> (server \<times> 'e world) dummycd_server \<Rightarrow> 'g) \<Rightarrow> server_flags \<Rightarrow>
     (logger \<times> 'e world, 'g \<times> 'e process) comp" where
  "server_process X cmp_equal cfg0 listen register fl =
     andthen (on_obj (modify (configure_log (sf_logLevel fl)))) (\<lambda>_.
     andthen (on_world (server_main cfg0 listen (sf_port fl))) (\<lambda>appServer.
     andthen (on_obj (modify (log_line DebugLevel (''gRPC server running on :'' @ Itoa (sf_port fl))))) (\<lambda>_.
     andthen (gets snd) (\<lambda>w.
       ret (RegisterDummycdServer register (Server_methods X cmp_equal),
            start_loop (sf_RunLifeCycleTimeout fl) appServer w)))))"

end
