(* ===== verification/Scheme.thy ===== *)
theory Scheme
  imports Types
begin

section \<open>Registration of the custom resources\<close>

text \<open>
  \<^verbatim>\<open>operator/api/v1alpha1/groupversion_info.go\<close> and the \<^verbatim>\<open>init\<close> functions of the two files of types. The
  scheme builder of controller-runtime is the record \<open>scheme_api\<close>; \<open>'b\<close> is a builder, and the scheme is part
  of the world \<open>'w\<close>. A type is registered by a pointer to a zero object, of which only the type matters.
\<close>

datatype go_type = ApplicationType | ApplicationListType | RepositoryType | RepositoryListType

record schema_gv =
  gv_Group :: string
  gv_Version :: string

record ('w, 'b) scheme_api =
  sc_NewBuilder :: "schema_gv \<Rightarrow> 'b"
  sc_Register :: "go_type list \<Rightarrow> 'b \<Rightarrow> 'b"
  sc_AddToScheme :: "'b \<Rightarrow> ('w, unit) comp"
  sc_ClientGoAddToScheme :: "('w, unit) comp"

subsection \<open>The package \<^verbatim>\<open>v1alpha1\<close>\<close>

definition GroupVersion :: schema_gv where
  "GroupVersion = \<lparr>gv_Group = ''dummy.cd'', gv_Version = ''v1alpha1''\<rparr>"

text \<open>The variable \<^verbatim>\<open>SchemeBuilder\<close> as its initialiser leaves it, and the two \<^verbatim>\<open>init\<close> functions.\<close>

definition SchemeBuilder :: "('w, 'b) scheme_api \<Rightarrow> 'b" where
  "SchemeBuilder S = sc_NewBuilder S GroupVersion"

definition application_types_init :: "('w, 'b) scheme_api \<Rightarrow> 'b \<Rightarrow> 'b" where
  "application_types_init S b = sc_Register S [ApplicationType, ApplicationListType] b"

definition repository_types_init :: "('w, 'b) scheme_api \<Rightarrow> 'b \<Rightarrow> 'b" where
  "repository_types_init S b = sc_Register S [RepositoryType, RepositoryListType] b"

text \<open>
  Go initialises the package's variables first and then runs its \<^verbatim>\<open>init\<close> functions, in the order in which
  the files are given to the compiler, which is that of their names. \<^verbatim>\<open>AddToScheme\<close> is a method value of the
  pointer \<^verbatim>\<open>SchemeBuilder\<close>, so it sees what they have registered.
\<close>

definition v1alpha1_builder :: "('w, 'b) scheme_api \<Rightarrow> 'b" where
  "v1alpha1_builder S = repository_types_init S (application_types_init S (SchemeBuilder S))"

definition v1alpha1_AddToScheme :: "('w, 'b) scheme_api \<Rightarrow> ('w, unit) comp" where
  "v1alpha1_AddToScheme S = sc_AddToScheme S (v1alpha1_builder S)"

subsection \<open>Documented behaviour of schemes\<close>

text \<open>
  \<open>types b\<close> is what a builder holds, \<open>known w\<close> the types a scheme knows, each under its group and version.
  Adding a builder's types adds just these; client-go adds types of other groups.
\<close>

definition schemes_documented ::
    "('w, 'b) scheme_api \<Rightarrow> ('b \<Rightarrow> schema_gv \<times> go_type set) \<Rightarrow> ('w \<Rightarrow> (schema_gv \<times> go_type) set) \<Rightarrow> bool" where
  "schemes_documented S types known \<longleftrightarrow>
     (\<forall>gv. types (sc_NewBuilder S gv) = (gv, {})) \<and>
     (\<forall>objs b. types (sc_Register S objs b) = (fst (types b), snd (types b) \<union> set objs)) \<and>
     (\<forall>b w. \<exists>w'. sc_AddToScheme S b w = (Ret (), w') \<and> known w' = known w \<union> {fst (types b)} \<times> snd (types b)) \<and>
     (\<forall>w. \<exists>w'. sc_ClientGoAddToScheme S w = (Ret (), w') \<and> known w' = known w)"

end
