(* ===== verification/ServerStartProps.thy ===== *)
theory ServerStartProps
  imports ServerStart TickerProps Scheme
begin

section \<open>Properties of the server's start\<close>

subsection \<open>The logger\<close>

text \<open>Each of the four names selects its level, any other name leaves the level as it was.\<close>

lemma configure_log_level:
  "lg_Level (configure_log ''error'' lg) = ErrorLevel" "lg_Level (configure_log ''info'' lg) = InfoLevel"
  "lg_Level (configure_log ''debug'' lg) = DebugLevel" "lg_Level (configure_log ''trace'' lg) = TraceLevel"
  "name \<notin> {''error'', ''info'', ''debug'', ''trace''} \<Longrightarrow> lg_Level (configure_log name lg) = lg_Level lg"
  by (simp_all add: configure_log_def set_log_level_def)

text \<open>A more verbose logger writes at least the lines of a less verbose one.\<close>

lemma log_line_monotone:
  assumes "lg_Level a \<le> lg_Level b"
  shows "set (lg_Lines (log_line lvl line (a\<lparr>lg_Lines := ls\<rparr>))) \<subseteq> set (lg_Lines (log_line lvl line (b\<lparr>lg_Lines := ls\<rparr>)))"
  using assms by (auto simp: log_line_def dest: order_trans)

lemma CallerPrettyfier_line:
  assumes "plain_comp file" and "\<forall>d\<in>set dirs. plain_comp d" and "dirs \<noteq> []"
  shows "snd (CallerPrettyfier \<lparr>fr_Function = f, fr_File = abs_path (dirs @ [file]), fr_Line = n\<rparr>) = file @ '':'' @ Itoa n"
proof -
  have "abs_path (dirs @ [file]) = slash # join_with slash dirs @ slash # file"
    using assms(3) by (simp add: abs_path_def join_with_append)
  moreover have "slash \<notin> set file" "file \<noteq> []" using assms(1) by (simp_all add: plain_comp_def)
  moreover from this have "takeWhile (\<lambda>c. c \<noteq> slash) (rev file @ slash # xs) = rev file" for xs
    by (subst takeWhile_append2) auto
  moreover have "dropWhile (\<lambda>c. c = slash) (rev file @ xs) = rev file @ xs" for xs
  proof (cases "rev file")
    case (Cons c cs)
    then have "c \<in> set file" by (metis list.set_intros(1) set_rev)
    with \<open>slash \<notin> set file\<close> Cons show ?thesis by auto
  qed (use \<open>file \<noteq> []\<close> in simp)
  ultimately show ?thesis by (simp add: CallerPrettyfier_def path_Base_def)
qed

text \<open>The server names the resources under the group and version the operator registers them with.\<close>

lemma server_resources_registered:
  "(g_group repositoryGVR, g_version repositoryGVR) = (gv_Group GroupVersion, gv_Version GroupVersion)"
  "(g_group applicationGVR, g_version applicationGVR) = (gv_Group GroupVersion, gv_Version GroupVersion)"
  by (simp_all add: repositoryGVR_def applicationGVR_def GroupVersion_def)

subsection \<open>The interval\<close>

lemma ticker_interval_exact:
  assumes "\<bar>sint t\<bar> \<le> 9223372036"
  shows "sint (ticker_interval t) = sint t * 1000000000"
proof -
  have "sint (ticker_interval t) = signed_take_bit 63 (sint t * 1000000000)"
    by (simp add: ticker_interval_def sint_word_ariths(3)[where 'a = 64, simplified])
  also have "\<dots> = sint t * 1000000000"
    using assms by (intro signed_take_bit_int_eq_self) auto
  finally show ?thesis .
qed

lemma start_loop_eq:
  "start_loop t s w =
     (if 0 < sint (ticker_interval t) then started s w
      else crash (OtherPanic ''non-positive interval for NewTicker'') (started s w))"
  by (simp add: start_loop_def NewTicker_def)

text \<open>A flag too large for the product wraps round: the greatest interval that works is followed by a panic.\<close>

lemma interval_wraps: "k_crash (start_loop 9223372037 s w) \<noteq> None"
  by (simp add: start_loop_eq ticker_interval_def crash_def)

lemma server_process_Ret:
  assumes "server_process X cmp_equal cfg0 listen register fl (lg, w0) = (Ret (g, k), (lg', w))"
  obtains s where "server_main cfg0 listen (sf_port fl) w0 = (Ret s, w)"
    "g = register Dummycd_ServiceDesc (Server_methods X cmp_equal)"
    "k = start_loop (sf_RunLifeCycleTimeout fl) s w"
    "lg' = log_line DebugLevel (''gRPC server running on :'' @ Itoa (sf_port fl)) (configure_log (sf_logLevel fl) lg)"
  using assms
  by (auto simp: server_process_def andthen_eq_Ret RegisterDummycdServer_def split: prod.splits)

text \<open>
  C29. When the server's start comes through, the service is registered with the server's seven methods, the
  configuration checks certificates and no repository is known yet; and the loop runs exactly if the
  interval is positive as a 64-bit number of nanoseconds, else the process has panicked. Up to
  9223372036 seconds either way the interval is exact, so there a timeout of one second or more
  starts the loop and one of zero or less panics; the next larger timeout already wraps to a panic.
\<close>

theorem server_start_interval:
  assumes "server_process X cmp_equal cfg0 listen register fl (lg, w0) = (Ret (g, k), (lg', w))"
  shows "g = register Dummycd_ServiceDesc (Server_methods X cmp_equal) \<and>
    \<not> rcfg_Insecure (sv_KubeConfig (k_server k)) \<and> h_Repos (k_handler k) = [] \<and>
    (k_crash k = None \<longleftrightarrow> 0 < sint (ticker_interval (sf_RunLifeCycleTimeout fl))) \<and>
    (\<bar>sint (sf_RunLifeCycleTimeout fl)\<bar> \<le> 9223372036 \<longrightarrow>
       sint (ticker_interval (sf_RunLifeCycleTimeout fl)) = sint (sf_RunLifeCycleTimeout fl) * 1000000000 \<and>
       (k_crash k = None \<longleftrightarrow> 0 < sint (sf_RunLifeCycleTimeout fl))) \<and>
    (sf_RunLifeCycleTimeout fl = 9223372037 \<longrightarrow> k_crash k \<noteq> None)"
proof -
  from server_process_Ret[OF assms] obtain s where s:
    "server_main cfg0 listen (sf_port fl) w0 = (Ret s, w)"
    "g = register Dummycd_ServiceDesc (Server_methods X cmp_equal)"
    "k = start_loop (sf_RunLifeCycleTimeout fl) s w" by metis
  then show ?thesis
    using server_main_secure[OF s(1)] server_main_inv[OF s(1)] ticker_interval_exact interval_wraps
    by (auto simp: start_loop_eq crash_def started_def zero_less_mult_iff)
qed

theorem server_start_interval_witness:
  "\<exists>k. server_process sample five_equal rest0 (\<lambda>port. ret ()) Pair default_server_flags (standard_logger, pod_world) =
       (Ret ((Dummycd_ServiceDesc, Server_methods sample five_equal), k), (configure_log ''info'' standard_logger, pod_world)) \<and>
     k_crash k = None"
proof -
  have l: "log_line DebugLevel line (configure_log ''info'' standard_logger) = configure_log ''info'' standard_logger" for line
    using configure_log_level(2)[of standard_logger] level_order(2) by (simp add: log_line_def not_le)
  have m: "server_process sample five_equal rest0 (\<lambda>port. ret ()) Pair default_server_flags (standard_logger, pod_world) =
      (Ret ((Dummycd_ServiceDesc, Server_methods sample five_equal), start_loop 60 server0 pod_world),
        (configure_log ''info'' standard_logger, pod_world))"
    using server0_made by (simp add: server_process_def default_server_flags_def RegisterDummycdServer_def l)
  have "sint (60 :: 64 word) = 60" by simp
  with server_start_interval[OF m] m show ?thesis by (simp add: default_server_flags_def)
qed

text \<open>So every run of the server from its start has the invariant of theory \<open>ProcessProofs\<close>.\<close>

lemma running_from_crash: "running X cmp_equal k0 k \<Longrightarrow> k_crash k0 \<noteq> None \<Longrightarrow> k = k0"
  by (induction rule: running.induct) simp_all

lemma server_process_inv:
  assumes "server_process X cmp_equal cfg0 listen register fl (lg, w0) = (Ret (g, k0), (lg', w))"
    and "running X cmp_equal k0 k" and "k_crash k = None"
  shows "process_inv k"
proof -
  from server_process_Ret[OF assms(1)] obtain s where s:
    "server_main cfg0 listen (sf_port fl) w0 = (Ret s, w)" "k0 = start_loop (sf_RunLifeCycleTimeout fl) s w" by metis
  have "k_crash k0 = None" using running_from_crash[OF assms(2)] assms(3) by blast
  then have "k0 = started s w" using s(2) by (simp add: start_loop_eq crash_def split: if_splits)
  then show ?thesis
    using running_inv[OF assms(2) _ assms(3)] started_inv server_main_inv[OF s(1)] by blast
qed

end
