(* ===== verification/OperatorStart.thy ===== *)
theory OperatorStart
  imports Operator Scheme
begin

section \<open>The operator's start\<close>

text \<open>
  \<^verbatim>\<open>operator/main.go\<close> with the client of \<^verbatim>\<open>server/pkg/server/client.go\<close> and the two
  \<^verbatim>\<open>SetupWithManager\<close>. The state is what \<^verbatim>\<open>main\<close> has registered with the manager so far, and the world
  behind the calls; the calls of gRPC and controller-runtime are the fields of \<open>manager_api\<close>. The flags
  are arguments, parsed; \<^verbatim>\<open>os.Exit(1)\<close> is a result of its own.
\<close>

datatype controller = RepositoryController | ApplicationController

record operator_flags =
  fl_MetricsAddr :: string
  fl_EnableLeaderElection :: bool
  fl_ProbeAddr :: string
  fl_DummycdServerAddr :: string

definition default_flags :: operator_flags where
  "default_flags =
     \<lparr>fl_MetricsAddr = '':8080'', fl_EnableLeaderElection = False, fl_ProbeAddr = '':8081'',
      fl_DummycdServerAddr = ''dummycd-server:50031''\<rparr>"

record manager_options =
  mo_MetricsBindAddress :: string
  mo_Port :: int
  mo_HealthProbeBindAddress :: string
  mo_LeaderElection :: bool
  mo_LeaderElectionID :: string

record ('w, 'c) manager_api =
  mg_Dial :: "string \<Rightarrow> ('w, 'c) comp"
  mg_GetConfig :: "('w, unit) comp"
  mg_NewManager :: "manager_options \<Rightarrow> ('w, unit) comp"
  mg_Complete :: "go_type \<Rightarrow> ('w, unit) comp"
  mg_AddHealthzCheck :: "string \<Rightarrow> ('w, unit) comp"
  mg_AddReadyzCheck :: "string \<Rightarrow> ('w, unit) comp"
  mg_Start :: "('w, unit) comp"

text \<open>A reconciler holds the pointer \<^verbatim>\<open>DummyClient\<close>, which may be nil; \<open>'c\<close> is the connection.\<close>

record 'c registered =
  re_Reconcilers :: "(controller \<times> 'c option) list"
  re_Healthz :: "string list"
  re_Readyz :: "string list"
  re_Started :: bool

definition nothing_registered :: "'c registered" where
  "nothing_registered = \<lparr>re_Reconcilers = [], re_Healthz = [], re_Readyz = [], re_Started = False\<rparr>"

datatype exit = Finished | ExitCode int

subsection \<open>The client\<close>

text \<open>\<^verbatim>\<open>NewServerClient\<close>: the result is a pointer and an error.\<close>

definition NewServerClient :: "('w, 'c) manager_api \<Rightarrow> string \<Rightarrow> ('w, 'c option \<times> error option) comp" where
  "NewServerClient G serverAddress =
     andthen (attempt (mg_Dial G serverAddress)) (\<lambda>res.
       ret (case res of Inl err \<Rightarrow> (None, Some err) | Inr conn \<Rightarrow> (Some conn, None)))"

text \<open>The calls through a client pointer: through nil each of them dereferences it.\<close>

definition through :: "('c \<Rightarrow> 's dummycd_client) \<Rightarrow> 'c option \<Rightarrow> 's dummycd_client" where
  "through calls c =
     (case c of
        Some conn \<Rightarrow> calls conn
      | None \<Rightarrow> \<lparr>dc_AddRepository = (\<lambda>_. panicc NilDereference), dc_DeleteRepository = (\<lambda>_. panicc NilDereference),
                 dc_AddOrUpdateApplication = (\<lambda>_. panicc NilDereference),
                 dc_DeleteApplication = (\<lambda>_. panicc NilDereference),
                 dc_GetApplications = (\<lambda>_. panicc NilDereference),
                 dc_GetApplicationRevisions = (\<lambda>_. panicc NilDereference),
                 dc_CheckoutApplicationRevision = (\<lambda>_. panicc NilDereference)\<rparr>)"

subsection \<open>main\<close>

definition utilruntime_Must :: "('w, unit) comp \<Rightarrow> ('w, unit) comp" where
  "utilruntime_Must m =
     andthen (attempt m) (\<lambda>res. case res of Inl err \<Rightarrow> panicc (OtherPanic ''Must'') | Inr _ \<Rightarrow> ret ())"

definition operator_init :: "('w, 'b) scheme_api \<Rightarrow> ('w, unit) comp" where
  "operator_init S =
     andthen (utilruntime_Must (sc_ClientGoAddToScheme S)) (\<lambda>_. utilruntime_Must (v1alpha1_AddToScheme S))"

text \<open>
  The two \<^verbatim>\<open>SetupWithManager\<close>: a controller for objects of the given type, with the reconciler \<^verbatim>\<open>r\<close>, of which
  the client pointer is kept.
\<close>

definition setup_controller ::
    "('w, 'c) manager_api \<Rightarrow> controller \<Rightarrow> go_type \<Rightarrow> 'c option \<Rightarrow> ('c registered \<times> 'w, unit) comp" where
  "setup_controller G kind for_type dummyClient =
     andthen (on_world (mg_Complete G for_type)) (\<lambda>_.
       on_obj (modify (\<lambda>s. s\<lparr>re_Reconcilers := re_Reconcilers s @ [(kind, dummyClient)]\<rparr>)))"

definition RepositoryReconciler_SetupWithManager ::
    "('w, 'c) manager_api \<Rightarrow> 'c option \<Rightarrow> ('c registered \<times> 'w, unit) comp" where
  "RepositoryReconciler_SetupWithManager G = setup_controller G RepositoryController RepositoryType"

definition ApplicationReconciler_SetupWithManager ::
    "('w, 'c) manager_api \<Rightarrow> 'c option \<Rightarrow> ('c registered \<times> 'w, unit) comp" where
  "ApplicationReconciler_SetupWithManager G = setup_controller G ApplicationController ApplicationType"

lemmas setup_defs =
  setup_controller_def RepositoryReconciler_SetupWithManager_def ApplicationReconciler_SetupWithManager_def

text \<open>\<^verbatim>\<open>if err := m; err != nil { ...; os.Exit(1) }\<close>.\<close>

definition or_exit :: "('s, unit) comp \<Rightarrow> ('s, exit) comp \<Rightarrow> ('s, exit) comp" where
  "or_exit m k = andthen (attempt m) (\<lambda>res. case res of Inl err \<Rightarrow> ret (ExitCode 1) | Inr _ \<Rightarrow> k)"

definition operator_main ::
    "('w, 'c) manager_api \<Rightarrow> operator_flags \<Rightarrow> ('c registered \<times> 'w, exit) comp" where
  "operator_main G fl =
     andthen (on_world (NewServerClient G (fl_DummycdServerAddr fl))) (\<lambda>(dummyClient, err).
     or_exit (on_world (mg_GetConfig G))
     (or_exit (on_world (mg_NewManager G
         \<lparr>mo_MetricsBindAddress = fl_MetricsAddr fl, mo_Port = 9443,
          mo_HealthProbeBindAddress = fl_ProbeAddr fl, mo_LeaderElection = fl_EnableLeaderElection fl,
          mo_LeaderElectionID = ''9229e232.dummy.cd''\<rparr>))
     (or_exit (RepositoryReconciler_SetupWithManager G dummyClient)
     (or_exit (ApplicationReconciler_SetupWithManager G dummyClient)
     (or_exit (andthen (on_world (mg_AddHealthzCheck G ''healthz''))
         (\<lambda>_. on_obj (modify (\<lambda>s. s\<lparr>re_Healthz := re_Healthz s @ [''healthz'']\<rparr>))))
     (or_exit (andthen (on_world (mg_AddReadyzCheck G ''readyz''))
         (\<lambda>_. on_obj (modify (\<lambda>s. s\<lparr>re_Readyz := re_Readyz s @ [''readyz'']\<rparr>))))
     (or_exit (andthen (on_obj (modify (\<lambda>s. s\<lparr>re_Started := True\<rparr>))) (\<lambda>_. on_world (mg_Start G)))
       (ret Finished))))))))"

text \<open>The process: the package initialisation and then \<^verbatim>\<open>main\<close>.\<close>

definition operator_process ::
    "('w, 'b) scheme_api \<Rightarrow> ('w, 'c) manager_api \<Rightarrow> operator_flags \<Rightarrow> ('c registered \<times> 'w, exit) comp" where
  "operator_process S G fl = andthen (on_world (operator_init S)) (\<lambda>_. operator_main G fl)"

end
