(* ===== verification/OperatorStartProps.thy ===== *)
theory OperatorStartProps
  imports OperatorStart OperatorProps
begin

section \<open>Properties of the operator's start\<close>

text \<open>What is registered when the manager starts, and with which client.\<close>

subsection \<open>Chains of guarded calls\<close>

text \<open>
  \<open>leads P m Q E\<close>: from a state with \<open>P\<close>, the call \<open>m\<close> ends in \<open>Q\<close> if it succeeds and in \<open>E\<close> otherwise.
  \<open>ends P k R\<close>: from a state with \<open>P\<close>, \<open>k\<close> has a result and a state that \<open>R\<close> relates.
\<close>

definition leads :: "('o \<Rightarrow> bool) \<Rightarrow> ('o \<times> 'w, unit) comp \<Rightarrow> ('o \<Rightarrow> bool) \<Rightarrow> ('o \<Rightarrow> bool) \<Rightarrow> bool" where
  "leads P m Q E \<longleftrightarrow>
     (\<forall>s w r s' w'. P s \<longrightarrow> m (s, w) = (r, (s', w')) \<longrightarrow> (if r = Ret () then Q s' else E s'))"

definition ends :: "('o \<Rightarrow> bool) \<Rightarrow> ('o \<times> 'w, 'a) comp \<Rightarrow> ('a res \<Rightarrow> 'o \<Rightarrow> bool) \<Rightarrow> bool" where
  "ends P k R \<longleftrightarrow> (\<forall>s w r s' w'. P s \<longrightarrow> k (s, w) = (r, (s', w')) \<longrightarrow> R r s')"

lemma leads_world: "(\<And>s. P s \<Longrightarrow> E s) \<Longrightarrow> leads P (on_world m) P E"
  by (auto simp: leads_def split: prod.splits)

lemma leads_register:
  "(\<And>s. P s \<Longrightarrow> Q (h s)) \<Longrightarrow> (\<And>s. P s \<Longrightarrow> E s) \<Longrightarrow>
     leads P (andthen (on_world m) (\<lambda>_. on_obj (modify h))) Q E"
  by (auto simp: leads_def andthen_def split: prod.splits res.splits)

lemma leads_start:
  "(\<And>s. P s \<Longrightarrow> Q (h s)) \<Longrightarrow> (\<And>s. P s \<Longrightarrow> E (h s)) \<Longrightarrow>
     leads P (andthen (on_obj (modify h)) (\<lambda>_. on_world m)) Q E"
  by (auto simp: leads_def split: prod.splits)

lemma leadsD: "leads P m Q E \<Longrightarrow> P s \<Longrightarrow> m (s, w) = (r, (s', w')) \<Longrightarrow> if r = Ret () then Q s' else E s'"
  unfolding leads_def by blast

lemma endsD: "ends P k R \<Longrightarrow> P s \<Longrightarrow> k (s, w) = (r, (s', w')) \<Longrightarrow> R r s'"
  unfolding ends_def by blast

lemma ends_or_exit:
  assumes m: "leads P m Q E" and k: "ends Q k R"
    and E: "\<And>s r. E s \<Longrightarrow> r = Ret (ExitCode 1) \<or> \<not> returns r \<Longrightarrow> R r s"
  shows "ends P (or_exit m k) R"
  unfolding ends_def
proof (intro allI impI)
  fix s w r s' w' assume P: "P s" and o: "or_exit m k (s, w) = (r, (s', w'))"
  obtain r0 s0 w0 where m0: "m (s, w) = (r0, (s0, w0))" by (metis prod.exhaust)
  note l = leadsD[OF m P m0]
  show "R r s'"
  proof (cases r0)
    case (Ret x)
    then have "Q s0" "k (s0, w0) = (r, (s', w'))" using l o m0 by (simp_all add: or_exit_def)
    then show ?thesis using endsD[OF k] by blast
  next
    case (Fail e)
    then show ?thesis using l o m0 E[of s0 "Ret (ExitCode 1)"] by (simp add: or_exit_def)
  next
    case (Panic q)
    then show ?thesis using l o m0 E[of s0 r] by (auto simp: or_exit_def)
  next
    case Spin
    then show ?thesis using l o m0 E[of s0 r] by (auto simp: or_exit_def)
  qed
qed

subsection \<open>What main registers\<close>

definition dialled :: "('w, 'c) manager_api \<Rightarrow> operator_flags \<Rightarrow> 'w \<Rightarrow> 'c option" where
  "dialled G fl w = (case fst (mg_Dial G (fl_DummycdServerAddr fl) w) of Ret conn \<Rightarrow> Some conn | _ \<Rightarrow> None)"

definition all_registered :: "'c option \<Rightarrow> 'c registered" where
  "all_registered c = \<lparr>re_Reconcilers = [(RepositoryController, c), (ApplicationController, c)],
     re_Healthz = [''healthz''], re_Readyz = [''readyz''], re_Started = True\<rparr>"

definition orderly :: "'c option \<Rightarrow> exit res \<Rightarrow> 'c registered \<Rightarrow> bool" where
  "orderly c r s \<longleftrightarrow> (r = Ret Finished \<or> r = Ret (ExitCode 1) \<or> \<not> returns r) \<and>
     (re_Started s \<longrightarrow> s = all_registered c) \<and> (r = Ret Finished \<longrightarrow> re_Started s)"

lemma orderly_unstarted: "\<not> re_Started s \<Longrightarrow> r = Ret (ExitCode 1) \<or> \<not> returns r \<Longrightarrow> orderly c r s"
  by (auto simp: orderly_def)

lemma ends_world:
  "\<not> re_Started a \<Longrightarrow> ends (\<lambda>s. s = a) k (orderly c) \<Longrightarrow> ends (\<lambda>s. s = a) (or_exit (on_world m) k) (orderly c)"
  by (rule ends_or_exit[where E = "\<lambda>s. s = a"]) (auto intro: leads_world orderly_unstarted)

lemma ends_register:
  "\<not> re_Started a \<Longrightarrow> ends (\<lambda>s. s = h a) k (orderly c) \<Longrightarrow>
     ends (\<lambda>s. s = a) (or_exit (andthen (on_world m) (\<lambda>_. on_obj (modify h))) k) (orderly c)"
  by (rule ends_or_exit[where E = "\<lambda>s. s = a"]) (auto intro: leads_register orderly_unstarted)

lemma ends_start:
  "h a = all_registered c \<Longrightarrow>
     ends (\<lambda>s. s = a) (or_exit (andthen (on_obj (modify h)) (\<lambda>_. on_world m)) (ret Finished)) (orderly c)"
  by (rule ends_or_exit[where Q = "\<lambda>s. s = all_registered c" and E = "\<lambda>s. s = all_registered c"])
    (auto intro!: leads_start simp: ends_def orderly_def all_registered_def)

lemma operator_main_orderly:
  assumes "operator_main G fl (nothing_registered, w) = (r, (s', w'))"
  shows "orderly (dialled G fl w) r s'"
proof -
  let ?c = "dialled G fl w"
  have main: "ends (\<lambda>s. s = nothing_registered)
     (or_exit (on_world (mg_GetConfig G))
     (or_exit (on_world (mg_NewManager G opts))
     (or_exit (RepositoryReconciler_SetupWithManager G ?c)
     (or_exit (ApplicationReconciler_SetupWithManager G ?c)
     (or_exit (andthen (on_world (mg_AddHealthzCheck G ''healthz''))
         (\<lambda>_. on_obj (modify (\<lambda>s. s\<lparr>re_Healthz := re_Healthz s @ [''healthz'']\<rparr>))))
     (or_exit (andthen (on_world (mg_AddReadyzCheck G ''readyz''))
         (\<lambda>_. on_obj (modify (\<lambda>s. s\<lparr>re_Readyz := re_Readyz s @ [''readyz'']\<rparr>))))
     (or_exit (andthen (on_obj (modify (\<lambda>s. s\<lparr>re_Started := True\<rparr>))) (\<lambda>_. on_world (mg_Start G)))
       (ret Finished)))))))) (orderly ?c)" for opts
    unfolding setup_defs
    by (intro ends_world ends_register ends_start) (simp_all add: nothing_registered_def all_registered_def)
  obtain d v where d: "mg_Dial G (fl_DummycdServerAddr fl) w = (d, v)" by (metis prod.exhaust)
  show ?thesis
  proof (cases "returns d")
    case True
    then obtain err where "NewServerClient G (fl_DummycdServerAddr fl) w = (Ret (?c, err), v)"
      using d by (cases d) (auto simp: NewServerClient_def dialled_def)
    with assms endsD[OF main] show ?thesis by (simp add: operator_main_def)
  next
    case False
    then show ?thesis using assms d
      by (cases d) (auto simp: operator_main_def NewServerClient_def orderly_def nothing_registered_def)
  qed
qed

subsection \<open>The types the scheme knows\<close>

lemma init_registers:
  assumes "schemes_documented S types known"
  shows "\<exists>w1. operator_init S w = (Ret (), w1) \<and>
    known w1 = known w \<union> {GroupVersion} \<times> {ApplicationType, ApplicationListType, RepositoryType, RepositoryListType}"
proof -
  have c: "types (sc_NewBuilder S gv) = (gv, {})" "types (sc_Register S objs b) = (fst (types b), snd (types b) \<union> set objs)"
    for gv objs b using assms by (simp_all add: schemes_documented_def)
  then have t: "types (v1alpha1_builder S) =
      (GroupVersion, {ApplicationType, ApplicationListType, RepositoryType, RepositoryListType})"
    by (auto simp: v1alpha1_builder_def repository_types_init_def application_types_init_def SchemeBuilder_def)
  have cg: "\<exists>v. sc_ClientGoAddToScheme S w = (Ret (), v) \<and> known v = known w"
    and ad: "\<exists>v'. sc_AddToScheme S b v = (Ret (), v') \<and> known v' = known v \<union> {fst (types b)} \<times> snd (types b)" for b v
    using assms unfolding schemes_documented_def by blast+
  from cg obtain v where v: "sc_ClientGoAddToScheme S w = (Ret (), v)" "known v = known w" by blast
  from ad[of "v1alpha1_builder S" v] obtain v' where
    "sc_AddToScheme S (v1alpha1_builder S) v = (Ret (), v')"
    "known v' = known v \<union> {GroupVersion} \<times> {ApplicationType, ApplicationListType, RepositoryType, RepositoryListType}"
    unfolding t by auto
  with v show ?thesis by (simp add: operator_init_def utilruntime_Must_def v1alpha1_AddToScheme_def)
qed

text \<open>A scheme that cannot be extended ends the process before \<^verbatim>\<open>main\<close>.\<close>

lemma init_failure_panics:
  assumes "sc_ClientGoAddToScheme S w = (Fail e, v)"
  shows "operator_process S G fl (s, w) = (Panic (OtherPanic ''Must''), (s, v))"
  using assms by (simp add: operator_process_def operator_init_def utilruntime_Must_def andthen_def)

text \<open>
  C30. When \<^verbatim>\<open>main\<close> begins, the scheme knows the four types of \<^verbatim>\<open>dummy.cd/v1alpha1\<close>, all under that group and
  version, beside what it knew before. However the calls of \<^verbatim>\<open>main\<close> end, the manager is started only when both
  reconcilers, first the one of
  repositories, and the two health checks are registered, each exactly once, and both reconcilers hold the
  same client, nil if dialling failed. \<^verbatim>\<open>main\<close> either ends after the manager has been started, or exits with
  code 1, or does not return.
\<close>

theorem operator_starts_complete:
  assumes "schemes_documented S types known"
    and "operator_process S G fl (nothing_registered, w) = (r, (s', w'))"
  shows "\<exists>w1. operator_init S w = (Ret (), w1) \<and>
    known w1 = known w \<union> {GroupVersion} \<times> {ApplicationType, ApplicationListType, RepositoryType, RepositoryListType} \<and>
    (re_Started s' \<longrightarrow>
      re_Reconcilers s' = [(RepositoryController, dialled G fl w1), (ApplicationController, dialled G fl w1)] \<and>
      re_Healthz s' = [''healthz''] \<and> re_Readyz s' = [''readyz'']) \<and>
    (r = Ret Finished \<longrightarrow> re_Started s') \<and> (r = Ret Finished \<or> r = Ret (ExitCode 1) \<or> \<not> returns r)"
proof -
  from init_registers[OF assms(1)] obtain w1 where i: "operator_init S w = (Ret (), w1)"
    "known w1 = known w \<union> {GroupVersion} \<times> {ApplicationType, ApplicationListType, RepositoryType, RepositoryListType}"
    by blast
  with assms(2) have "operator_main G fl (nothing_registered, w1) = (r, (s', w'))"
    by (simp add: operator_process_def)
  from operator_main_orderly[OF this] i show ?thesis by (auto simp: orderly_def all_registered_def)
qed

text \<open>
  A world of its own for the start: the types its scheme knows, and a count of the calls of the manager. A
  controller for an unknown type is refused.
\<close>

type_synonym start_world = "(schema_gv \<times> go_type) list \<times> nat"

definition sample_scheme :: "(start_world, schema_gv \<times> go_type list) scheme_api" where
  "sample_scheme =
     \<lparr>sc_NewBuilder = (\<lambda>gv. (gv, [])), sc_Register = (\<lambda>objs (gv, ts). (gv, ts @ objs)),
      sc_AddToScheme = (\<lambda>(gv, ts). modify (\<lambda>(known, n). (known @ map (Pair gv) ts, n))),
      sc_ClientGoAddToScheme = ret ()\<rparr>"

lemma sample_scheme_documented: "schemes_documented sample_scheme (\<lambda>(gv, ts). (gv, set ts)) (\<lambda>(known, n). set known)"
  by (auto simp: schemes_documented_def sample_scheme_def)

definition count_call :: "(start_world, unit) comp" where
  "count_call = modify (\<lambda>(known, n). (known, Suc n))"

definition sample_manager :: "bool \<Rightarrow> (start_world, unit) manager_api" where
  "sample_manager dials =
     \<lparr>mg_Dial = (\<lambda>addr. if dials then ret () else failc (OtherError ''dial'')),
      mg_GetConfig = ret (), mg_NewManager = (\<lambda>_. ret ()),
      mg_Complete = (\<lambda>t. andthen (gets fst) (\<lambda>known.
        if (GroupVersion, t) \<in> set known then count_call else failc (OtherError ''no kind is registered for the type''))),
      mg_AddHealthzCheck = (\<lambda>_. count_call), mg_AddReadyzCheck = (\<lambda>_. count_call), mg_Start = ret ()\<rparr>"

definition v1alpha1_types :: "(schema_gv \<times> go_type) list" where
  "v1alpha1_types = map (Pair GroupVersion) [ApplicationType, ApplicationListType, RepositoryType, RepositoryListType]"

lemma sample_manager_runs:
  "\<exists>s'. operator_main (sample_manager dials) default_flags (nothing_registered, (v1alpha1_types, 0)) =
     (Ret Finished, (s', (v1alpha1_types, 4)))"
  by (simp add: operator_main_def sample_manager_def NewServerClient_def setup_defs or_exit_def
      nothing_registered_def count_call_def v1alpha1_types_def numeral_eq_Suc)

lemma sample_init: "operator_init sample_scheme ([], 0) = (Ret (), (v1alpha1_types, 0))"
  by (simp add: operator_init_def utilruntime_Must_def sample_scheme_def v1alpha1_AddToScheme_def v1alpha1_builder_def
      repository_types_init_def application_types_init_def SchemeBuilder_def v1alpha1_types_def)

theorem operator_starts_complete_witness:
  "\<exists>s'. operator_process sample_scheme (sample_manager True) default_flags (nothing_registered, ([], 0)) =
       (Ret Finished, (s', (v1alpha1_types, 4))) \<and>
     re_Reconcilers s' = [(RepositoryController, Some ()), (ApplicationController, Some ())]"
proof -
  obtain s' where m: "operator_process sample_scheme (sample_manager True) default_flags (nothing_registered, ([], 0)) =
      (Ret Finished, (s', (v1alpha1_types, 4)))"
    using sample_manager_runs sample_init by (auto simp: operator_process_def)
  moreover have "dialled (sample_manager True) default_flags v = Some ()" for v by (simp add: dialled_def sample_manager_def)
  ultimately show ?thesis using operator_starts_complete[OF sample_scheme_documented m] by auto
qed

subsection \<open>A lost client\<close>

lemma reconcile_panics:
  assumes K: "kube_reads K view" "kube_updates K view" "finalizer_helpers K"
    and c: "view k req = Some c" "f \<in> set (om_Finalizers (cr_meta c))"
  shows "fst (reconcile K f (\<lambda>_. panicc q) (\<lambda>_. panicc q) req (k, s)) = Panic q"
proof (cases "om_Deleted (cr_meta c)")
  case True
  from reconcile_deleted[OF K c(1) True c(2), of "\<lambda>_. panicc q" "\<lambda>_. panicc q" s] obtain k' r where
    "reconcile K f (\<lambda>_. panicc q) (\<lambda>_. panicc q) req (k, s) = after (panicc q) s k' r k" by metis
  then show ?thesis by (simp add: after_def)
next
  case False
  from reconcile_live[OF K c(1) False, of f "\<lambda>_. panicc q" "\<lambda>_. panicc q" s] c(2) obtain k' r where
    "reconcile K f (\<lambda>_. panicc q) (\<lambda>_. panicc q) req (k, s) = after (panicc q) s k' r k'" by metis
  then show ?thesis by (simp add: after_def)
qed

text \<open>
  When dialling fails, \<^verbatim>\<open>main\<close> reports it and goes on: a manager that it starts has reconcilers with a nil
  client, and the first reconciliation of any object that has its finalizer in place panics.
\<close>

lemma operator_without_client_panics:
  assumes "fst (mg_Dial G (fl_DummycdServerAddr fl) w) = Fail e"
    and "operator_main G fl (nothing_registered, w) = (r, (s', w'))" and "(kind, c) \<in> set (re_Reconcilers s')"
    and "re_Started s'"
    and "kube_reads K view" and "kube_updates K view" and "finalizer_helpers K"
    and "kube_reads L rview" and "kube_updates L rview" and "finalizer_helpers L"
    and "view k req = Some app" and "app_finalizer \<in> set (om_Finalizers (cr_meta app))"
    and "rview l req = Some repo" and "repo_finalizer \<in> set (om_Finalizers (cr_meta repo))"
  shows "fst (ApplicationReconcile K (through calls c) req (k, s)) = Panic NilDereference \<and>
    fst (RepositoryReconcile L (through calls c) req (l, s)) = Panic NilDereference"
proof -
  have "dialled G fl w = None" using assms(1) by (simp add: dialled_def)
  then have c: "c = None" using operator_main_orderly[OF assms(2)] assms(3,4) by (auto simp: orderly_def all_registered_def)
  show ?thesis
    unfolding c ApplicationReconcile_def RepositoryReconcile_def
    using reconcile_panics[OF assms(5-7,11,12), of NilDereference s] reconcile_panics[OF assms(8-10,13,14), of NilDereference s]
    by (simp add: through_def)
qed

definition repo_cr :: "bool \<Rightarrow> string list \<Rightarrow> repository_cr" where
  "repo_cr deleted fs =
     \<lparr>cr_meta = \<lparr>om_Name = ''a'', om_Namespace = ''ops'', om_Deleted = deleted, om_Finalizers = fs\<rparr>,
      cr_Spec = \<lparr>ps_URL = ''https://h/r'', ps_PrivateKeySecret = [], ps_InsecureIgnoreHostKey = False\<rparr>\<rparr>"

lemma operator_without_client_panics_witness:
  "\<exists>s' c. operator_main (sample_manager False) default_flags (nothing_registered, (v1alpha1_types, 0)) =
      (Ret Finished, (s', (v1alpha1_types, 4))) \<and>
     (ApplicationController, c) \<in> set (re_Reconcilers s') \<and>
     fst (ApplicationReconcile list_kube (through (\<lambda>_. ack_client) c) (''ops'', ''a'') ([app_cr False [app_finalizer]], 0)) = Panic NilDereference"
proof -
  obtain s' where m: "operator_main (sample_manager False) default_flags (nothing_registered, (v1alpha1_types, 0)) =
      (Ret Finished, (s', (v1alpha1_types, 4)))"
    using sample_manager_runs by blast
  from operator_main_orderly[OF m] have s': "re_Started s'"
    "re_Reconcilers s' = [(RepositoryController, None), (ApplicationController, None)]"
    by (auto simp: orderly_def all_registered_def dialled_def sample_manager_def)
  have d: "fst (mg_Dial (sample_manager False) (fl_DummycdServerAddr default_flags) (v1alpha1_types, 0)) = Fail (OtherError ''dial'')"
    by (simp add: sample_manager_def)
  have "fst (ApplicationReconcile list_kube (through (\<lambda>_. ack_client) (None :: unit option)) (''ops'', ''a'') ([app_cr False [app_finalizer]], 0)) =
      Panic NilDereference"
    by (rule operator_without_client_panics[where kind = ApplicationController and l = "[repo_cr False [repo_finalizer]]"
          and app = "app_cr False [app_finalizer]" and repo = "repo_cr False [repo_finalizer]",
          OF d m _ s'(1) list_kube_reads list_kube_updates list_kube_finalizers
          list_kube_reads list_kube_updates list_kube_finalizers, THEN conjunct1])
      (simp_all add: s'(2) cr_key_def app_cr_def repo_cr_def)
  with m s'(2) show ?thesis by auto
qed

end
