(* ===== verification/DeepCopy.thy ===== *)
theory DeepCopy
  imports Operator
begin

section \<open>Deep copies of the custom resources\<close>

text \<open>
  \<^verbatim>\<open>operator/api/v1alpha1/zz_generated.deepcopy.go\<close>, which controller-runtime's cache relies on: what it hands
  out must not share storage with what it keeps. A struct is a value; a slice is a reference into the
  store of arrays, and may be nil. \<^verbatim>\<open>metav1.ObjectMeta\<close>, \<^verbatim>\<open>metav1.ListMeta\<close> and \<^verbatim>\<open>metav1.Condition\<close>
  are library types with copy functions of their own, which are arguments here. Their structs refer to storage too (the
  labels and the finalizers of an \<^verbatim>\<open>ObjectMeta\<close>): \<open>so_lib\<close> is that part of the store, whose cells only the
  library reads and writes.
\<close>

subsection \<open>Slices and arrays\<close>

record slice =
  sl_array :: nat
  sl_off :: nat
  sl_len :: nat

definition slice_items :: "'a list list \<Rightarrow> slice \<Rightarrow> 'a list" where
  "slice_items arrays s = take (sl_len s) (drop (sl_off s) (arrays ! sl_array s))"

definition slice_wf :: "'a list list \<Rightarrow> slice option \<Rightarrow> bool" where
  "slice_wf arrays sl \<longleftrightarrow> (case sl of None \<Rightarrow> True
     | Some s \<Rightarrow> sl_array s < length arrays \<and> sl_off s + sl_len s \<le> length (arrays ! sl_array s))"

definition slice_view :: "'a list list \<Rightarrow> slice option \<Rightarrow> 'a list option" where
  "slice_view arrays sl = map_option (slice_items arrays) sl"

subsection \<open>The objects\<close>

type_synonym type_meta = "string \<times> string"

record go_helm_spec =
  gh_CheckValuesEqual :: bool
  gh_ReInstallRelease :: bool
  gh_CreateNamespace :: bool
  gh_Atomic :: bool
  gh_IncludeCRDs :: bool
  gh_ValuesFiles :: "slice option"

record go_application_spec =
  gs_URL :: string
  gs_Namespace :: string
  gs_Reference :: string
  gs_SparsePath :: string
  gs_Helm :: go_helm_spec

record go_status =
  gt_Conditions :: "slice option"

record 'm go_application =
  ga_TypeMeta :: type_meta
  ga_ObjectMeta :: 'm
  ga_Spec :: go_application_spec
  ga_Status :: go_status

record 'm go_repository =
  gr_TypeMeta :: type_meta
  gr_ObjectMeta :: 'm
  gr_Spec :: repository_spec
  gr_Status :: go_status

record 'l go_list =
  gl_TypeMeta :: type_meta
  gl_ListMeta :: 'l
  gl_Items :: "slice option"

record ('m, 'c, 'y) store =
  so_strings :: "string list list"
  so_conditions :: "'c list list"
  so_applications :: "'m go_application list list"
  so_repositories :: "'m go_repository list list"
  so_lib :: "'y list"

record ('m, 'l, 'c, 'y) copy_lib =
  lc_ObjectMeta :: "'m \<Rightarrow> 'y list \<Rightarrow> 'm \<times> 'y list"
  lc_ListMeta :: "'l \<Rightarrow> 'y list \<Rightarrow> 'l \<times> 'y list"
  lc_Condition :: "'c \<Rightarrow> 'y list \<Rightarrow> 'c \<times> 'y list"
  lc_zero_meta :: 'm
  lc_zero_condition :: 'c

definition zero_application :: "'m \<Rightarrow> 'm go_application" where
  "zero_application m =
     \<lparr>ga_TypeMeta = ([], []), ga_ObjectMeta = m,
      ga_Spec = \<lparr>gs_URL = [], gs_Namespace = [], gs_Reference = [], gs_SparsePath = [],
        gs_Helm = \<lparr>gh_CheckValuesEqual = False, gh_ReInstallRelease = False, gh_CreateNamespace = False,
          gh_Atomic = False, gh_IncludeCRDs = False, gh_ValuesFiles = None\<rparr>\<rparr>,
      ga_Status = \<lparr>gt_Conditions = None\<rparr>\<rparr>"

definition zero_repository :: "'m \<Rightarrow> 'm go_repository" where
  "zero_repository m =
     \<lparr>gr_TypeMeta = ([], []), gr_ObjectMeta = m,
      gr_Spec = \<lparr>ps_URL = [], ps_PrivateKeySecret = [], ps_InsecureIgnoreHostKey = False\<rparr>,
      gr_Status = \<lparr>gt_Conditions = None\<rparr>\<rparr>"

subsection \<open>Copying slices\<close>

text \<open>
  \<open>upd\<close> is the update of one field of the store. \<^verbatim>\<open>make([]T, n)\<close> takes a new array of zero values;
  \<^verbatim>\<open>(*out)[i] = y\<close> writes one element of it.
\<close>

definition make_slice :: "('s \<Rightarrow> 'a list list) \<Rightarrow> (('a list list \<Rightarrow> 'a list list) \<Rightarrow> 's \<Rightarrow> 's) \<Rightarrow>
    'a \<Rightarrow> nat \<Rightarrow> 's \<Rightarrow> slice \<times> 's" where
  "make_slice get upd zero n st =
     (\<lparr>sl_array = length (get st), sl_off = 0, sl_len = n\<rparr>, upd (\<lambda>ars. ars @ [replicate n zero]) st)"

definition write_elem :: "(('a list list \<Rightarrow> 'a list list) \<Rightarrow> 's \<Rightarrow> 's) \<Rightarrow> slice \<Rightarrow> nat \<Rightarrow> 'a \<Rightarrow> 's \<Rightarrow> 's" where
  "write_elem upd s i y st =
     upd (\<lambda>ars. ars[sl_array s := (ars ! sl_array s)[sl_off s + i := y]]) st"

text \<open>\<^verbatim>\<open>for i := range *in { (*in)[i].DeepCopyInto(&(*out)[i]) }\<close>.\<close>

definition copy_items :: "('s \<Rightarrow> 'a list list) \<Rightarrow> (('a list list \<Rightarrow> 'a list list) \<Rightarrow> 's \<Rightarrow> 's) \<Rightarrow>
    ('a \<Rightarrow> 's \<Rightarrow> 'a \<times> 's) \<Rightarrow> slice \<Rightarrow> slice \<Rightarrow> 's \<Rightarrow> 's" where
  "copy_items get upd into src out st =
     fold (\<lambda>i st. case into (slice_items (get st) src ! i) st of (y, st') \<Rightarrow> write_elem upd out i y st')
       [0..<sl_len src] st"

text \<open>\<^verbatim>\<open>if in.X != nil { *out = make(...); ... }\<close>.\<close>

definition copy_slice :: "('s \<Rightarrow> 'a list list) \<Rightarrow> (('a list list \<Rightarrow> 'a list list) \<Rightarrow> 's \<Rightarrow> 's) \<Rightarrow>
    'a \<Rightarrow> ('a \<Rightarrow> 's \<Rightarrow> 'a \<times> 's) \<Rightarrow> slice option \<Rightarrow> 's \<Rightarrow> slice option \<times> 's" where
  "copy_slice get upd zero into sl st =
     (case sl of
        None \<Rightarrow> (None, st)
      | Some src \<Rightarrow>
          (case make_slice get upd zero (sl_len src) st of
             (out, st1) \<Rightarrow> (Some out, copy_items get upd into src out st1)))"

text \<open>A library struct's \<^verbatim>\<open>DeepCopyInto\<close>, which works on the library's storage.\<close>

definition lib_copy :: "('x \<Rightarrow> 'y list \<Rightarrow> 'x \<times> 'y list) \<Rightarrow> 'x \<Rightarrow> ('m, 'c, 'y) store \<Rightarrow> 'x \<times> ('m, 'c, 'y) store" where
  "lib_copy cp x st = (case cp x (so_lib st) of (x', h) \<Rightarrow> (x', st\<lparr>so_lib := h\<rparr>))"

subsection \<open>The generated functions\<close>

text \<open>A \<^verbatim>\<open>DeepCopyInto\<close> gives the value it writes to \<^verbatim>\<open>out\<close>; the builtin \<^verbatim>\<open>copy\<close> of strings copies element by element.\<close>

definition ApplicationHelmSpec_DeepCopyInto ::
    "go_helm_spec \<Rightarrow> ('m, 'c, 'y) store \<Rightarrow> go_helm_spec \<times> ('m, 'c, 'y) store" where
  "ApplicationHelmSpec_DeepCopyInto inp st =
     (case copy_slice so_strings so_strings_update [] Pair (gh_ValuesFiles inp) st of
        (sl, st') \<Rightarrow> (inp\<lparr>gh_ValuesFiles := sl\<rparr>, st'))"

definition ApplicationSpec_DeepCopyInto ::
    "go_application_spec \<Rightarrow> ('m, 'c, 'y) store \<Rightarrow> go_application_spec \<times> ('m, 'c, 'y) store" where
  "ApplicationSpec_DeepCopyInto inp st =
     (case ApplicationHelmSpec_DeepCopyInto (gs_Helm inp) st of
        (h, st') \<Rightarrow> (inp\<lparr>gs_Helm := h\<rparr>, st'))"

definition ApplicationStatus_DeepCopyInto ::
    "('m, 'l, 'c, 'y) copy_lib \<Rightarrow> go_status \<Rightarrow> ('m, 'c, 'y) store \<Rightarrow> go_status \<times> ('m, 'c, 'y) store" where
  "ApplicationStatus_DeepCopyInto L inp st =
     (case copy_slice so_conditions so_conditions_update (lc_zero_condition L) (lib_copy (lc_Condition L))
             (gt_Conditions inp) st of
        (sl, st') \<Rightarrow> (inp\<lparr>gt_Conditions := sl\<rparr>, st'))"

definition RepositoryStatus_DeepCopyInto ::
    "('m, 'l, 'c, 'y) copy_lib \<Rightarrow> go_status \<Rightarrow> ('m, 'c, 'y) store \<Rightarrow> go_status \<times> ('m, 'c, 'y) store" where
  "RepositoryStatus_DeepCopyInto L inp st =
     (case copy_slice so_conditions so_conditions_update (lc_zero_condition L) (lib_copy (lc_Condition L))
             (gt_Conditions inp) st of
        (sl, st') \<Rightarrow> (inp\<lparr>gt_Conditions := sl\<rparr>, st'))"

definition Application_DeepCopyInto ::
    "('m, 'l, 'c, 'y) copy_lib \<Rightarrow> 'm go_application \<Rightarrow> ('m, 'c, 'y) store \<Rightarrow> 'm go_application \<times> ('m, 'c, 'y) store" where
  "Application_DeepCopyInto L inp st =
     (let out = inp\<lparr>ga_TypeMeta := ga_TypeMeta inp\<rparr>;
          (om, st0) = lib_copy (lc_ObjectMeta L) (ga_ObjectMeta inp) st;
          (sp, st1) = ApplicationSpec_DeepCopyInto (ga_Spec inp) st0;
          (stat, st2) = ApplicationStatus_DeepCopyInto L (ga_Status inp) st1
      in (out\<lparr>ga_ObjectMeta := om, ga_Spec := sp, ga_Status := stat\<rparr>, st2))"

definition Repository_DeepCopyInto ::
    "('m, 'l, 'c, 'y) copy_lib \<Rightarrow> 'm go_repository \<Rightarrow> ('m, 'c, 'y) store \<Rightarrow> 'm go_repository \<times> ('m, 'c, 'y) store" where
  "Repository_DeepCopyInto L inp st =
     (let out = inp\<lparr>gr_TypeMeta := gr_TypeMeta inp\<rparr>;
          (om, st0) = lib_copy (lc_ObjectMeta L) (gr_ObjectMeta inp) st;
          out = out\<lparr>gr_ObjectMeta := om, gr_Spec := gr_Spec inp\<rparr>;
          (stat, st1) = RepositoryStatus_DeepCopyInto L (gr_Status inp) st0
      in (out\<lparr>gr_Status := stat\<rparr>, st1))"

definition ApplicationList_DeepCopyInto ::
    "('m, 'l, 'c, 'y) copy_lib \<Rightarrow> 'l go_list \<Rightarrow> ('m, 'c, 'y) store \<Rightarrow> 'l go_list \<times> ('m, 'c, 'y) store" where
  "ApplicationList_DeepCopyInto L inp st =
     (let (lm, st0) = lib_copy (lc_ListMeta L) (gl_ListMeta inp) st;
          (sl, st1) = copy_slice so_applications so_applications_update (zero_application (lc_zero_meta L))
             (Application_DeepCopyInto L) (gl_Items inp) st0
      in (inp\<lparr>gl_ListMeta := lm, gl_Items := sl\<rparr>, st1))"

definition RepositoryList_DeepCopyInto ::
    "('m, 'l, 'c, 'y) copy_lib \<Rightarrow> 'l go_list \<Rightarrow> ('m, 'c, 'y) store \<Rightarrow> 'l go_list \<times> ('m, 'c, 'y) store" where
  "RepositoryList_DeepCopyInto L inp st =
     (let (lm, st0) = lib_copy (lc_ListMeta L) (gl_ListMeta inp) st;
          (sl, st1) = copy_slice so_repositories so_repositories_update (zero_repository (lc_zero_meta L))
             (Repository_DeepCopyInto L) (gl_Items inp) st0
      in (inp\<lparr>gl_ListMeta := lm, gl_Items := sl\<rparr>, st1))"

definition RepositorySpec_DeepCopyInto :: "repository_spec \<Rightarrow> ('m, 'c, 'y) store \<Rightarrow> repository_spec \<times> ('m, 'c, 'y) store" where
  "RepositorySpec_DeepCopyInto inp st = (inp, st)"

text \<open>Every \<^verbatim>\<open>DeepCopy\<close> is the same function over its \<^verbatim>\<open>DeepCopyInto\<close>: nil for nil.\<close>

definition deep_copy :: "('a \<Rightarrow> 's \<Rightarrow> 'a \<times> 's) \<Rightarrow> 'a option \<Rightarrow> 's \<Rightarrow> 'a option \<times> 's" where
  "deep_copy into inp st =
     (case inp of None \<Rightarrow> (None, st) | Some x \<Rightarrow> (case into x st of (y, st') \<Rightarrow> (Some y, st')))"

definition ApplicationHelmSpec_DeepCopy where
  "ApplicationHelmSpec_DeepCopy = deep_copy ApplicationHelmSpec_DeepCopyInto"

definition ApplicationSpec_DeepCopy where
  "ApplicationSpec_DeepCopy = deep_copy ApplicationSpec_DeepCopyInto"

definition ApplicationStatus_DeepCopy where
  "ApplicationStatus_DeepCopy L = deep_copy (ApplicationStatus_DeepCopyInto L)"

definition RepositorySpec_DeepCopy where
  "RepositorySpec_DeepCopy = deep_copy RepositorySpec_DeepCopyInto"

definition RepositoryStatus_DeepCopy where
  "RepositoryStatus_DeepCopy L = deep_copy (RepositoryStatus_DeepCopyInto L)"

definition Application_DeepCopy where
  "Application_DeepCopy L = deep_copy (Application_DeepCopyInto L)"

definition ApplicationList_DeepCopy where
  "ApplicationList_DeepCopy L = deep_copy (ApplicationList_DeepCopyInto L)"

definition Repository_DeepCopy where
  "Repository_DeepCopy L = deep_copy (Repository_DeepCopyInto L)"

definition RepositoryList_DeepCopy where
  "RepositoryList_DeepCopy L = deep_copy (RepositoryList_DeepCopyInto L)"

text \<open>The objects of the scheme as \<^verbatim>\<open>runtime.Object\<close>: typed pointers, which may be nil.\<close>

datatype ('m, 'l) go_object =
    ApplicationObject "'m go_application option"
  | ApplicationListObject "'l go_list option"
  | RepositoryObject "'m go_repository option"
  | RepositoryListObject "'l go_list option"

text \<open>The result is the nil interface where the copy is a nil pointer.\<close>

definition Application_DeepCopyObject :: "('m, 'l, 'c, 'y) copy_lib \<Rightarrow> 'm go_application option \<Rightarrow> ('m, 'c, 'y) store \<Rightarrow>
    ('m, 'l) go_object option \<times> ('m, 'c, 'y) store" where
  "Application_DeepCopyObject L inp st =
     (case Application_DeepCopy L inp st of
        (Some c, st') \<Rightarrow> (Some (ApplicationObject (Some c)), st') | (None, st') \<Rightarrow> (None, st'))"

definition ApplicationList_DeepCopyObject :: "('m, 'l, 'c, 'y) copy_lib \<Rightarrow> 'l go_list option \<Rightarrow> ('m, 'c, 'y) store \<Rightarrow>
    ('m, 'l) go_object option \<times> ('m, 'c, 'y) store" where
  "ApplicationList_DeepCopyObject L inp st =
     (case ApplicationList_DeepCopy L inp st of
        (Some c, st') \<Rightarrow> (Some (ApplicationListObject (Some c)), st') | (None, st') \<Rightarrow> (None, st'))"

definition Repository_DeepCopyObject :: "('m, 'l, 'c, 'y) copy_lib \<Rightarrow> 'm go_repository option \<Rightarrow> ('m, 'c, 'y) store \<Rightarrow>
    ('m, 'l) go_object option \<times> ('m, 'c, 'y) store" where
  "Repository_DeepCopyObject L inp st =
     (case Repository_DeepCopy L inp st of
        (Some c, st') \<Rightarrow> (Some (RepositoryObject (Some c)), st') | (None, st') \<Rightarrow> (None, st'))"

definition RepositoryList_DeepCopyObject :: "('m, 'l, 'c, 'y) copy_lib \<Rightarrow> 'l go_list option \<Rightarrow> ('m, 'c, 'y) store \<Rightarrow>
    ('m, 'l) go_object option \<times> ('m, 'c, 'y) store" where
  "RepositoryList_DeepCopyObject L inp st =
     (case RepositoryList_DeepCopy L inp st of
        (Some c, st') \<Rightarrow> (Some (RepositoryListObject (Some c)), st') | (None, st') \<Rightarrow> (None, st'))"

text \<open>The method call on the interface.\<close>

fun DeepCopyObject :: "('m, 'l, 'c, 'y) copy_lib \<Rightarrow> ('m, 'l) go_object \<Rightarrow> ('m, 'c, 'y) store \<Rightarrow>
    ('m, 'l) go_object option \<times> ('m, 'c, 'y) store" where
  "DeepCopyObject L (ApplicationObject inp) st = Application_DeepCopyObject L inp st"
| "DeepCopyObject L (ApplicationListObject inp) st = ApplicationList_DeepCopyObject L inp st"
| "DeepCopyObject L (RepositoryObject inp) st = Repository_DeepCopyObject L inp st"
| "DeepCopyObject L (RepositoryListObject inp) st = RepositoryList_DeepCopyObject L inp st"

lemmas DeepCopyObject_defs = Application_DeepCopyObject_def ApplicationList_DeepCopyObject_def
  Repository_DeepCopyObject_def RepositoryList_DeepCopyObject_def

end
