(* ===== verification/DeepCopyProps.thy ===== *)
theory DeepCopyProps
  imports DeepCopy
begin

section \<open>A deep copy is equal and shares nothing\<close>

text \<open>
  The contract of copying the elements of one array is the locale \<open>element_copy\<close>; the four arrays of the
  store are its interpretations, and the copies of the objects are built from them.
\<close>

subsection \<open>Slices in a growing store\<close>

lemma slice_items_wf: "slice_wf arrays (Some s) \<Longrightarrow> length (slice_items arrays s) = sl_len s"
  by (auto simp: slice_wf_def slice_items_def min_def)

lemma slice_items_nth:
  "slice_wf arrays (Some s) \<Longrightarrow> i < sl_len s \<Longrightarrow> slice_items arrays s ! i = arrays ! sl_array s ! (sl_off s + i)"
  by (simp add: slice_wf_def slice_items_def)

lemma prefix_nth: "take (length xs) ys = xs \<Longrightarrow> i < length xs \<Longrightarrow> ys ! i = xs ! i"
  by (metis nth_take)

lemma prefix_length: "take (length xs) ys = xs \<Longrightarrow> length xs \<le> length ys"
  by (metis length_take min.cobounded2 min.commute)

lemma prefix_trans: "take (length xs) ys = xs \<Longrightarrow> take (length ys) zs = ys \<Longrightarrow> take (length xs) zs = xs"
  by (metis min.absorb1 prefix_length take_take)

lemma slice_prefix:
  assumes "take (length xs) ys = xs" and "slice_wf xs sl"
  shows "slice_view ys sl = slice_view xs sl" "slice_wf ys sl"
  using assms prefix_nth[OF assms(1)] prefix_length[OF assms(1)]
  by (auto simp: slice_view_def slice_items_def slice_wf_def split: option.splits)

definition fresh_slice :: "nat \<Rightarrow> slice option \<Rightarrow> bool" where
  "fresh_slice n sl \<longleftrightarrow> (case sl of None \<Rightarrow> True | Some s \<Rightarrow> n \<le> sl_array s)"

lemma fresh_slice_mono: "n \<le> n' \<Longrightarrow> fresh_slice n' sl \<Longrightarrow> fresh_slice n sl"
  by (auto simp: fresh_slice_def split: option.splits)

lemma suffix_nth:
  assumes "drop n xs = drop n ys" and "n \<le> i" and "i < length ys"
  shows "xs ! i = ys ! i"
proof -
  have "length (drop n xs) = length (drop n ys)" using assms(1) by simp
  then have "i < length xs" using assms(2,3) by simp
  then have "xs ! i = drop n xs ! (i - n)" "ys ! i = drop n ys ! (i - n)" using assms(2,3) by simp_all
  with assms(1) show ?thesis by simp
qed

lemma slice_fresh:
  assumes "drop n xs = drop n ys" and "slice_wf ys sl" and "fresh_slice n sl"
  shows "slice_view xs sl = slice_view ys sl"
  using assms suffix_nth[OF assms(1)]
  by (auto simp: slice_view_def slice_items_def slice_wf_def fresh_slice_def split: option.splits)

subsection \<open>The contract of an element copy\<close>

text \<open>
  \<open>V\<close> is what an element looks like in a store, \<open>W\<close> that its references are valid, \<open>F\<close> that they are to storage made
  between two stores, and \<open>R\<close> how a store may grow without its old elements noticing.
\<close>

locale element_copy =
  fixes get :: "'s \<Rightarrow> 'a list list"
    and upd :: "('a list list \<Rightarrow> 'a list list) \<Rightarrow> 's \<Rightarrow> 's"
    and zero :: 'a
    and into :: "'a \<Rightarrow> 's \<Rightarrow> 'a \<times> 's"
    and V :: "'s \<Rightarrow> 'a \<Rightarrow> 'v"
    and W :: "'s \<Rightarrow> 'a \<Rightarrow> bool"
    and F :: "'s \<Rightarrow> 's \<Rightarrow> 'a \<Rightarrow> bool"
    and R :: "'s \<Rightarrow> 's \<Rightarrow> bool"
  assumes get_upd: "get (upd g st) = g (get st)"
    and R_refl: "R st st"
    and R_trans: "R st st1 \<Longrightarrow> R st1 st2 \<Longrightarrow> R st st2"
    and R_upd: "R st (upd g st)"
    and into_ok: "W st x \<Longrightarrow> into x st = (y, st') \<Longrightarrow>
        R st st' \<and> get st' = get st \<and> V st' y = V st x \<and> W st' y \<and> F st st' y"
    and stable: "R st u \<Longrightarrow> W st x \<Longrightarrow> V u x = V st x \<and> W u x"
    and F_mono: "R st st1 \<Longrightarrow> F st1 u y \<Longrightarrow> F st u y"
    and F_stable: "R st1 u \<Longrightarrow> W st1 y \<Longrightarrow> F st st1 y \<Longrightarrow> F st u y"
begin

definition copied :: "'s \<Rightarrow> 'a list \<Rightarrow> 's \<Rightarrow> 'a list \<Rightarrow> bool" where
  "copied st xs st' ys \<longleftrightarrow> length ys = length xs \<and>
     (\<forall>i<length xs. V st' (ys ! i) = V st (xs ! i) \<and> W st' (ys ! i) \<and> F st st' (ys ! i))"

lemma copied_snoc:
  assumes c: "copied st xs st1 ys" and R: "R st st1" "R st1 st2" and x: "W st x"
    and y: "V st2 y = V st1 x" "W st2 y" "F st1 st2 y"
  shows "copied st (xs @ [x]) st2 (ys @ [y])"
proof -
  have "V st1 x = V st x" using stable[OF R(1) x] by simp
  moreover have "V st2 (ys ! i) = V st (xs ! i) \<and> W st2 (ys ! i) \<and> F st st2 (ys ! i)" if "i < length xs" for i
    using c that stable[OF R(2), of "ys ! i"] F_stable[OF R(2), of "ys ! i"] by (simp add: copied_def)
  moreover have "length ys = length xs" using c by (simp add: copied_def)
  ultimately show ?thesis
    using y F_mono[OF R(1) y(3)] by (auto simp: copied_def nth_append less_Suc_eq)
qed

lemma copy_items_ok:
  assumes src: "slice_wf (get st) (Some src)" and W: "\<forall>x\<in>set (slice_items (get st) src). W st x"
    and out: "make_slice get upd zero (sl_len src) st = (out, st1)" and k: "k \<le> sl_len src"
  shows "\<exists>ys st2. fold (\<lambda>i st. case into (slice_items (get st) src ! i) st of (y, st') \<Rightarrow> write_elem upd out i y st')
      [0..<k] st1 = st2 \<and> R st st2 \<and> get st2 = get st @ [ys @ replicate (sl_len src - k) zero] \<and>
      copied st (take k (slice_items (get st) src)) st2 ys"
  using k
proof (induction k)
  case 0
  then show ?case using out R_upd by (auto simp: make_slice_def get_upd copied_def)
next
  case (Suc k)
  let ?xs = "slice_items (get st) src"
  let ?f = "\<lambda>i st. case into (slice_items (get st) src ! i) st of (y, st') \<Rightarrow> write_elem upd out i y st'"
  from Suc obtain ys st2 where st2: "fold ?f [0..<k] st1 = st2" and ih: "R st st2" "get st2 = get st @ [ys @ replicate (sl_len src - k) zero]"
    "copied st (take k ?xs) st2 ys" by auto
  have len: "length ?xs = sl_len src" using slice_items_wf[OF src] .
  have items: "slice_items (get st2) src = ?xs"
    using slice_prefix(1)[of "get st" "get st2", OF _ src] ih(2) by (simp add: slice_view_def)
  obtain y st3 where y: "into (?xs ! k) st2 = (y, st3)" by (metis prod.exhaust)
  have x: "W st (?xs ! k)" using W len Suc.prems by simp
  then have "W st2 (?xs ! k)" using stable[OF ih(1)] by blast
  note i = into_ok[OF this y]
  define st4 where "st4 = write_elem upd out k y st3"
  have r: "R st3 st4" unfolding st4_def write_elem_def by (rule R_upd)
  have o: "sl_array out = length (get st)" "sl_off out = 0" using out by (auto simp: make_slice_def)
  have l: "length ys = k" using ih(3) len Suc.prems by (simp add: copied_def)
  obtain d where d: "sl_len src - k = Suc d" "sl_len src - Suc k = d" using Suc.prems by (cases "sl_len src - k") auto
  have "get st4 = get st @ [(ys @ [y]) @ replicate (sl_len src - Suc k) zero]"
    unfolding st4_def write_elem_def get_upd using i ih(2) o l d by (simp add: list_update_append)
  moreover have "R st st4" using ih(1) i r R_trans by blast
  moreover have "copied st (take k ?xs @ [?xs ! k]) st4 (ys @ [y])"
  proof (rule copied_snoc[OF ih(3,1) _ x])
    show "R st2 st4" using i r R_trans by blast
    show "V st4 y = V st2 (?xs ! k)" "W st4 y" "F st2 st4 y" using i stable[OF r, of y] F_stable[OF r, of y] by simp_all
  qed
  moreover have "take (Suc k) ?xs = take k ?xs @ [?xs ! k]" using len Suc.prems by (simp add: take_Suc_conv_app_nth)
  moreover have "fold ?f [0..<Suc k] st1 = st4" using y items st2 by (simp add: st4_def)
  ultimately show ?case by auto
qed

lemma copy_slice_ok:
  assumes sl: "slice_wf (get st) sl" and W: "\<forall>xs. slice_view (get st) sl = Some xs \<longrightarrow> (\<forall>x\<in>set xs. W st x)"
    and c: "copy_slice get upd zero into sl st = (sl', st')"
  shows "R st st' \<and> take (length (get st)) (get st') = get st \<and> slice_wf (get st') sl' \<and>
    fresh_slice (length (get st)) sl' \<and>
    map_option (map (V st')) (slice_view (get st') sl') = map_option (map (V st)) (slice_view (get st) sl) \<and>
    (\<forall>ys. slice_view (get st') sl' = Some ys \<longrightarrow> (\<forall>y\<in>set ys. W st' y \<and> F st st' y))"
proof (cases sl)
  case None
  with c show ?thesis by (auto simp: copy_slice_def R_refl slice_wf_def fresh_slice_def slice_view_def)
next
  case (Some src)
  obtain out st1 where m: "make_slice get upd zero (sl_len src) st = (out, st1)" by (metis prod.exhaust)
  have o: "out = \<lparr>sl_array = length (get st), sl_off = 0, sl_len = sl_len src\<rparr>" using m by (simp add: make_slice_def)
  have len: "length (slice_items (get st) src) = sl_len src" using sl Some slice_items_wf by blast
  from copy_items_ok[OF sl[unfolded Some] _ m, of "sl_len src"] W Some len obtain ys where
    ys: "R st st'" "get st' = get st @ [ys]" "copied st (slice_items (get st) src) st' ys"
    using c m by (auto simp: copy_slice_def copy_items_def slice_view_def Let_def)
  have l: "length ys = sl_len src" using ys(3) len by (simp add: copied_def)
  have sl': "sl' = Some out" using c m Some by (simp add: copy_slice_def)
  have items: "slice_items (get st') out = ys" using ys(2) l by (simp add: slice_items_def o)
  have "map (V st') ys = map (V st) (slice_items (get st) src)"
    using ys(3) by (auto simp: copied_def intro: nth_equalityI)
  moreover have "\<forall>y\<in>set ys. W st' y \<and> F st st' y" using ys(3) by (auto simp: copied_def in_set_conv_nth)
  moreover have "slice_wf (get st') sl'" "fresh_slice (length (get st)) sl'" "take (length (get st)) (get st') = get st"
    using ys(2) l by (simp_all add: sl' slice_wf_def fresh_slice_def o)
  ultimately show ?thesis using ys(1) by (simp add: sl' Some slice_view_def items)
qed

end

subsection \<open>The four arrays\<close>

text \<open>
  How the library's structs look to a reader of its storage (\<open>rd\<close>), and the cells they refer to (\<open>rf\<close>). Each is a
  function of the storage, since a reference is followed there.
\<close>

record ('m, 'l, 'c, 'y, 'v) lib_reading =
  rd_ObjectMeta :: "'y list \<Rightarrow> 'm \<Rightarrow> 'v"
  rd_ListMeta :: "'y list \<Rightarrow> 'l \<Rightarrow> 'v"
  rd_Condition :: "'y list \<Rightarrow> 'c \<Rightarrow> 'v"
  rf_ObjectMeta :: "'y list \<Rightarrow> 'm \<Rightarrow> nat set"
  rf_ListMeta :: "'y list \<Rightarrow> 'l \<Rightarrow> nat set"
  rf_Condition :: "'y list \<Rightarrow> 'c \<Rightarrow> nat set"

text \<open>
  What a deep copy of the library promises: it writes to no cell there was, and the copy looks the same and refers
  to new cells only. What a struct looks like, and what it refers to, depends on the cells it refers to and no others.
\<close>

definition copies_apart :: "('x \<Rightarrow> 'y list \<Rightarrow> 'x \<times> 'y list) \<Rightarrow> ('y list \<Rightarrow> 'x \<Rightarrow> 'v) \<Rightarrow> ('y list \<Rightarrow> 'x \<Rightarrow> nat set) \<Rightarrow> bool" where
  "copies_apart cp V A \<longleftrightarrow>
     (\<forall>h x x' h'. A h x \<subseteq> {..<length h} \<longrightarrow> cp x h = (x', h') \<longrightarrow>
        take (length h) h' = h \<and> V h' x' = V h x \<and> A h' x' \<subseteq> {length h..<length h'}) \<and>
     (\<forall>h u x. (\<forall>i\<in>A h x. i < length h \<and> i < length u \<and> u ! i = h ! i) \<longrightarrow> V u x = V h x \<and> A u x = A h x)"

definition lib_copies :: "('m, 'l, 'c, 'y) copy_lib \<Rightarrow> ('m, 'l, 'c, 'y, 'v) lib_reading \<Rightarrow> bool" where
  "lib_copies L D \<longleftrightarrow> copies_apart (lc_ObjectMeta L) (rd_ObjectMeta D) (rf_ObjectMeta D) \<and>
     copies_apart (lc_ListMeta L) (rd_ListMeta D) (rf_ListMeta D) \<and>
     copies_apart (lc_Condition L) (rd_Condition D) (rf_Condition D)"

lemma apart_grows:
  assumes "copies_apart cp V A" and "take (length h) u = h" and "A h x \<subseteq> {..<length h}"
  shows "V u x = V h x \<and> A u x = A h x \<and> A u x \<subseteq> {..<length u}"
proof -
  have "\<forall>i\<in>A h x. i < length h \<and> i < length u \<and> u ! i = h ! i"
    using assms(3) prefix_nth[OF assms(2)] prefix_length[OF assms(2)] by fastforce
  then have "V u x = V h x \<and> A u x = A h x" using assms(1) unfolding copies_apart_def by blast
  with \<open>\<forall>i\<in>A h x. i < length h \<and> i < length u \<and> u ! i = h ! i\<close> show ?thesis by auto
qed

lemma apart_fresh:
  assumes "copies_apart cp V A" and "drop n u = drop n h" and "A h x \<subseteq> {n..<length h}"
  shows "V u x = V h x"
proof -
  have l: "length u - n = length h - n" using assms(2) by (metis length_drop)
  have "i < length h \<and> i < length u \<and> u ! i = h ! i" if "i \<in> A h x" for i
    using that assms(3) l suffix_nth[OF assms(2), of i] by fastforce
  then show ?thesis using assms(1) unfolding copies_apart_def by blast
qed

definition lib_grows :: "('m, 'c, 'y) store \<Rightarrow> ('m, 'c, 'y) store \<Rightarrow> bool" where
  "lib_grows st u \<longleftrightarrow> take (length (so_lib st)) (so_lib u) = so_lib st"

definition lib_wf :: "('y list \<Rightarrow> 'x \<Rightarrow> nat set) \<Rightarrow> ('m, 'c, 'y) store \<Rightarrow> 'x \<Rightarrow> bool" where
  "lib_wf A st x \<longleftrightarrow> A (so_lib st) x \<subseteq> {..<length (so_lib st)}"

definition lib_fresh :: "('y list \<Rightarrow> 'x \<Rightarrow> nat set) \<Rightarrow> ('m, 'c, 'y) store \<Rightarrow> ('m, 'c, 'y) store \<Rightarrow> 'x \<Rightarrow> bool" where
  "lib_fresh A st st' x \<longleftrightarrow> A (so_lib st') x \<subseteq> {length (so_lib st)..}"

lemma lib_grows_refl: "so_lib u = so_lib st \<Longrightarrow> lib_grows st u"
  by (simp add: lib_grows_def)

lemma lib_grows_trans: "lib_grows st u \<Longrightarrow> lib_grows u v \<Longrightarrow> lib_grows st v"
  unfolding lib_grows_def by (rule prefix_trans)

lemma lib_copied:
  assumes "copies_apart cp V A" and "lib_wf A st x" and "lib_copy cp x st = (y, st')"
  shows "st' = st\<lparr>so_lib := so_lib st'\<rparr> \<and> lib_grows st st' \<and> V (so_lib st') y = V (so_lib st) x \<and>
    lib_wf A st' y \<and> lib_fresh A st st' y"
proof -
  from assms(3) have c: "cp x (so_lib st) = (y, so_lib st')" "st' = st\<lparr>so_lib := so_lib st'\<rparr>"
    by (auto simp: lib_copy_def split: prod.splits)
  with assms(1,2) have "take (length (so_lib st)) (so_lib st') = so_lib st \<and> V (so_lib st') y = V (so_lib st) x \<and>
      A (so_lib st') y \<subseteq> {length (so_lib st)..<length (so_lib st')}"
    unfolding copies_apart_def lib_wf_def by blast
  with c(2) show ?thesis unfolding lib_wf_def lib_fresh_def lib_grows_def by auto
qed

lemma lib_stable:
  "copies_apart cp V A \<Longrightarrow> lib_grows st u \<Longrightarrow> lib_wf A st x \<Longrightarrow> V (so_lib u) x = V (so_lib st) x \<and> lib_wf A u x"
  using apart_grows[of cp V A "so_lib st" "so_lib u" x] by (auto simp: lib_wf_def lib_grows_def)

lemma lib_fresh_stable:
  "copies_apart cp V A \<Longrightarrow> lib_grows st1 u \<Longrightarrow> lib_wf A st1 x \<Longrightarrow> lib_fresh A st st1 x \<Longrightarrow> lib_fresh A st u x"
  using apart_grows[of cp V A "so_lib st1" "so_lib u" x] by (simp add: lib_wf_def lib_fresh_def lib_grows_def)

lemma lib_fresh_mono: "lib_grows st st1 \<Longrightarrow> lib_fresh A st1 u x \<Longrightarrow> lib_fresh A st u x"
  using prefix_length[of "so_lib st" "so_lib st1"] by (auto simp: lib_fresh_def lib_grows_def)

lemma lib_fresh_kept:
  "copies_apart cp V A \<Longrightarrow> drop (length (so_lib st)) (so_lib u) = drop (length (so_lib st)) (so_lib st') \<Longrightarrow>
   lib_wf A st' x \<Longrightarrow> lib_fresh A st st' x \<Longrightarrow> V (so_lib u) x = V (so_lib st') x"
  by (rule apart_fresh[of cp V A "length (so_lib st)"]) (auto simp: lib_wf_def lib_fresh_def)

definition other_strings :: "('m, 'c, 'y) store \<Rightarrow> ('m, 'c, 'y) store \<Rightarrow> bool" where
  "other_strings st u \<longleftrightarrow> so_conditions u = so_conditions st \<and> so_applications u = so_applications st \<and>
     so_repositories u = so_repositories st \<and> so_lib u = so_lib st"

definition other_conditions :: "('m, 'c, 'y) store \<Rightarrow> ('m, 'c, 'y) store \<Rightarrow> bool" where
  "other_conditions st u \<longleftrightarrow> so_strings u = so_strings st \<and> so_applications u = so_applications st \<and>
     so_repositories u = so_repositories st \<and> lib_grows st u"

text \<open>The arrays below the elements of a list have only grown.\<close>

definition below_grows :: "('m, 'c, 'y) store \<Rightarrow> ('m, 'c, 'y) store \<Rightarrow> bool" where
  "below_grows st u \<longleftrightarrow> take (length (so_strings st)) (so_strings u) = so_strings st \<and>
     take (length (so_conditions st)) (so_conditions u) = so_conditions st \<and> lib_grows st u"

interpretation string_copy: element_copy so_strings so_strings_update "[]" Pair "\<lambda>_ x. x" "\<lambda>_ _. True"
    "\<lambda>_ _ _. True" "other_strings :: ('m, 'c, 'y) store \<Rightarrow> ('m, 'c, 'y) store \<Rightarrow> bool"
  by unfold_locales (auto simp: other_strings_def)

lemma condition_copies:
  assumes L: "lib_copies L D"
  shows "element_copy so_conditions so_conditions_update (lib_copy (lc_Condition L)) (\<lambda>st. rd_Condition D (so_lib st))
     (lib_wf (rf_Condition D)) (lib_fresh (rf_Condition D)) other_conditions"
proof (unfold_locales, goal_cases)
  case (3 st st1 st2)
  then show ?case using lib_grows_trans by (auto simp: other_conditions_def)
next
  case (5 st x y st')
  with L have "st' = st\<lparr>so_lib := so_lib st'\<rparr>" and *: "lib_grows st st' \<and>
      rd_Condition D (so_lib st') y = rd_Condition D (so_lib st) x \<and>
      lib_wf (rf_Condition D) st' y \<and> lib_fresh (rf_Condition D) st st' y"
    using lib_copied[of "lc_Condition L" "rd_Condition D" "rf_Condition D" st x y st'] by (simp_all add: lib_copies_def)
  then have "so_strings st' = so_strings st" "so_conditions st' = so_conditions st" "so_applications st' = so_applications st"
    "so_repositories st' = so_repositories st" by (metis store.simps store.surjective)+
  with * show ?case by (simp add: other_conditions_def)
next
  case (6 st u x)
  with L show ?case using lib_stable[of "lc_Condition L" "rd_Condition D" "rf_Condition D" st u x]
    by (simp add: lib_copies_def other_conditions_def)
next
  case (7 st st1 u y)
  then show ?case using lib_fresh_mono by (auto simp: other_conditions_def)
next
  case (8 st1 u y st)
  with L show ?case using lib_fresh_stable[of "lc_Condition L" "rd_Condition D" "rf_Condition D" st1 u y st]
    by (simp add: lib_copies_def other_conditions_def)
qed (simp_all add: other_conditions_def lib_grows_refl)

subsection \<open>One object\<close>

type_synonym helm_value = "bool \<times> bool \<times> bool \<times> bool \<times> bool \<times> string list option"

definition helm_view :: "('m, 'c, 'y) store \<Rightarrow> go_helm_spec \<Rightarrow> helm_value" where
  "helm_view st h = (gh_CheckValuesEqual h, gh_ReInstallRelease h, gh_CreateNamespace h, gh_Atomic h,
     gh_IncludeCRDs h, slice_view (so_strings st) (gh_ValuesFiles h))"

definition conditions_view :: "('m, 'l, 'c, 'y, 'v) lib_reading \<Rightarrow> ('m, 'c, 'y) store \<Rightarrow> go_status \<Rightarrow> 'v list option" where
  "conditions_view D st t =
     map_option (map (rd_Condition D (so_lib st))) (slice_view (so_conditions st) (gt_Conditions t))"

definition conditions_wf :: "('m, 'l, 'c, 'y, 'v) lib_reading \<Rightarrow> ('m, 'c, 'y) store \<Rightarrow> go_status \<Rightarrow> bool" where
  "conditions_wf D st t \<longleftrightarrow> slice_wf (so_conditions st) (gt_Conditions t) \<and>
     (\<forall>cs. slice_view (so_conditions st) (gt_Conditions t) = Some cs \<longrightarrow> (\<forall>c\<in>set cs. lib_wf (rf_Condition D) st c))"

definition conditions_fresh ::
    "('m, 'l, 'c, 'y, 'v) lib_reading \<Rightarrow> ('m, 'c, 'y) store \<Rightarrow> ('m, 'c, 'y) store \<Rightarrow> go_status \<Rightarrow> bool" where
  "conditions_fresh D st st' t \<longleftrightarrow> fresh_slice (length (so_conditions st)) (gt_Conditions t) \<and>
     (\<forall>cs. slice_view (so_conditions st') (gt_Conditions t) = Some cs \<longrightarrow>
        (\<forall>c\<in>set cs. lib_fresh (rf_Condition D) st st' c))"

type_synonym 'v app_value =
  "type_meta \<times> 'v \<times> (string \<times> string \<times> string \<times> string) \<times> helm_value \<times> 'v list option"

type_synonym 'v repo_value = "type_meta \<times> 'v \<times> repository_spec \<times> 'v list option"

definition app_view :: "('m, 'l, 'c, 'y, 'v) lib_reading \<Rightarrow> ('m, 'c, 'y) store \<Rightarrow> 'm go_application \<Rightarrow> 'v app_value" where
  "app_view D st a = (ga_TypeMeta a, rd_ObjectMeta D (so_lib st) (ga_ObjectMeta a),
     (gs_URL (ga_Spec a), gs_Namespace (ga_Spec a), gs_Reference (ga_Spec a), gs_SparsePath (ga_Spec a)),
     helm_view st (gs_Helm (ga_Spec a)), conditions_view D st (ga_Status a))"

definition app_refs_wf :: "('m, 'l, 'c, 'y, 'v) lib_reading \<Rightarrow> ('m, 'c, 'y) store \<Rightarrow> 'm go_application \<Rightarrow> bool" where
  "app_refs_wf D st a \<longleftrightarrow> lib_wf (rf_ObjectMeta D) st (ga_ObjectMeta a) \<and>
     slice_wf (so_strings st) (gh_ValuesFiles (gs_Helm (ga_Spec a))) \<and> conditions_wf D st (ga_Status a)"

definition app_fresh :: "('m, 'l, 'c, 'y, 'v) lib_reading \<Rightarrow> ('m, 'c, 'y) store \<Rightarrow> ('m, 'c, 'y) store \<Rightarrow>
    'm go_application \<Rightarrow> bool" where
  "app_fresh D st st' a \<longleftrightarrow> lib_fresh (rf_ObjectMeta D) st st' (ga_ObjectMeta a) \<and>
     fresh_slice (length (so_strings st)) (gh_ValuesFiles (gs_Helm (ga_Spec a))) \<and>
     conditions_fresh D st st' (ga_Status a)"

definition repo_view :: "('m, 'l, 'c, 'y, 'v) lib_reading \<Rightarrow> ('m, 'c, 'y) store \<Rightarrow> 'm go_repository \<Rightarrow> 'v repo_value" where
  "repo_view D st r = (gr_TypeMeta r, rd_ObjectMeta D (so_lib st) (gr_ObjectMeta r), gr_Spec r,
     conditions_view D st (gr_Status r))"

definition repo_refs_wf :: "('m, 'l, 'c, 'y, 'v) lib_reading \<Rightarrow> ('m, 'c, 'y) store \<Rightarrow> 'm go_repository \<Rightarrow> bool" where
  "repo_refs_wf D st r \<longleftrightarrow> lib_wf (rf_ObjectMeta D) st (gr_ObjectMeta r) \<and> conditions_wf D st (gr_Status r)"

definition repo_fresh :: "('m, 'l, 'c, 'y, 'v) lib_reading \<Rightarrow> ('m, 'c, 'y) store \<Rightarrow> ('m, 'c, 'y) store \<Rightarrow>
    'm go_repository \<Rightarrow> bool" where
  "repo_fresh D st st' r \<longleftrightarrow> lib_fresh (rf_ObjectMeta D) st st' (gr_ObjectMeta r) \<and>
     conditions_fresh D st st' (gr_Status r)"

definition app_grows :: "('m, 'c, 'y) store \<Rightarrow> ('m, 'c, 'y) store \<Rightarrow> bool" where
  "app_grows st u \<longleftrightarrow> below_grows st u \<and> so_repositories u = so_repositories st"

definition repo_grows :: "('m, 'c, 'y) store \<Rightarrow> ('m, 'c, 'y) store \<Rightarrow> bool" where
  "repo_grows st u \<longleftrightarrow> below_grows st u \<and> so_applications u = so_applications st"

lemma below_grows_refl: "below_grows st st"
  by (simp add: below_grows_def lib_grows_def)

lemma below_grows_trans: "below_grows st u \<Longrightarrow> below_grows u v \<Longrightarrow> below_grows st v"
  unfolding below_grows_def
  using prefix_trans[of "so_strings st" "so_strings u" "so_strings v"]
    prefix_trans[of "so_conditions st" "so_conditions u" "so_conditions v"] lib_grows_trans[of st u v] by simp

lemma map_views:
  "(\<And>xs x. sl = Some xs \<Longrightarrow> x \<in> set xs \<Longrightarrow> f x = g x) \<Longrightarrow> map_option (map f) sl = map_option (map g) sl"
  by (cases sl) simp_all

lemma status_copied:
  assumes L: "lib_copies L D" and w: "conditions_wf D st t"
    and c: "copy_slice so_conditions so_conditions_update z (lib_copy (lc_Condition L)) (gt_Conditions t) st = (sl, st')"
  shows "other_conditions st st' \<and> take (length (so_conditions st)) (so_conditions st') = so_conditions st \<and>
    conditions_wf D st' (t\<lparr>gt_Conditions := sl\<rparr>) \<and> conditions_fresh D st st' (t\<lparr>gt_Conditions := sl\<rparr>) \<and>
    conditions_view D st' (t\<lparr>gt_Conditions := sl\<rparr>) = conditions_view D st t"
  using element_copy.copy_slice_ok[OF condition_copies[OF L] _ _ c] w
  by (simp add: conditions_wf_def conditions_fresh_def conditions_view_def)

text \<open>The conditions of a status keep their meaning while the store grows, and while what they do not refer to changes.\<close>

lemma conditions_grow:
  assumes L: "lib_copies L D" and g: "take (length (so_conditions st)) (so_conditions u) = so_conditions st" "lib_grows st u"
    and w: "conditions_wf D st t"
  shows "conditions_view D u t = conditions_view D st t \<and> conditions_wf D u t"
proof -
  have sl: "slice_view (so_conditions u) (gt_Conditions t) = slice_view (so_conditions st) (gt_Conditions t)"
    "slice_wf (so_conditions u) (gt_Conditions t)"
    using slice_prefix[OF g(1)] w by (simp_all add: conditions_wf_def)
  have each: "rd_Condition D (so_lib u) x = rd_Condition D (so_lib st) x \<and> lib_wf (rf_Condition D) u x"
    if "slice_view (so_conditions st) (gt_Conditions t) = Some cs" "x \<in> set cs" for x cs
    using lib_stable[OF _ g(2), of "lc_Condition L" "rd_Condition D" "rf_Condition D" x] L w that
    by (simp add: lib_copies_def conditions_wf_def)
  have "conditions_view D u t = conditions_view D st t"
    unfolding conditions_view_def sl(1) by (rule map_views) (simp add: each)
  with sl each show ?thesis by (simp add: conditions_wf_def)
qed

lemma conditions_kept:
  assumes L: "lib_copies L D" and g: "drop (length (so_conditions st)) (so_conditions u) = drop (length (so_conditions st)) (so_conditions st')"
      "drop (length (so_lib st)) (so_lib u) = drop (length (so_lib st)) (so_lib st')"
    and w: "conditions_wf D st' t" and f: "conditions_fresh D st st' t"
  shows "conditions_view D u t = conditions_view D st' t"
proof -
  have "slice_view (so_conditions u) (gt_Conditions t) = slice_view (so_conditions st') (gt_Conditions t)"
    using slice_fresh[OF g(1)] w f by (simp add: conditions_wf_def conditions_fresh_def)
  moreover have "map_option (map (rd_Condition D (so_lib u))) (slice_view (so_conditions st') (gt_Conditions t)) =
      map_option (map (rd_Condition D (so_lib st'))) (slice_view (so_conditions st') (gt_Conditions t))"
    by (rule map_views, rule lib_fresh_kept[OF _ g(2)])
      (use L w f in \<open>auto simp: lib_copies_def conditions_wf_def conditions_fresh_def\<close>)
  ultimately show ?thesis by (simp add: conditions_view_def)
qed

lemma conditions_fresh_mono:
  assumes "take (length (so_conditions st)) (so_conditions st1) = so_conditions st" and "lib_grows st st1"
    and "conditions_fresh D st1 u t"
  shows "conditions_fresh D st u t"
proof -
  have "lib_fresh (rf_Condition D) st u c" if "lib_fresh (rf_Condition D) st1 u c" for c
    using lib_fresh_mono[OF assms(2) that] .
  moreover have "fresh_slice (length (so_conditions st)) (gt_Conditions t)"
    by (rule fresh_slice_mono[OF prefix_length[OF assms(1)]]) (use assms(3) in \<open>simp add: conditions_fresh_def\<close>)
  ultimately show ?thesis using assms(3) by (simp add: conditions_fresh_def)
qed

lemma conditions_fresh_stable:
  assumes L: "lib_copies L D" and g: "take (length (so_conditions st1)) (so_conditions u) = so_conditions st1" "lib_grows st1 u"
    and w: "conditions_wf D st1 t" and f: "conditions_fresh D st st1 t"
  shows "conditions_fresh D st u t"
proof -
  have "slice_view (so_conditions u) (gt_Conditions t) = slice_view (so_conditions st1) (gt_Conditions t)"
    using slice_prefix[OF g(1)] w by (simp add: conditions_wf_def)
  then show ?thesis
    using lib_fresh_stable[OF _ g(2), of "lc_Condition L" "rd_Condition D" "rf_Condition D"] L w f
    by (simp add: conditions_fresh_def conditions_wf_def lib_copies_def)
qed

lemma strings_copied:
  assumes w: "slice_wf (so_strings st) sl" and c: "copy_slice so_strings so_strings_update [] Pair sl st = (sl', st')"
  shows "other_strings st st' \<and> take (length (so_strings st)) (so_strings st') = so_strings st \<and>
    slice_wf (so_strings st') sl' \<and> fresh_slice (length (so_strings st)) sl' \<and>
    slice_view (so_strings st') sl' = slice_view (so_strings st) sl"
  using string_copy.copy_slice_ok[OF w _ c] by (simp add: option.map_id[unfolded id_def])

lemma Application_copied:
  assumes L: "lib_copies L D" and w: "app_refs_wf D st a" and c: "Application_DeepCopyInto L a st = (b, st')"
  shows "app_grows st st' \<and> so_applications st' = so_applications st \<and> app_view D st' b = app_view D st a \<and>
    app_refs_wf D st' b \<and> app_fresh D st st' b"
proof -
  let ?m = "ga_ObjectMeta a" and ?t = "ga_Status a"
  obtain m' st0 where m: "lib_copy (lc_ObjectMeta L) ?m st = (m', st0)" by (metis prod.exhaust)
  obtain sl st1 where s: "copy_slice so_strings so_strings_update [] Pair (gh_ValuesFiles (gs_Helm (ga_Spec a))) st0 = (sl, st1)"
    by (metis prod.exhaust)
  obtain cl st2 where t: "copy_slice so_conditions so_conditions_update (lc_zero_condition L) (lib_copy (lc_Condition L))
      (gt_Conditions ?t) st1 = (cl, st2)" by (metis prod.exhaust)
  have b: "st' = st2" "b = a\<lparr>ga_ObjectMeta := m',
      ga_Spec := (ga_Spec a)\<lparr>gs_Helm := (gs_Helm (ga_Spec a))\<lparr>gh_ValuesFiles := sl\<rparr>\<rparr>,
      ga_Status := ?t\<lparr>gt_Conditions := cl\<rparr>\<rparr>"
    using c m s t by (simp_all add: Application_DeepCopyInto_def ApplicationSpec_DeepCopyInto_def
        ApplicationHelmSpec_DeepCopyInto_def ApplicationStatus_DeepCopyInto_def)
  have lm: "copies_apart (lc_ObjectMeta L) (rd_ObjectMeta D) (rf_ObjectMeta D)" using L by (simp add: lib_copies_def)
  have w': "lib_wf (rf_ObjectMeta D) st ?m" "slice_wf (so_strings st) (gh_ValuesFiles (gs_Helm (ga_Spec a)))"
    "conditions_wf D st ?t" using w by (simp_all add: app_refs_wf_def)
  from lib_copied[OF lm w'(1) m] have m': "lib_grows st st0" "rd_ObjectMeta D (so_lib st0) m' = rd_ObjectMeta D (so_lib st) ?m"
    "lib_wf (rf_ObjectMeta D) st0 m'" "lib_fresh (rf_ObjectMeta D) st st0 m'" and st0: "st0 = st\<lparr>so_lib := so_lib st0\<rparr>"
    by simp_all
  have eq0: "so_strings st0 = so_strings st" "so_conditions st0 = so_conditions st" "so_applications st0 = so_applications st"
    "so_repositories st0 = so_repositories st" by (metis st0 store.simps store.surjective)+
  from strings_copied[OF _ s] w'(2) eq0 have s': "other_strings st0 st1"
    "take (length (so_strings st)) (so_strings st1) = so_strings st"
    "slice_wf (so_strings st1) sl" "fresh_slice (length (so_strings st)) sl"
    "slice_view (so_strings st1) sl = slice_view (so_strings st) (gh_ValuesFiles (gs_Helm (ga_Spec a)))" by simp_all
  have eq1: "so_conditions st1 = so_conditions st" "so_lib st1 = so_lib st0" "so_applications st1 = so_applications st"
    "so_repositories st1 = so_repositories st" using s'(1) eq0 by (simp_all add: other_strings_def)
  have g1: "lib_grows st st1" using m'(1) eq1(2) by (simp add: lib_grows_def)
  from conditions_grow[OF L _ g1 w'(3)] eq1(1)
  have c1: "conditions_view D st1 ?t = conditions_view D st ?t" "conditions_wf D st1 ?t" by simp_all
  from status_copied[OF L c1(2) t] have t': "other_conditions st1 st2"
    "take (length (so_conditions st)) (so_conditions st2) = so_conditions st"
    "conditions_wf D st2 (?t\<lparr>gt_Conditions := cl\<rparr>)" "conditions_fresh D st1 st2 (?t\<lparr>gt_Conditions := cl\<rparr>)"
    "conditions_view D st2 (?t\<lparr>gt_Conditions := cl\<rparr>) = conditions_view D st1 ?t" by (simp_all add: eq1(1))
  have g2: "lib_grows st0 st2" "lib_grows st st2" "so_strings st2 = so_strings st1" "so_applications st2 = so_applications st"
    "so_repositories st2 = so_repositories st"
    using t'(1) eq1 lib_grows_trans[OF g1] by (simp_all add: other_conditions_def lib_grows_def)
  have f2: "conditions_fresh D st st2 (?t\<lparr>gt_Conditions := cl\<rparr>)"
    by (rule conditions_fresh_mono[OF _ g1 t'(4)]) (simp add: eq1(1))
  have m2: "rd_ObjectMeta D (so_lib st2) m' = rd_ObjectMeta D (so_lib st) ?m" "lib_wf (rf_ObjectMeta D) st2 m'"
    "lib_fresh (rf_ObjectMeta D) st st2 m'"
    using lib_stable[OF lm g2(1) m'(3)] m'(2) lib_fresh_stable[OF lm g2(1) m'(3,4)] by simp_all
  show ?thesis
    using s'(2-5) t'(2,3,5) g2(2-5) c1(1) f2 m2
    by (simp add: b app_grows_def below_grows_def app_view_def helm_view_def app_refs_wf_def app_fresh_def)
qed

lemma Repository_copied:
  assumes L: "lib_copies L D" and w: "repo_refs_wf D st r" and c: "Repository_DeepCopyInto L r st = (q, st')"
  shows "repo_grows st st' \<and> so_repositories st' = so_repositories st \<and> repo_view D st' q = repo_view D st r \<and>
    repo_refs_wf D st' q \<and> repo_fresh D st st' q"
proof -
  let ?m = "gr_ObjectMeta r" and ?t = "gr_Status r"
  obtain m' st0 where m: "lib_copy (lc_ObjectMeta L) ?m st = (m', st0)" by (metis prod.exhaust)
  obtain cl st2 where t: "copy_slice so_conditions so_conditions_update (lc_zero_condition L) (lib_copy (lc_Condition L))
      (gt_Conditions ?t) st0 = (cl, st2)" by (metis prod.exhaust)
  have b: "st' = st2" "q = r\<lparr>gr_ObjectMeta := m', gr_Status := ?t\<lparr>gt_Conditions := cl\<rparr>\<rparr>"
    using c m t by (simp_all add: Repository_DeepCopyInto_def RepositoryStatus_DeepCopyInto_def)
  have lm: "copies_apart (lc_ObjectMeta L) (rd_ObjectMeta D) (rf_ObjectMeta D)" using L by (simp add: lib_copies_def)
  have w': "lib_wf (rf_ObjectMeta D) st ?m" "conditions_wf D st ?t" using w by (simp_all add: repo_refs_wf_def)
  from lib_copied[OF lm w'(1) m] have m': "lib_grows st st0" "rd_ObjectMeta D (so_lib st0) m' = rd_ObjectMeta D (so_lib st) ?m"
    "lib_wf (rf_ObjectMeta D) st0 m'" "lib_fresh (rf_ObjectMeta D) st st0 m'" and st0: "st0 = st\<lparr>so_lib := so_lib st0\<rparr>"
    by simp_all
  have eq0: "so_strings st0 = so_strings st" "so_conditions st0 = so_conditions st" "so_applications st0 = so_applications st"
    "so_repositories st0 = so_repositories st" by (metis st0 store.simps store.surjective)+
  from conditions_grow[OF L _ m'(1) w'(2)] eq0(2)
  have c1: "conditions_view D st0 ?t = conditions_view D st ?t" "conditions_wf D st0 ?t" by simp_all
  from status_copied[OF L c1(2) t] have t': "other_conditions st0 st2"
    "take (length (so_conditions st)) (so_conditions st2) = so_conditions st"
    "conditions_wf D st2 (?t\<lparr>gt_Conditions := cl\<rparr>)" "conditions_fresh D st0 st2 (?t\<lparr>gt_Conditions := cl\<rparr>)"
    "conditions_view D st2 (?t\<lparr>gt_Conditions := cl\<rparr>) = conditions_view D st0 ?t" by (simp_all add: eq0(2))
  have g2: "lib_grows st0 st2" "lib_grows st st2" "so_strings st2 = so_strings st" "so_applications st2 = so_applications st"
    "so_repositories st2 = so_repositories st"
    using t'(1) eq0 lib_grows_trans[OF m'(1)] by (simp_all add: other_conditions_def)
  have f2: "conditions_fresh D st st2 (?t\<lparr>gt_Conditions := cl\<rparr>)"
    by (rule conditions_fresh_mono[OF _ m'(1) t'(4)]) (simp add: eq0(2))
  have m2: "rd_ObjectMeta D (so_lib st2) m' = rd_ObjectMeta D (so_lib st) ?m" "lib_wf (rf_ObjectMeta D) st2 m'"
    "lib_fresh (rf_ObjectMeta D) st st2 m'"
    using lib_stable[OF lm g2(1) m'(3)] m'(2) lib_fresh_stable[OF lm g2(1) m'(3,4)] by simp_all
  show ?thesis
    using t'(2,3,5) g2(2-5) c1(1) f2 m2
    by (simp add: b repo_grows_def below_grows_def repo_view_def repo_refs_wf_def repo_fresh_def)
qed

lemma below_parts:
  "below_grows st u \<Longrightarrow> take (length (so_strings st)) (so_strings u) = so_strings st"
  "below_grows st u \<Longrightarrow> take (length (so_conditions st)) (so_conditions u) = so_conditions st"
  "below_grows st u \<Longrightarrow> lib_grows st u"
  by (simp_all add: below_grows_def)

lemma lib_meta: "lib_copies L D \<Longrightarrow> copies_apart (lc_ObjectMeta L) (rd_ObjectMeta D) (rf_ObjectMeta D)"
  by (simp add: lib_copies_def)

lemma app_view_grows:
  "lib_copies L D \<Longrightarrow> below_grows st u \<Longrightarrow> app_refs_wf D st a \<Longrightarrow> app_view D u a = app_view D st a \<and> app_refs_wf D u a"
  using slice_prefix[of "so_strings st" "so_strings u" "gh_ValuesFiles (gs_Helm (ga_Spec a))"]
    conditions_grow[of L D st u "ga_Status a"] lib_stable[OF lib_meta, of L D st u "ga_ObjectMeta a"]
  by (simp add: below_grows_def app_refs_wf_def app_view_def helm_view_def)

lemma repo_view_grows:
  "lib_copies L D \<Longrightarrow> below_grows st u \<Longrightarrow> repo_refs_wf D st r \<Longrightarrow> repo_view D u r = repo_view D st r \<and> repo_refs_wf D u r"
  using conditions_grow[of L D st u "gr_Status r"] lib_stable[OF lib_meta, of L D st u "gr_ObjectMeta r"]
  by (simp add: below_grows_def repo_refs_wf_def repo_view_def)

lemma app_fresh_mono: "below_grows st st1 \<Longrightarrow> app_fresh D st1 u a \<Longrightarrow> app_fresh D st u a"
  unfolding app_fresh_def
  by (meson below_parts conditions_fresh_mono fresh_slice_mono lib_fresh_mono prefix_length)

lemma repo_fresh_mono: "below_grows st st1 \<Longrightarrow> repo_fresh D st1 u r \<Longrightarrow> repo_fresh D st u r"
  unfolding repo_fresh_def by (meson below_parts conditions_fresh_mono lib_fresh_mono)

lemma app_fresh_stable:
  "lib_copies L D \<Longrightarrow> below_grows st1 u \<Longrightarrow> app_refs_wf D st1 a \<Longrightarrow> app_fresh D st st1 a \<Longrightarrow> app_fresh D st u a"
  using conditions_fresh_stable[of L D st1 u "ga_Status a" st] lib_fresh_stable[OF lib_meta, of L D st1 u "ga_ObjectMeta a" st]
  by (simp add: below_grows_def app_refs_wf_def app_fresh_def)

lemma repo_fresh_stable:
  "lib_copies L D \<Longrightarrow> below_grows st1 u \<Longrightarrow> repo_refs_wf D st1 r \<Longrightarrow> repo_fresh D st st1 r \<Longrightarrow> repo_fresh D st u r"
  using conditions_fresh_stable[of L D st1 u "gr_Status r" st] lib_fresh_stable[OF lib_meta, of L D st1 u "gr_ObjectMeta r" st]
  by (simp add: below_grows_def repo_refs_wf_def repo_fresh_def)

subsection \<open>Lists of objects\<close>

lemma application_copies:
  assumes L: "lib_copies L D"
  shows "element_copy so_applications so_applications_update (Application_DeepCopyInto L) (app_view D) (app_refs_wf D)
    (app_fresh D) app_grows"
proof (unfold_locales, goal_cases)
  case (3 st st1 st2)
  then show ?case using below_grows_trans by (auto simp: app_grows_def)
next
  case (5 st x y st')
  then show ?case using Application_copied[OF L] by blast
next
  case (6 st u x)
  then show ?case using app_view_grows[OF L] by (auto simp: app_grows_def)
next
  case (7 st st1 u y)
  then show ?case using app_fresh_mono by (auto simp: app_grows_def)
next
  case (8 st1 u y st)
  then show ?case using app_fresh_stable[OF L] by (auto simp: app_grows_def)
qed (simp_all add: app_grows_def below_grows_def lib_grows_def)

lemma repository_copies:
  assumes L: "lib_copies L D"
  shows "element_copy so_repositories so_repositories_update (Repository_DeepCopyInto L) (repo_view D) (repo_refs_wf D)
    (repo_fresh D) repo_grows"
proof (unfold_locales, goal_cases)
  case (3 st st1 st2)
  then show ?case using below_grows_trans by (auto simp: repo_grows_def)
next
  case (5 st x y st')
  then show ?case using Repository_copied[OF L] by blast
next
  case (6 st u x)
  then show ?case using repo_view_grows[OF L] by (auto simp: repo_grows_def)
next
  case (7 st st1 u y)
  then show ?case using repo_fresh_mono by (auto simp: repo_grows_def)
next
  case (8 st1 u y st)
  then show ?case using repo_fresh_stable[OF L] by (auto simp: repo_grows_def)
qed (simp_all add: repo_grows_def below_grows_def lib_grows_def)

subsection \<open>Any object\<close>

text \<open>
  What an object looks like to a reader who follows its slices, and the library's references as \<open>D\<close> reads them;
  nothing for a nil pointer.
\<close>

datatype 'v object_value =
    ApplicationValue "'v app_value"
  | ApplicationListValue "type_meta \<times> 'v \<times> 'v app_value list option"
  | RepositoryValue "'v repo_value"
  | RepositoryListValue "type_meta \<times> 'v \<times> 'v repo_value list option"

definition app_list_view :: "('m, 'l, 'c, 'y, 'v) lib_reading \<Rightarrow> ('m, 'c, 'y) store \<Rightarrow> 'l go_list \<Rightarrow>
    type_meta \<times> 'v \<times> 'v app_value list option" where
  "app_list_view D st l = (gl_TypeMeta l, rd_ListMeta D (so_lib st) (gl_ListMeta l),
     map_option (map (app_view D st)) (slice_view (so_applications st) (gl_Items l)))"

definition repo_list_view :: "('m, 'l, 'c, 'y, 'v) lib_reading \<Rightarrow> ('m, 'c, 'y) store \<Rightarrow> 'l go_list \<Rightarrow>
    type_meta \<times> 'v \<times> 'v repo_value list option" where
  "repo_list_view D st l = (gl_TypeMeta l, rd_ListMeta D (so_lib st) (gl_ListMeta l),
     map_option (map (repo_view D st)) (slice_view (so_repositories st) (gl_Items l)))"

fun object_view :: "('m, 'l, 'c, 'y, 'v) lib_reading \<Rightarrow> ('m, 'c, 'y) store \<Rightarrow> ('m, 'l) go_object \<Rightarrow>
    'v object_value option" where
  "object_view D st (ApplicationObject ob) = map_option (\<lambda>a. ApplicationValue (app_view D st a)) ob"
| "object_view D st (ApplicationListObject ob) = map_option (\<lambda>l. ApplicationListValue (app_list_view D st l)) ob"
| "object_view D st (RepositoryObject ob) = map_option (\<lambda>r. RepositoryValue (repo_view D st r)) ob"
| "object_view D st (RepositoryListObject ob) = map_option (\<lambda>l. RepositoryListValue (repo_list_view D st l)) ob"

text \<open>All references of an object are valid.\<close>

definition app_list_wf :: "('m, 'l, 'c, 'y, 'v) lib_reading \<Rightarrow> ('m, 'c, 'y) store \<Rightarrow> 'l go_list \<Rightarrow> bool" where
  "app_list_wf D st l \<longleftrightarrow> lib_wf (rf_ListMeta D) st (gl_ListMeta l) \<and> slice_wf (so_applications st) (gl_Items l) \<and>
     (\<forall>as. slice_view (so_applications st) (gl_Items l) = Some as \<longrightarrow> (\<forall>a\<in>set as. app_refs_wf D st a))"

definition repo_list_wf :: "('m, 'l, 'c, 'y, 'v) lib_reading \<Rightarrow> ('m, 'c, 'y) store \<Rightarrow> 'l go_list \<Rightarrow> bool" where
  "repo_list_wf D st l \<longleftrightarrow> lib_wf (rf_ListMeta D) st (gl_ListMeta l) \<and> slice_wf (so_repositories st) (gl_Items l) \<and>
     (\<forall>rs. slice_view (so_repositories st) (gl_Items l) = Some rs \<longrightarrow> (\<forall>r\<in>set rs. repo_refs_wf D st r))"

fun object_wf :: "('m, 'l, 'c, 'y, 'v) lib_reading \<Rightarrow> ('m, 'c, 'y) store \<Rightarrow> ('m, 'l) go_object \<Rightarrow> bool" where
  "object_wf D st (ApplicationObject ob) = pred_option (app_refs_wf D st) ob"
| "object_wf D st (ApplicationListObject ob) = pred_option (app_list_wf D st) ob"
| "object_wf D st (RepositoryObject ob) = pred_option (repo_refs_wf D st) ob"
| "object_wf D st (RepositoryListObject ob) = pred_option (repo_list_wf D st) ob"

text \<open>All references of an object are to storage that the first store did not have.\<close>

definition app_list_fresh :: "('m, 'l, 'c, 'y, 'v) lib_reading \<Rightarrow> ('m, 'c, 'y) store \<Rightarrow> ('m, 'c, 'y) store \<Rightarrow>
    'l go_list \<Rightarrow> bool" where
  "app_list_fresh D st st' l \<longleftrightarrow> lib_fresh (rf_ListMeta D) st st' (gl_ListMeta l) \<and>
     fresh_slice (length (so_applications st)) (gl_Items l) \<and>
     (\<forall>as. slice_view (so_applications st') (gl_Items l) = Some as \<longrightarrow> (\<forall>a\<in>set as. app_fresh D st st' a))"

definition repo_list_fresh :: "('m, 'l, 'c, 'y, 'v) lib_reading \<Rightarrow> ('m, 'c, 'y) store \<Rightarrow> ('m, 'c, 'y) store \<Rightarrow>
    'l go_list \<Rightarrow> bool" where
  "repo_list_fresh D st st' l \<longleftrightarrow> lib_fresh (rf_ListMeta D) st st' (gl_ListMeta l) \<and>
     fresh_slice (length (so_repositories st)) (gl_Items l) \<and>
     (\<forall>rs. slice_view (so_repositories st') (gl_Items l) = Some rs \<longrightarrow> (\<forall>r\<in>set rs. repo_fresh D st st' r))"

fun object_fresh :: "('m, 'l, 'c, 'y, 'v) lib_reading \<Rightarrow> ('m, 'c, 'y) store \<Rightarrow> ('m, 'c, 'y) store \<Rightarrow>
    ('m, 'l) go_object \<Rightarrow> bool" where
  "object_fresh D st st' (ApplicationObject ob) = pred_option (app_fresh D st st') ob"
| "object_fresh D st st' (ApplicationListObject ob) = pred_option (app_list_fresh D st st') ob"
| "object_fresh D st st' (RepositoryObject ob) = pred_option (repo_fresh D st st') ob"
| "object_fresh D st st' (RepositoryListObject ob) = pred_option (repo_list_fresh D st st') ob"

text \<open>
  \<open>old_kept st u\<close>: every array and every cell of \<open>st\<close> is unchanged in \<open>u\<close>. \<open>new_kept st st' u\<close>: every one that \<open>st'\<close>
  has and \<open>st\<close> does not is unchanged in \<open>u\<close>, whatever has been done to those of \<open>st\<close>.
\<close>

definition old_kept :: "('m, 'c, 'y) store \<Rightarrow> ('m, 'c, 'y) store \<Rightarrow> bool" where
  "old_kept st u \<longleftrightarrow> take (length (so_strings st)) (so_strings u) = so_strings st \<and>
     take (length (so_conditions st)) (so_conditions u) = so_conditions st \<and>
     take (length (so_applications st)) (so_applications u) = so_applications st \<and>
     take (length (so_repositories st)) (so_repositories u) = so_repositories st \<and>
     take (length (so_lib st)) (so_lib u) = so_lib st"

definition new_kept :: "('m, 'c, 'y) store \<Rightarrow> ('m, 'c, 'y) store \<Rightarrow> ('m, 'c, 'y) store \<Rightarrow> bool" where
  "new_kept st st' u \<longleftrightarrow>
     drop (length (so_strings st)) (so_strings u) = drop (length (so_strings st)) (so_strings st') \<and>
     drop (length (so_conditions st)) (so_conditions u) = drop (length (so_conditions st)) (so_conditions st') \<and>
     drop (length (so_applications st)) (so_applications u) = drop (length (so_applications st)) (so_applications st') \<and>
     drop (length (so_repositories st)) (so_repositories u) = drop (length (so_repositories st)) (so_repositories st') \<and>
     drop (length (so_lib st)) (so_lib u) = drop (length (so_lib st)) (so_lib st')"

lemma old_below: "old_kept st u \<Longrightarrow> below_grows st u"
  by (simp add: old_kept_def below_grows_def lib_grows_def)

lemma lib_list_meta: "lib_copies L D \<Longrightarrow> copies_apart (lc_ListMeta L) (rd_ListMeta D) (rf_ListMeta D)"
  by (simp add: lib_copies_def)

lemma app_list_old:
  assumes L: "lib_copies L D" and k: "old_kept st u" and w: "app_list_wf D st l"
  shows "app_list_view D u l = app_list_view D st l"
proof -
  have "slice_view (so_applications u) (gl_Items l) = slice_view (so_applications st) (gl_Items l)"
    by (rule slice_prefix(1)) (use k w in \<open>simp_all add: old_kept_def app_list_wf_def\<close>)
  moreover have "map_option (map (app_view D u)) (slice_view (so_applications st) (gl_Items l)) =
      map_option (map (app_view D st)) (slice_view (so_applications st) (gl_Items l))"
    by (rule map_views) (use w app_view_grows[OF L old_below[OF k]] in \<open>simp_all add: app_list_wf_def\<close>)
  moreover have "rd_ListMeta D (so_lib u) (gl_ListMeta l) = rd_ListMeta D (so_lib st) (gl_ListMeta l)"
    using lib_stable[OF lib_list_meta[OF L] below_parts(3)[OF old_below[OF k]]] w by (simp add: app_list_wf_def)
  ultimately show ?thesis by (simp add: app_list_view_def)
qed

lemma repo_list_old:
  assumes L: "lib_copies L D" and k: "old_kept st u" and w: "repo_list_wf D st l"
  shows "repo_list_view D u l = repo_list_view D st l"
proof -
  have "slice_view (so_repositories u) (gl_Items l) = slice_view (so_repositories st) (gl_Items l)"
    by (rule slice_prefix(1)) (use k w in \<open>simp_all add: old_kept_def repo_list_wf_def\<close>)
  moreover have "map_option (map (repo_view D u)) (slice_view (so_repositories st) (gl_Items l)) =
      map_option (map (repo_view D st)) (slice_view (so_repositories st) (gl_Items l))"
    by (rule map_views) (use w repo_view_grows[OF L old_below[OF k]] in \<open>simp_all add: repo_list_wf_def\<close>)
  moreover have "rd_ListMeta D (so_lib u) (gl_ListMeta l) = rd_ListMeta D (so_lib st) (gl_ListMeta l)"
    using lib_stable[OF lib_list_meta[OF L] below_parts(3)[OF old_below[OF k]]] w by (simp add: repo_list_wf_def)
  ultimately show ?thesis by (simp add: repo_list_view_def)
qed

lemma object_view_old:
  assumes L: "lib_copies L D" and k: "old_kept st u" and w: "object_wf D st ob"
  shows "object_view D u ob = object_view D st ob"
  using w app_view_grows[OF L old_below[OF k]] repo_view_grows[OF L old_below[OF k]] app_list_old[OF L k] repo_list_old[OF L k]
  by (cases ob) (auto intro!: option.map_cong0 split: option.splits simp: option.pred_set)

lemma app_view_fresh:
  "lib_copies L D \<Longrightarrow> new_kept st st' u \<Longrightarrow> app_refs_wf D st' a \<Longrightarrow> app_fresh D st st' a \<Longrightarrow> app_view D u a = app_view D st' a"
  using slice_fresh[of "length (so_strings st)" "so_strings u" "so_strings st'" "gh_ValuesFiles (gs_Helm (ga_Spec a))"]
    conditions_kept[of L D st u st' "ga_Status a"] lib_fresh_kept[OF lib_meta, of L D st u st' "ga_ObjectMeta a"]
  by (simp add: new_kept_def app_refs_wf_def app_fresh_def app_view_def helm_view_def)

lemma repo_view_fresh:
  "lib_copies L D \<Longrightarrow> new_kept st st' u \<Longrightarrow> repo_refs_wf D st' r \<Longrightarrow> repo_fresh D st st' r \<Longrightarrow> repo_view D u r = repo_view D st' r"
  using conditions_kept[of L D st u st' "gr_Status r"] lib_fresh_kept[OF lib_meta, of L D st u st' "gr_ObjectMeta r"]
  by (simp add: new_kept_def repo_refs_wf_def repo_fresh_def repo_view_def)

lemma app_list_new:
  assumes L: "lib_copies L D" and n: "new_kept st st' u" and w: "app_list_wf D st' l" and f: "app_list_fresh D st st' l"
  shows "app_list_view D u l = app_list_view D st' l"
proof -
  have "slice_view (so_applications u) (gl_Items l) = slice_view (so_applications st') (gl_Items l)"
    by (rule slice_fresh[of "length (so_applications st)"])
      (use n w f in \<open>simp_all add: new_kept_def app_list_wf_def app_list_fresh_def\<close>)
  moreover have "map_option (map (app_view D u)) (slice_view (so_applications st') (gl_Items l)) =
      map_option (map (app_view D st')) (slice_view (so_applications st') (gl_Items l))"
    by (rule map_views) (use w f app_view_fresh[OF L n] in \<open>simp_all add: app_list_wf_def app_list_fresh_def\<close>)
  moreover have "rd_ListMeta D (so_lib u) (gl_ListMeta l) = rd_ListMeta D (so_lib st') (gl_ListMeta l)"
    by (rule lib_fresh_kept[OF lib_list_meta[OF L], of st])
      (use n w f in \<open>simp_all add: new_kept_def app_list_wf_def app_list_fresh_def\<close>)
  ultimately show ?thesis by (simp add: app_list_view_def)
qed

lemma repo_list_new:
  assumes L: "lib_copies L D" and n: "new_kept st st' u" and w: "repo_list_wf D st' l" and f: "repo_list_fresh D st st' l"
  shows "repo_list_view D u l = repo_list_view D st' l"
proof -
  have "slice_view (so_repositories u) (gl_Items l) = slice_view (so_repositories st') (gl_Items l)"
    by (rule slice_fresh[of "length (so_repositories st)"])
      (use n w f in \<open>simp_all add: new_kept_def repo_list_wf_def repo_list_fresh_def\<close>)
  moreover have "map_option (map (repo_view D u)) (slice_view (so_repositories st') (gl_Items l)) =
      map_option (map (repo_view D st')) (slice_view (so_repositories st') (gl_Items l))"
    by (rule map_views) (use w f repo_view_fresh[OF L n] in \<open>simp_all add: repo_list_wf_def repo_list_fresh_def\<close>)
  moreover have "rd_ListMeta D (so_lib u) (gl_ListMeta l) = rd_ListMeta D (so_lib st') (gl_ListMeta l)"
    by (rule lib_fresh_kept[OF lib_list_meta[OF L], of st])
      (use n w f in \<open>simp_all add: new_kept_def repo_list_wf_def repo_list_fresh_def\<close>)
  ultimately show ?thesis by (simp add: repo_list_view_def)
qed

lemma object_view_new:
  assumes L: "lib_copies L D" and n: "new_kept st st' u" and w: "object_wf D st' ob" and f: "object_fresh D st st' ob"
  shows "object_view D u ob = object_view D st' ob"
  using w f app_view_fresh[OF L n] repo_view_fresh[OF L n] app_list_new[OF L n] repo_list_new[OF L n]
  by (cases ob) (auto intro!: option.map_cong0 split: option.splits simp: option.pred_set)

text \<open>Objects are copied by their parts, lists by the contract of their elements.\<close>

lemma ApplicationList_copied:
  assumes L: "lib_copies L D" and w: "app_list_wf D st l" and c: "ApplicationList_DeepCopyInto L l st = (l', st')"
  shows "old_kept st st' \<and> app_list_view D st' l' = app_list_view D st l \<and> app_list_wf D st' l' \<and> app_list_fresh D st st' l'"
proof -
  obtain lm st0 where m: "lib_copy (lc_ListMeta L) (gl_ListMeta l) st = (lm, st0)" by (metis prod.exhaust)
  with c obtain sl where s: "copy_slice so_applications so_applications_update (zero_application (lc_zero_meta L))
      (Application_DeepCopyInto L) (gl_Items l) st0 = (sl, st')" "l' = l\<lparr>gl_ListMeta := lm, gl_Items := sl\<rparr>"
    by (auto simp: ApplicationList_DeepCopyInto_def split: prod.splits)
  have w': "lib_wf (rf_ListMeta D) st (gl_ListMeta l)" using w by (simp add: app_list_wf_def)
  from lib_copied[OF lib_list_meta[OF L] w' m] have m': "lib_grows st st0"
    "rd_ListMeta D (so_lib st0) lm = rd_ListMeta D (so_lib st) (gl_ListMeta l)"
    "lib_wf (rf_ListMeta D) st0 lm" "lib_fresh (rf_ListMeta D) st st0 lm" and st0: "st0 = st\<lparr>so_lib := so_lib st0\<rparr>"
    by simp_all
  have eq0: "so_strings st0 = so_strings st" "so_conditions st0 = so_conditions st" "so_applications st0 = so_applications st"
    "so_repositories st0 = so_repositories st" by (metis st0 store.simps store.surjective)+
  have b0: "below_grows st st0" using m'(1) eq0 by (simp add: below_grows_def)
  have items: "slice_wf (so_applications st0) (gl_Items l)"
    "\<forall>xs. slice_view (so_applications st0) (gl_Items l) = Some xs \<longrightarrow> (\<forall>x\<in>set xs. app_refs_wf D st0 x)"
    using w app_view_grows[OF L b0] by (simp_all add: app_list_wf_def eq0)
  have same: "map_option (map (app_view D st0)) (slice_view (so_applications st) (gl_Items l)) =
      map_option (map (app_view D st)) (slice_view (so_applications st) (gl_Items l))"
    by (rule map_views) (use w app_view_grows[OF L b0] in \<open>simp add: app_list_wf_def\<close>)
  from element_copy.copy_slice_ok[OF application_copies[OF L] items s(1)]
  have c': "app_grows st0 st'" "take (length (so_applications st)) (so_applications st') = so_applications st"
    "slice_wf (so_applications st') sl" "fresh_slice (length (so_applications st)) sl"
    "map_option (map (app_view D st')) (slice_view (so_applications st') sl) =
      map_option (map (app_view D st)) (slice_view (so_applications st) (gl_Items l))"
    "\<forall>ys. slice_view (so_applications st') sl = Some ys \<longrightarrow> (\<forall>y\<in>set ys. app_refs_wf D st' y \<and> app_fresh D st0 st' y)"
    by (simp_all add: eq0 same)
  have b: "below_grows st st'" using c'(1) below_grows_trans[OF b0] by (simp add: app_grows_def)
  have g: "lib_grows st0 st'" using c'(1) by (simp add: app_grows_def below_grows_def)
  have k: "old_kept st st'"
    using b c'(1,2) eq0(4) by (simp add: old_kept_def below_grows_def lib_grows_def app_grows_def)
  have m2: "rd_ListMeta D (so_lib st') lm = rd_ListMeta D (so_lib st) (gl_ListMeta l)" "lib_wf (rf_ListMeta D) st' lm"
    "lib_fresh (rf_ListMeta D) st st' lm"
    using lib_stable[OF lib_list_meta[OF L] g m'(3)] m'(2) lib_fresh_stable[OF lib_list_meta[OF L] g m'(3,4)] by simp_all
  have fr: "\<forall>ys. slice_view (so_applications st') sl = Some ys \<longrightarrow> (\<forall>y\<in>set ys. app_refs_wf D st' y \<and> app_fresh D st st' y)"
    using c'(6) app_fresh_mono[OF b0] by blast
  show ?thesis
    using k c'(3-5) m2 fr
    by (simp add: s(2) app_list_view_def app_list_wf_def app_list_fresh_def)
qed

lemma RepositoryList_copied:
  assumes L: "lib_copies L D" and w: "repo_list_wf D st l" and c: "RepositoryList_DeepCopyInto L l st = (l', st')"
  shows "old_kept st st' \<and> repo_list_view D st' l' = repo_list_view D st l \<and> repo_list_wf D st' l' \<and> repo_list_fresh D st st' l'"
proof -
  obtain lm st0 where m: "lib_copy (lc_ListMeta L) (gl_ListMeta l) st = (lm, st0)" by (metis prod.exhaust)
  with c obtain sl where s: "copy_slice so_repositories so_repositories_update (zero_repository (lc_zero_meta L))
      (Repository_DeepCopyInto L) (gl_Items l) st0 = (sl, st')" "l' = l\<lparr>gl_ListMeta := lm, gl_Items := sl\<rparr>"
    by (auto simp: RepositoryList_DeepCopyInto_def split: prod.splits)
  have w': "lib_wf (rf_ListMeta D) st (gl_ListMeta l)" using w by (simp add: repo_list_wf_def)
  from lib_copied[OF lib_list_meta[OF L] w' m] have m': "lib_grows st st0"
    "rd_ListMeta D (so_lib st0) lm = rd_ListMeta D (so_lib st) (gl_ListMeta l)"
    "lib_wf (rf_ListMeta D) st0 lm" "lib_fresh (rf_ListMeta D) st st0 lm" and st0: "st0 = st\<lparr>so_lib := so_lib st0\<rparr>"
    by simp_all
  have eq0: "so_strings st0 = so_strings st" "so_conditions st0 = so_conditions st" "so_applications st0 = so_applications st"
    "so_repositories st0 = so_repositories st" by (metis st0 store.simps store.surjective)+
  have b0: "below_grows st st0" using m'(1) eq0 by (simp add: below_grows_def)
  have items: "slice_wf (so_repositories st0) (gl_Items l)"
    "\<forall>xs. slice_view (so_repositories st0) (gl_Items l) = Some xs \<longrightarrow> (\<forall>x\<in>set xs. repo_refs_wf D st0 x)"
    using w repo_view_grows[OF L b0] by (simp_all add: repo_list_wf_def eq0)
  have same: "map_option (map (repo_view D st0)) (slice_view (so_repositories st) (gl_Items l)) =
      map_option (map (repo_view D st)) (slice_view (so_repositories st) (gl_Items l))"
    by (rule map_views) (use w repo_view_grows[OF L b0] in \<open>simp add: repo_list_wf_def\<close>)
  from element_copy.copy_slice_ok[OF repository_copies[OF L] items s(1)]
  have c': "repo_grows st0 st'" "take (length (so_repositories st)) (so_repositories st') = so_repositories st"
    "slice_wf (so_repositories st') sl" "fresh_slice (length (so_repositories st)) sl"
    "map_option (map (repo_view D st')) (slice_view (so_repositories st') sl) =
      map_option (map (repo_view D st)) (slice_view (so_repositories st) (gl_Items l))"
    "\<forall>ys. slice_view (so_repositories st') sl = Some ys \<longrightarrow> (\<forall>y\<in>set ys. repo_refs_wf D st' y \<and> repo_fresh D st0 st' y)"
    by (simp_all add: eq0 same)
  have b: "below_grows st st'" using c'(1) below_grows_trans[OF b0] by (simp add: repo_grows_def)
  have g: "lib_grows st0 st'" using c'(1) by (simp add: repo_grows_def below_grows_def)
  have k: "old_kept st st'"
    using b c'(1,2) eq0(3) by (simp add: old_kept_def below_grows_def lib_grows_def repo_grows_def)
  have m2: "rd_ListMeta D (so_lib st') lm = rd_ListMeta D (so_lib st) (gl_ListMeta l)" "lib_wf (rf_ListMeta D) st' lm"
    "lib_fresh (rf_ListMeta D) st st' lm"
    using lib_stable[OF lib_list_meta[OF L] g m'(3)] m'(2) lib_fresh_stable[OF lib_list_meta[OF L] g m'(3,4)] by simp_all
  have fr: "\<forall>ys. slice_view (so_repositories st') sl = Some ys \<longrightarrow> (\<forall>y\<in>set ys. repo_refs_wf D st' y \<and> repo_fresh D st st' y)"
    using c'(6) repo_fresh_mono[OF b0] by blast
  show ?thesis
    using k c'(3-5) m2 fr
    by (simp add: s(2) repo_list_view_def repo_list_wf_def repo_list_fresh_def)
qed

lemmas DeepCopy_defs = Application_DeepCopy_def ApplicationList_DeepCopy_def Repository_DeepCopy_def
  RepositoryList_DeepCopy_def

lemma DeepCopyObject_copied:
  assumes L: "lib_copies L D" and w: "object_wf D st ob" and c: "DeepCopyObject L ob st = (Some ob', st')"
  shows "old_kept st st' \<and> object_view D st' ob' = object_view D st ob \<and> object_wf D st' ob' \<and> object_fresh D st st' ob'"
proof (cases ob)
  case (ApplicationObject oa)
  with c obtain a b where a: "oa = Some a" "Application_DeepCopyInto L a st = (b, st')" "ob' = ApplicationObject (Some b)"
    by (cases oa) (auto simp: DeepCopyObject_defs DeepCopy_defs deep_copy_def split: prod.splits)
  from Application_copied[OF L _ a(2)] w a(1,3) ApplicationObject show ?thesis
    by (simp add: app_grows_def below_grows_def lib_grows_def old_kept_def)
next
  case (RepositoryObject o')
  with c obtain a b where a: "o' = Some a" "Repository_DeepCopyInto L a st = (b, st')" "ob' = RepositoryObject (Some b)"
    by (cases o') (auto simp: DeepCopyObject_defs DeepCopy_defs deep_copy_def split: prod.splits)
  from Repository_copied[OF L _ a(2)] w a(1,3) RepositoryObject show ?thesis
    by (simp add: repo_grows_def below_grows_def lib_grows_def old_kept_def)
next
  case (ApplicationListObject ol)
  with c obtain l l' where l: "ol = Some l" "ApplicationList_DeepCopyInto L l st = (l', st')"
    "ob' = ApplicationListObject (Some l')"
    by (cases ol) (auto simp: DeepCopyObject_defs DeepCopy_defs deep_copy_def split: prod.splits)
  from ApplicationList_copied[OF L _ l(2)] w show ?thesis by (simp add: ApplicationListObject l(1,3))
next
  case (RepositoryListObject ol)
  with c obtain l l' where l: "ol = Some l" "RepositoryList_DeepCopyInto L l st = (l', st')"
    "ob' = RepositoryListObject (Some l')"
    by (cases ol) (auto simp: DeepCopyObject_defs DeepCopy_defs deep_copy_def split: prod.splits)
  from RepositoryList_copied[OF L _ l(2)] w show ?thesis by (simp add: RepositoryListObject l(1,3))
qed

text \<open>
  C25. A deep copy of a custom resource, or of a list of them, is an equal object that shares no storage
  with the original, its metadata and its conditions included: nothing that is done to the arrays and the
  library's cells made for the copy changes what the original looks like, and nothing that is done to those
  there were before changes the copy. The references of the copy are valid, and copying writes to nothing
  there was. The condition on the library is that its own copy functions do the same for an
  \<^verbatim>\<open>ObjectMeta\<close>, a \<^verbatim>\<open>ListMeta\<close> and a \<^verbatim>\<open>Condition\<close>.
\<close>

theorem deep_copy_independent:
  assumes "lib_copies L D" and "object_wf D st ob" and "DeepCopyObject L ob st = (Some ob', st')"
  shows "object_view D st' ob' = object_view D st ob \<and> object_wf D st' ob' \<and> old_kept st st' \<and>
    (\<forall>u. old_kept st u \<longrightarrow> object_view D u ob = object_view D st ob) \<and>
    (\<forall>u. new_kept st st' u \<longrightarrow> object_view D u ob' = object_view D st' ob')"
  using DeepCopyObject_copied[OF assms] object_view_old[OF assms(1) _ assms(2)] object_view_new[OF assms(1), where ob = ob']
  by blast

text \<open>
  A list of one application with a slice of values files and metadata whose finalizers are a cell of the library's
  storage; list metadata and conditions without references.
\<close>

definition sample_cell :: "string list list \<Rightarrow> nat \<Rightarrow> string list" where
  "sample_cell h i = (if i < length h then h ! i else [])"

definition sample_reading :: "(string \<times> nat option, string, string, string list, string \<times> string list option) lib_reading" where
  "sample_reading = \<lparr>rd_ObjectMeta = \<lambda>h m. (fst m, map_option (sample_cell h) (snd m)), rd_ListMeta = \<lambda>_ l. (l, None),
     rd_Condition = \<lambda>_ c. (c, None), rf_ObjectMeta = \<lambda>_ m. set_option (snd m), rf_ListMeta = \<lambda>_ _. {},
     rf_Condition = \<lambda>_ _. {}\<rparr>"

definition sample_lib :: "(string \<times> nat option, string, string, string list) copy_lib" where
  "sample_lib = \<lparr>lc_ObjectMeta = \<lambda>m h. (case snd m of None \<Rightarrow> (m, h)
       | Some i \<Rightarrow> ((fst m, Some (length h)), h @ [sample_cell h i])),
     lc_ListMeta = Pair, lc_Condition = Pair, lc_zero_meta = ([], None), lc_zero_condition = []\<rparr>"

definition sample_app :: "(string \<times> nat option) go_application" where
  "sample_app = (let z = zero_application (''a'', Some 0); h = gs_Helm (ga_Spec z) in
     z\<lparr>ga_Spec := (ga_Spec z)\<lparr>gs_Helm := h\<lparr>gh_ValuesFiles := Some \<lparr>sl_array = 0, sl_off = 1, sl_len = 1\<rparr>\<rparr>\<rparr>\<rparr>)"

definition sample_store :: "(string \<times> nat option, string, string list) store" where
  "sample_store = \<lparr>so_strings = [[''x.yaml'', ''y.yaml'']], so_conditions = [], so_applications = [[sample_app]],
     so_repositories = [], so_lib = [[''cd/finalizer'']]\<rparr>"

definition sample_list :: "string go_list" where
  "sample_list = \<lparr>gl_TypeMeta = (''v1'', ''ApplicationList''), gl_ListMeta = [],
     gl_Items = Some \<lparr>sl_array = 0, sl_off = 0, sl_len = 1\<rparr>\<rparr>"

lemma sample_lib_copies: "lib_copies sample_lib sample_reading"
proof -
  have "copies_apart (lc_ObjectMeta sample_lib) (rd_ObjectMeta sample_reading) (rf_ObjectMeta sample_reading)"
    unfolding copies_apart_def
  proof (intro conjI allI impI)
    fix h h' :: "string list list" and x x' :: "string \<times> nat option"
    obtain n oc where x: "x = (n, oc)" by (cases x)
    assume "rf_ObjectMeta sample_reading h x \<subseteq> {..<length h}" and "lc_ObjectMeta sample_lib x h = (x', h')"
    then show "take (length h) h' = h" "rd_ObjectMeta sample_reading h' x' = rd_ObjectMeta sample_reading h x"
      "rf_ObjectMeta sample_reading h' x' \<subseteq> {length h..<length h'}"
      by (cases oc; force simp: x sample_lib_def sample_reading_def sample_cell_def)+
  next
    fix h u :: "string list list" and x
    assume "\<forall>i\<in>rf_ObjectMeta sample_reading h x. i < length h \<and> i < length u \<and> u ! i = h ! i"
    then show "rd_ObjectMeta sample_reading u x = rd_ObjectMeta sample_reading h x"
      "rf_ObjectMeta sample_reading u x = rf_ObjectMeta sample_reading h x"
      by (cases "snd x"; simp add: sample_reading_def sample_cell_def)+
  qed
  then show ?thesis by (simp add: lib_copies_def copies_apart_def sample_lib_def sample_reading_def)
qed

text \<open>The values files and the finalizers of the original are overwritten: the copy still shows what they were.\<close>

theorem deep_copy_independent_witness:
  "\<exists>ob' st'. DeepCopyObject sample_lib (ApplicationListObject (Some sample_list)) sample_store = (Some ob', st') \<and>
     object_view sample_reading (st'\<lparr>so_strings := [''lost''] # tl (so_strings st'), so_lib := [] # tl (so_lib st')\<rparr>) ob' =
       object_view sample_reading sample_store (ApplicationListObject (Some sample_list))"
proof -
  let ?ob = "ApplicationListObject (Some sample_list) :: (string \<times> nat option, string) go_object"
  obtain l' st' where "ApplicationList_DeepCopyInto sample_lib sample_list sample_store = (l', st')" by (metis prod.exhaust)
  then have c: "DeepCopyObject sample_lib ?ob sample_store = (Some (ApplicationListObject (Some l')), st')"
    by (simp add: DeepCopyObject_defs ApplicationList_DeepCopy_def deep_copy_def)
  have w: "object_wf sample_reading sample_store ?ob"
    by (simp add: app_list_wf_def lib_wf_def conditions_wf_def slice_wf_def slice_view_def slice_items_def app_refs_wf_def
        sample_store_def sample_list_def sample_app_def sample_reading_def zero_application_def Let_def)
  note d = deep_copy_independent[OF sample_lib_copies w c]
  have "new_kept sample_store st' (st'\<lparr>so_strings := [''lost''] # tl (so_strings st'), so_lib := [] # tl (so_lib st')\<rparr>)"
    by (simp add: new_kept_def sample_store_def drop_Suc)
  with d c show ?thesis by metis
qed

end
