(* ===== verification/Spec2Isabelle.thy ===== *)
theory Spec2Isabelle
  imports RawProps HelmProps AppProps RepoProps ServiceProps OperatorProps SyncProps TickerProps QueryProps PoolProps FileProps
    ConcurrentAddsProps ConcurrentReposProps RpcProps
    ServerStartProps OperatorStartProps DeepCopyProps
begin

text \<open>
  \<^bold>\<open>A model of dummy-cd\<close>

  dummy-cd is a small continuous-delivery system for Kubernetes. An operator
  (\<^verbatim>\<open>src/operator\<close>) watches two kinds of custom resources and turns each into calls of a gRPC service;
  the server (\<^verbatim>\<open>src/server\<close>) keeps a list of git repositories, each with its applications. For an
  application the server clones one directory of the repository and delivers what it finds there: a
  Helm chart with Helm, plain manifests with the Kubernetes API. A ticker makes every application look
  for a new revision.

  \<^bold>\<open>How the program is modelled.\<close> Every function of the program is a HOL function in the state-passing
  type \<open>comp\<close> (theory \<open>Prelude\<close>): it takes the state it works on and gives a result and the state
  left behind. A result is a value (\<open>Ret\<close>), an error value of Go (\<open>Fail\<close>), a panic (\<open>Panic\<close>), or
  \<open>Spin\<close>: the function waits for a mutex that nobody in its own execution will free. So "it returns" is
  always a statement of its own. Methods with pointer receivers work on a pair of the object and the
  world; the world holds the disk, the goroutines that were started and not yet run, and everything
  outside the process. go-git, client-go, Helm, cmp, controller-runtime, gRPC and protobuf are arguments
  (\<open>externals\<close>, \<open>app_cmp\<close>, \<open>kube\<close>, \<open>manager_api\<close>, \<open>scheme_api\<close>, \<open>client_conn\<close>, \<open>codec\<close>); what a property needs of them is a named hypothesis about them, and
  theory \<open>Sample\<close> has one concrete outside world at which the witnesses evaluate the program.

  \<^bold>\<open>Theories.\<close>

  \<^item> \<open>Prelude\<close>: results, computations, loops over slices, the rules \<open>keeps\<close>, \<open>returns\<close> and \<open>maintains\<close>;
    the program's error values (\<^verbatim>\<open>util/errors.go\<close>).
  \<^item> \<open>GoStd\<close>, \<open>GoUrl\<close>, \<open>Types\<close>: mutexes, \<^verbatim>\<open>strings\<close>, \<^verbatim>\<open>path\<close>, \<^verbatim>\<open>regexp\<close>, \<^verbatim>\<open>net/url\<close> as far as they are
    called; the data the libraries exchange with the program.
  \<^item> \<open>Util\<close>: \<^verbatim>\<open>util/utils.go\<close>, over a file system that is a tree.
  \<^item> \<open>Externals\<close>: the calls of libraries and services, and their documented behaviour as hypotheses.
  \<^item> \<open>RawProvider\<close>, \<open>RawProofs\<close>, \<open>RawProps\<close>: \<^verbatim>\<open>provider/raw.go\<close>.
  \<^item> \<open>CleanupPool\<close>, \<open>PoolProofs\<close>, \<open>PoolProps\<close>: the loop of \<^verbatim>\<open>cleanResources\<close> and its goroutines in small steps,
    with the channels that bound them; every schedule ends as the goroutines run one after the other.
  \<^item> \<open>HelmProvider\<close>, \<open>HelmProofs\<close>, \<open>HelmProps\<close>: \<^verbatim>\<open>provider/helm.go\<close>.
  \<^item> \<open>Provider\<close>: \<^verbatim>\<open>provider/interface.go\<close>, one constructor per implementation.
  \<^item> \<open>RepositoryConfig\<close>, \<open>Application\<close>, \<open>Repository\<close>, \<open>Handler\<close>: \<^verbatim>\<open>instance/repository.go\<close>,
    \<^verbatim>\<open>instance/application.go\<close>, \<^verbatim>\<open>instance/handler.go\<close>.
  \<^item> \<open>Messages\<close>, \<open>Server\<close>: the messages of \<^verbatim>\<open>pb/handler.pb.go\<close> with their nil-safe getters,
    \<^verbatim>\<open>server/server.go\<close> with one definition per RPC, a request as a value that selects one of them, and
    the part of \<^verbatim>\<open>server/main.go\<close> that builds the server.
  \<^item> \<open>Rpc\<close>, \<open>RpcProofs\<close>, \<open>RpcProps\<close>: \<^verbatim>\<open>pb/handler_grpc.pb.go\<close>, that is the client stub, the server interface,
    the handlers and the service description; what gRPC does with them is a hypothesis on a connection.
    The properties join operator, stub, connection, handlers and server.
  \<^item> \<open>ServerStart\<close>, \<open>ServerStartProps\<close>: \<^verbatim>\<open>server/main.go\<close> from the log set-up to the first state of the loop,
    with the interval of the ticker as the 64-bit word it is.
  \<^item> \<open>StoreProofs\<close>, \<open>ServerProofs\<close>: the invariant of the handler's data and its preservation; the locales
    \<open>repository_store\<close> (what the RPCs need of the handler) and \<open>service\<close> (what a client sees), both
    interpreted on the model.
  \<^item> \<open>Ticker\<close>: the loop \<^verbatim>\<open>Handle\<close> of \<^verbatim>\<open>instance/handler.go\<close> with its goroutines, beside the requests, the
    cleanups, those of replaced providers among them, and the deletions, as one step function per actor.
    \<open>TickerProofs\<close> shows what requests leave alone, \<open>ProcessProofs\<close> the invariant of the process, \<open>TickProofs\<close> that a
    tick ends and what it has started by then, provided that the life cycles of the tick's own states come back;
    \<open>LifeProofs\<close> shows that those of Helm applications do where every library call does; \<open>TickerProps\<close> holds
    the properties.
  \<^item> \<open>ConcurrentAdds\<close>, \<open>ConcurrentAddsProofs\<close>, \<open>ConcurrentAddsProps\<close>: \<^verbatim>\<open>AddOrUpdateApplication\<close> cut where
    other requests can come between, and any number of its calls interleaving on one repository.
  \<^item> \<open>ConcurrentRepos\<close>, \<open>ConcurrentReposProofs\<close>, \<open>ConcurrentReposProps\<close>: the requests that add and delete
    repositories and applications, cut where the server takes and frees its mutexes, over the slice of
    pointers to repositories that the handler has.
  \<^item> \<open>AppProps\<close>, \<open>RepoProps\<close>, \<open>ServiceProps\<close>: the properties of applications, repositories, the service; \<open>SyncProps\<close>:
    what a life cycle and an uninstall come to in the cluster and on disk, once their goroutines have run.
  \<^item> \<open>Operator\<close>, \<open>OperatorProps\<close>: the custom resources and the two reconcilers; \<open>EndToEnd\<close>: what a
    reconciliation leaves in the server's store.
  \<^item> \<open>QueryProps\<close>: the listing of the server; \<open>FileProps\<close>: files and the tree they are in.
  \<^item> \<open>Scheme\<close>: the registration of the custom resources in \<^verbatim>\<open>api/v1alpha1\<close>. \<open>OperatorStart\<close>,
    \<open>OperatorStartProps\<close>: \<^verbatim>\<open>operator/main.go\<close>, \<^verbatim>\<open>server/client.go\<close>, both \<^verbatim>\<open>SetupWithManager\<close>.
  \<^item> \<open>DeepCopy\<close>, \<open>DeepCopyProps\<close>: \<^verbatim>\<open>zz_generated.deepcopy.go\<close> over a store of arrays and of the storage that the
    library's structs (metadata, conditions) refer to; the library's own copies are a hypothesis in terms of footprints.

  \<^bold>\<open>What is shown.\<close> Raw delivery brings a cluster to the manifests and a second one changes nothing;
  cleanup deletes what is stale, uninstalling deletes everything; the provider's lock protocol holds
  in every interleaving of its operations. Helm delivery is the execution of a plan. A life cycle
  changes only revision and provider, and moves to a revision only by delivering it; with nothing new to fetch it
  brings the cluster back in step with the manifests, and an uninstall leaves neither files nor objects. The repository
  operations and the server keep the invariant of the store for every sequence of requests. The operator
  drops a finalizer only after the server has acknowledged the deletion, and reports a synchronisation only with the
  finalizer stored, though the API server may refuse any of its updates. In every interleaving of the
  ticker with requests the locks, the goroutines and the \<^verbatim>\<open>WaitGroup\<close> agree, and a tick that begins with
  no goroutine left over runs every application once and ends. Over a connection that delivers, the calls of
  the generated client are the server's RPCs, so what a reconciliation leaves in the server's store is shown
  from the reconciler through both ends of gRPC. Concurrent requests never register a URL
  twice, but an application can be acknowledged on a repository that is gone. Several properties record
  faults: they are the ones named in the manifest's findings.

  \<^bold>\<open>Simplifications.\<close> An RPC, a life cycle and a delivery each run as one step; the goroutines a
  function starts and awaits run in slice order, those nobody awaits go to \<open>spawned\<close> and are steps of
  their own (theory \<open>PoolProps\<close> justifies this for the cleanup). What calls of \<^verbatim>\<open>AddOrUpdateApplication\<close> do
  to each other when they are not one step is in theory \<open>ConcurrentAddsProps\<close>, which leaves the other
  requests and the ticker out; theory \<open>ConcurrentReposProps\<close> has adding and deleting of repositories and
  applications together, with a call on a repository as one step and again without the ticker. A panic in an
  RPC ends the run of the client that made it, as it ends the server's process. No fuel is used: every loop is over a finite slice, but for the spin loops, which end at
  once or are \<open>Spin\<close>. Hashes are 160-bit words; a mutex is a bit. The file system has no links and no
  permissions. The cluster that manifests are delivered to is one that can be reached: its writes succeed and its
  deletions are immediate, foreground propagation is left out (\<open>cluster_writes\<close> in theory \<open>Externals\<close>).

  \<^bold>\<open>Not modelled.\<close> The protobuf encoding and the gRPC transport (generated tables and library code: they are
  parameters with documented behaviour), log output but for the set-up and the line it asks for, the parsing
  of command-line flags, and the operator's test suite. What Helm and client-go read
  from the environment and from the files their configuration names is part of their calls.
\<close>

end
